(* ===== verification/Prelude.thy ===== *)
theory Prelude
  imports Main
begin

text \<open>
  The vocabulary every component shares.  The first part is the result type of code that
  raises (\<open>'e + 'a\<close>, with \<open>Inl\<close> for the exception) and its sequencing operator.  The second
  part is the value domain of the program: Python values that come from or go to JSON
  documents, with the built-in operations the sources apply to them (\<open>dict.get\<close>, item
  assignment, \<open>isinstance\<close>, truth value, \<open>==\<close>, \<open>int()\<close>, \<open>str()\<close>, \<open>str.strip\<close>, \<open>str.lower\<close>).

  Text is a list of code points below 256.  A string that \<open>datetime.fromisoformat\<close> reads
  (after the sources' replacement of \<open>Z\<close> by \<open>+00:00\<close>) is represented by the instant it
  denotes, \<open>JTime\<close>, in microseconds since the epoch, with or without a zone; every other
  string, and one of digits only, is \<open>JStr\<close>.  Instants are unbounded, so the year range of \<open>datetime\<close> is not modelled.
  The order of the keys of an object is kept but never observed by the code modelled here.
\<close>

section \<open>Results\<close>

named_theorems result_simps \<open>inversion of successful and failing computations\<close>
named_theorems dict_simps \<open>lookups in updated dictionaries\<close>

definition bindE :: "('e + 'a) \<Rightarrow> ('a \<Rightarrow> 'e + 'b) \<Rightarrow> 'e + 'b" where
  "bindE m f = (case m of Inl e \<Rightarrow> Inl e | Inr x \<Rightarrow> f x)"

lemma bindE_Inl [simp]: "bindE (Inl e) f = Inl e"
  by (simp add: bindE_def)

lemma bindE_Inr [simp]: "bindE (Inr x) f = f x"
  by (simp add: bindE_def)

lemma bindE_eq_Inr [result_simps]: "bindE m f = Inr y \<longleftrightarrow> (\<exists>x. m = Inr x \<and> f x = Inr y)"
  by (cases m) auto

lemma bindE_eq_Inl [result_simps]:
  "bindE m f = Inl e \<longleftrightarrow> m = Inl e \<or> (\<exists>x. m = Inr x \<and> f x = Inl e)"
  by (cases m) auto

lemma bindE_cong [fundef_cong]:
  "m = m' \<Longrightarrow> (\<And>x. m' = Inr x \<Longrightarrow> f x = g x) \<Longrightarrow> bindE m f = bindE m' g"
  by (cases m') auto

lemma if_Inl_eq_Inr [result_simps]: "(if b then Inl e else m) = Inr x \<longleftrightarrow> \<not> b \<and> m = Inr x"
  by auto

definition check :: "bool \<Rightarrow> 'e \<Rightarrow> 'e + unit" where
  \<comment> \<open>\<open>if not b: raise e\<close>\<close>
  "check b e = (if b then Inr () else Inl e)"

lemma check_simps [simp]: "check True e = Inr ()" "check False e = Inl e"
  by (simp_all add: check_def)

lemma check_eq_Inr [result_simps]: "check b e = Inr u \<longleftrightarrow> b"
  by (simp add: check_def)

lemma check_eq_Inl [result_simps]: "check b e = Inl e' \<longleftrightarrow> \<not> b \<and> e' = e"
  by (auto simp: check_def)

fun mapE :: "('a \<Rightarrow> 'e + 'b) \<Rightarrow> 'a list \<Rightarrow> 'e + 'b list" where
  "mapE f [] = Inr []"
| "mapE f (x # xs) = bindE (f x) (\<lambda>y. bindE (mapE f xs) (\<lambda>ys. Inr (y # ys)))"

lemma mapE_cong [fundef_cong]:
  "xs = ys \<Longrightarrow> (\<And>x. x \<in> set ys \<Longrightarrow> f x = g x) \<Longrightarrow> mapE f xs = mapE g ys"
  by (induction ys arbitrary: xs) (auto intro!: bindE_cong)

lemma mapE_length: "mapE f xs = Inr ys \<Longrightarrow> length ys = length xs"
  by (induction xs arbitrary: ys) (auto simp: result_simps)

lemma mapE_set: "mapE f xs = Inr ys \<Longrightarrow> y \<in> set ys \<Longrightarrow> \<exists>x \<in> set xs. f x = Inr y"
  by (induction xs arbitrary: ys) (auto simp: result_simps)

lemma mapE_all: "mapE f xs = Inr ys \<Longrightarrow> x \<in> set xs \<Longrightarrow> \<exists>y \<in> set ys. f x = Inr y"
  by (induction xs arbitrary: ys) (auto simp: result_simps)

lemma mapE_Inr_map: "(\<And>x. x \<in> set xs \<Longrightarrow> f x = Inr (g x)) \<Longrightarrow> mapE f xs = Inr (map g xs)"
  by (induction xs) auto

definition raises_only :: "'e set \<Rightarrow> 'e + 'a \<Rightarrow> bool" where
  \<comment> \<open>the exceptions a computation can raise\<close>
  "raises_only es m \<longleftrightarrow> (\<forall>e. m = Inl e \<longrightarrow> e \<in> es)"

named_theorems raises_intro \<open>rules that bound the exceptions of a computation\<close>

lemma raises_only_simps [raises_intro]:
  "raises_only es (Inr x)"
  "e \<in> es \<Longrightarrow> raises_only es (Inl e)"
  "e \<in> es \<Longrightarrow> raises_only es (check b e)"
  by (auto simp: raises_only_def check_def)

lemma raises_only_bindE [raises_intro]:
  "raises_only es m \<Longrightarrow> (\<And>x. raises_only es (f x)) \<Longrightarrow> raises_only es (bindE m f)"
  by (cases m) (auto simp: raises_only_def)

lemma raises_only_if [raises_intro]:
  "raises_only es m \<Longrightarrow> raises_only es n \<Longrightarrow> raises_only es (if b then m else n)"
  by simp

lemma raises_only_option [raises_intro]:
  "raises_only es m \<Longrightarrow> (\<And>x. raises_only es (f x)) \<Longrightarrow>
     raises_only es (case v of None \<Rightarrow> m | Some x \<Rightarrow> f x)"
  by (cases v) auto

lemma raises_onlyD: "raises_only es m \<Longrightarrow> m = Inl e \<Longrightarrow> e \<in> es"
  by (simp add: raises_only_def)

section \<open>Text\<close>

definition code_point :: "char \<Rightarrow> nat" where
  "code_point c = of_char c"

definition is_space :: "char \<Rightarrow> bool" where
  \<comment> \<open>\<open>str.isspace\<close> on code points below 256\<close>
  "is_space c \<longleftrightarrow> (let n = code_point c in
     (9 \<le> n \<and> n \<le> 13) \<or> (28 \<le> n \<and> n \<le> 32) \<or> n = 133 \<or> n = 160)"

definition is_digit :: "char \<Rightarrow> bool" where
  "is_digit c \<longleftrightarrow> 48 \<le> code_point c \<and> code_point c \<le> 57"

definition is_lower_hex :: "char \<Rightarrow> bool" where
  \<comment> \<open>\<open>[0-9a-f]\<close>\<close>
  "is_lower_hex c \<longleftrightarrow> is_digit c \<or> (97 \<le> code_point c \<and> code_point c \<le> 102)"

definition is_ascii_alnum :: "char \<Rightarrow> bool" where
  \<comment> \<open>\<open>[A-Za-z0-9]\<close>\<close>
  "is_ascii_alnum c \<longleftrightarrow> is_digit c \<or> (65 \<le> code_point c \<and> code_point c \<le> 90)
     \<or> (97 \<le> code_point c \<and> code_point c \<le> 122)"

definition strip :: "string \<Rightarrow> string" where
  "strip s = rev (dropWhile is_space (rev (dropWhile is_space s)))"

definition lower_char :: "char \<Rightarrow> char" where
  "lower_char c = (let n = code_point c in
     if (65 \<le> n \<and> n \<le> 90) \<or> (192 \<le> n \<and> n \<le> 222 \<and> n \<noteq> 215) then char_of (n + 32) else c)"

definition lower :: "string \<Rightarrow> string" where
  "lower s = map lower_char s"

fun starts_with :: "string \<Rightarrow> string \<Rightarrow> bool" where
  "starts_with s [] \<longleftrightarrow> True"
| "starts_with [] (p # ps) \<longleftrightarrow> False"
| "starts_with (c # s) (p # ps) \<longleftrightarrow> c = p \<and> starts_with s ps"

fun contains :: "string \<Rightarrow> string \<Rightarrow> bool" where
  \<comment> \<open>\<open>p in s\<close>\<close>
  "contains [] p \<longleftrightarrow> p = []"
| "contains (c # s) p \<longleftrightarrow> starts_with (c # s) p \<or> contains s p"

lemma starts_with_append: "starts_with s p \<longleftrightarrow> (\<exists>t. s = p @ t)"
  by (induction s p rule: starts_with.induct) auto

fun nat_digits :: "nat \<Rightarrow> string" where
  "nat_digits n = (if n < 10 then [char_of (48 + n)]
     else nat_digits (n div 10) @ [char_of (48 + n mod 10)])"

declare nat_digits.simps [simp del]

lemma nat_digits_nonempty [simp]: "nat_digits n \<noteq> []"
  by (subst nat_digits.simps) simp

definition dec :: "int \<Rightarrow> string" where
  "dec i = (if i < 0 then CHR ''-'' # nat_digits (nat (- i)) else nat_digits (nat i))"

lemma dec_nonempty [simp]: "dec i \<noteq> []"
  by (simp add: dec_def)

definition zpad :: "nat \<Rightarrow> string \<Rightarrow> string" where
  \<comment> \<open>\<open>f"{n:0w}"\<close> on the digits of a natural number\<close>
  "zpad w s = replicate (w - length s) CHR ''0'' @ s"

section \<open>Python values of JSON documents\<close>

datatype stamp = Aware int | Naive int
  \<comment> \<open>microseconds since the epoch; a naive one has no zone\<close>

datatype pyfloat = PFin char string int nat | PInf | PNegInf | PNaN
  \<comment> \<open>a finite float is given by its \<open>repr\<close> (first character and the rest) and its exact value \<open>m / 2 ^ k\<close>\<close>

datatype json =
    JNull
  | JBool bool
  | JInt int
  | JFloat pyfloat
  | JStr string
  | JTime stamp
  | JList "json list"
  | JObj "(string \<times> json) list"

type_synonym dict = "(string \<times> json) list"

datatype py_exc = TypeError | ValueError | OverflowError | KeyError | AttributeError | IndexError | StopIteration

definition is_str :: "json \<Rightarrow> bool" where
  \<comment> \<open>\<open>isinstance(v, str)\<close>\<close>
  "is_str v = (case v of JStr s \<Rightarrow> True | JTime t \<Rightarrow> True | _ \<Rightarrow> False)"

definition is_obj :: "json \<Rightarrow> bool" where
  \<comment> \<open>\<open>isinstance(v, dict)\<close> and \<open>isinstance(v, Mapping)\<close>\<close>
  "is_obj v = (case v of JObj d \<Rightarrow> True | _ \<Rightarrow> False)"

definition is_list :: "json \<Rightarrow> bool" where
  "is_list v = (case v of JList xs \<Rightarrow> True | _ \<Rightarrow> False)"

definition is_bool :: "json \<Rightarrow> bool" where
  "is_bool v = (case v of JBool b \<Rightarrow> True | _ \<Rightarrow> False)"

definition is_json_int :: "json \<Rightarrow> bool" where
  \<comment> \<open>\<open>isinstance(v, int) and not isinstance(v, bool)\<close>\<close>
  "is_json_int v = (case v of JInt i \<Rightarrow> True | _ \<Rightarrow> False)"

lemma is_str_simps [simp]:
  "is_str (JStr s)" "is_str (JTime t)" "\<not> is_str JNull" "\<not> is_str (JBool b)" "\<not> is_str (JInt i)"
  "\<not> is_str (JFloat f)" "\<not> is_str (JList xs)" "\<not> is_str (JObj d)"
  by (simp_all add: is_str_def)

lemma is_obj_iff [simp]: "is_obj v \<longleftrightarrow> (\<exists>d. v = JObj d)"
  by (cases v) (auto simp: is_obj_def)

lemma is_list_iff [simp]: "is_list v \<longleftrightarrow> (\<exists>xs. v = JList xs)"
  by (cases v) (auto simp: is_list_def)

lemma is_bool_iff [simp]: "is_bool v \<longleftrightarrow> (\<exists>b. v = JBool b)"
  by (cases v) (auto simp: is_bool_def)

lemma is_json_int_iff [simp]: "is_json_int v \<longleftrightarrow> (\<exists>i. v = JInt i)"
  by (cases v) (auto simp: is_json_int_def)

definition truthy :: "json \<Rightarrow> bool" where
  "truthy v = (case v of
     JNull \<Rightarrow> False
   | JBool b \<Rightarrow> b
   | JInt i \<Rightarrow> i \<noteq> 0
   | JFloat (PFin c r m k) \<Rightarrow> m \<noteq> 0
   | JFloat _ \<Rightarrow> True
   | JStr s \<Rightarrow> s \<noteq> []
   | JTime t \<Rightarrow> True
   | JList xs \<Rightarrow> xs \<noteq> []
   | JObj d \<Rightarrow> d \<noteq> [])"

lemma truthy_simps [simp]:
  "\<not> truthy JNull" "truthy (JBool b) = b" "truthy (JInt i) = (i \<noteq> 0)" "truthy (JStr s) = (s \<noteq> [])"
  "truthy (JTime t)" "truthy (JList xs) = (xs \<noteq> [])" "truthy (JObj d) = (d \<noteq> [])"
  by (simp_all add: truthy_def)

section \<open>Dictionaries\<close>

definition dget :: "dict \<Rightarrow> string \<Rightarrow> json" where
  \<comment> \<open>\<open>d.get(k)\<close>\<close>
  "dget d k = (case map_of d k of None \<Rightarrow> JNull | Some v \<Rightarrow> v)"

definition dget_or :: "dict \<Rightarrow> string \<Rightarrow> json \<Rightarrow> json" where
  \<comment> \<open>\<open>d.get(k, v)\<close>\<close>
  "dget_or d k v = (case map_of d k of None \<Rightarrow> v | Some w \<Rightarrow> w)"

definition has_key :: "dict \<Rightarrow> string \<Rightarrow> bool" where
  "has_key d k \<longleftrightarrow> k \<in> set (map fst d)"

fun dset :: "dict \<Rightarrow> string \<Rightarrow> json \<Rightarrow> dict" where
  \<comment> \<open>\<open>d[k] = v\<close>\<close>
  "dset [] k v = [(k, v)]"
| "dset ((k', v') # d) k v = (if k' = k then (k, v) # d else (k', v') # dset d k v)"

definition dmerge :: "dict \<Rightarrow> dict \<Rightarrow> dict" where
  \<comment> \<open>\<open>{**d, **e}\<close> and \<open>d.update(e)\<close>\<close>
  "dmerge d e = foldl (\<lambda>d (k, v). dset d k v) d e"

definition ddel :: "dict \<Rightarrow> string \<Rightarrow> dict" where
  \<comment> \<open>\<open>d.pop(k, None)\<close>\<close>
  "ddel d k = filter (\<lambda>(k', v). k' \<noteq> k) d"

lemma map_of_dset [simp, dict_simps]: "map_of (dset d k v) = (map_of d)(k \<mapsto> v)"
  by (induction d k v rule: dset.induct) auto

lemma dget_dset [simp, dict_simps]: "dget (dset d k v) k' = (if k' = k then v else dget d k')"
  by (simp add: dget_def)

lemma dget_or_dset [simp, dict_simps]:
  "dget_or (dset d k v) k' w = (if k' = k then v else dget_or d k' w)"
  by (simp add: dget_or_def)

lemma dget_Nil [simp]: "dget [] k = JNull"
  by (simp add: dget_def)

lemma dget_Cons [simp]: "dget ((k, v) # d) k' = (if k' = k then v else dget d k')"
  by (simp add: dget_def)

lemma dget_or_Nil [simp]: "dget_or [] k w = w"
  by (simp add: dget_or_def)

lemma dget_or_Cons [simp]: "dget_or ((k, v) # d) k' w = (if k' = k then v else dget_or d k' w)"
  by (simp add: dget_or_def)

lemma has_key_iff_map_of: "has_key d k \<longleftrightarrow> map_of d k \<noteq> None"
  by (simp add: has_key_def map_of_eq_None_iff)

lemma has_key_simps [simp]:
  "\<not> has_key [] k" "has_key ((k, v) # d) k' \<longleftrightarrow> k' = k \<or> has_key d k'"
  by (auto simp: has_key_def)

lemma has_key_dset [simp, dict_simps]: "has_key (dset d k v) k' \<longleftrightarrow> k' = k \<or> has_key d k'"
  by (simp add: has_key_iff_map_of)

lemma map_of_dmerge: "map_of (dmerge d e) k =
    (case map_of (rev e) k of None \<Rightarrow> map_of d k | Some v \<Rightarrow> Some v)"
proof (induction e arbitrary: d)
  case Nil
  then show ?case by (simp add: dmerge_def)
next
  case (Cons x e)
  obtain k' v where x: "x = (k', v)" by (cases x)
  have "map_of (dmerge d (x # e)) k = map_of (dmerge (dset d k' v) e) k"
    by (simp add: dmerge_def x)
  then show ?case
    by (simp add: Cons.IH x map_add_def split: option.splits)
qed

lemma dmerge_Nil [simp]: "dmerge d [] = d"
  by (simp add: dmerge_def)

lemma dmerge_Cons [simp]: "dmerge d ((k, v) # e) = dmerge (dset d k v) e"
  by (simp add: dmerge_def)

lemma dset_nonempty [simp]: "dset d k v \<noteq> []"
  by (cases "(d, k, v)" rule: dset.cases) auto

lemma dset_same: "map_of d k = Some v \<Longrightarrow> dset d k v = d"
  by (induction d k v rule: dset.induct) (auto split: if_splits)

lemma dset_append: "k \<notin> set (map fst P) \<Longrightarrow> dset (P @ d) k v = P @ dset d k v"
  by (induction P) auto

lemma keys_dset: "map fst (dset d k v) = (if k \<in> set (map fst d) then map fst d else map fst d @ [k])"
  by (induction d k v rule: dset.induct) auto

lemma keys_dmerge:
  "distinct (map fst d) \<Longrightarrow>
     \<exists>ks. map fst (dmerge d e) = map fst d @ ks \<and> distinct (map fst (dmerge d e))"
proof (induction e arbitrary: d)
  case (Cons x e)
  obtain k v where x: "x = (k, v)" by (cases x)
  have "distinct (map fst (dset d k v))"
    using Cons.prems by (auto simp: keys_dset)
  from Cons.IH [OF this] show ?case
    by (auto simp: x keys_dset split: if_splits)
qed auto

lemma dmerge_same_keys:
  "map fst a = map fst d \<Longrightarrow> distinct (map fst (P @ d)) \<Longrightarrow> dmerge (P @ d) (a @ b) = dmerge (P @ a) b"
proof (induction a arbitrary: P d)
  case (Cons x a)
  obtain k v where x: "x = (k, v)" by (cases x)
  then obtain w d' where d: "d = (k, w) # d'" and eq: "map fst a = map fst d'"
    using Cons.prems(1) by (cases d) auto
  have k: "k \<notin> set (map fst P)" and dist: "distinct (map fst ((P @ [(k, v)]) @ d'))"
    using Cons.prems(2) by (auto simp: d)
  have "dmerge (P @ d) ((x # a) @ b) = dmerge ((P @ [(k, v)]) @ d') (a @ b)"
    using dset_append [OF k, of d v] by (simp add: x d)
  also have "\<dots> = dmerge ((P @ [(k, v)]) @ a) b"
    by (rule Cons.IH [OF eq dist])
  finally show ?case by (simp add: x)
qed simp

lemma dset_fresh: "k \<notin> set (map fst d) \<Longrightarrow> dset d k v = d @ [(k, v)]"
  using dset_append [of k d "[]" v] by simp

lemma dmerge_fresh: "distinct (map fst (a @ b)) \<Longrightarrow> dmerge a b = a @ b"
proof (induction b arbitrary: a)
  case (Cons x b)
  obtain k v where x: "x = (k, v)" by (cases x)
  have "k \<notin> set (map fst a)" and dist: "distinct (map fst ((a @ [(k, v)]) @ b))"
    using Cons.prems by (auto simp: x)
  then show ?case using Cons.IH [OF dist] dset_fresh [of k a v] by (simp add: x)
qed simp

lemma dmerge_idem:
  assumes "distinct (map fst d)"
  shows "dmerge d (dmerge d e) = dmerge d e"
proof -
  obtain ks where ks: "map fst (dmerge d e) = map fst d @ ks"
    and dist: "distinct (map fst (dmerge d e))"
    using keys_dmerge [OF assms] by blast
  obtain a b where ab: "dmerge d e = a @ b" "map fst a = map fst d"
    using ks by (auto simp: map_eq_append_conv)
  show ?thesis
    using dmerge_same_keys [of a d "[]" b] dmerge_fresh [of a b] assms dist ab by simp
qed

lemma dmerge_nonempty: "d \<noteq> [] \<Longrightarrow> dmerge d e \<noteq> []"
proof (induction e arbitrary: d)
  case (Cons x e)
  show ?case using Cons.IH [OF dset_nonempty] by (cases x) simp
qed simp

lemma dmerge_self: "distinct (map fst d) \<Longrightarrow> dmerge d d = d"
  using dmerge_same_keys [of d d "[]" "[]"] by simp

lemma map_of_ddel [dict_simps]: "map_of (ddel d k) = (map_of d)(k := None)"
  by (induction d) (auto simp: ddel_def)

lemma dget_ddel [simp, dict_simps]: "dget (ddel d k) k' = (if k' = k then JNull else dget d k')"
  by (simp add: dget_def map_of_ddel)

end
