(* ===== verification/PyValues.thy ===== *)
theory PyValues
  imports Prelude
begin

text \<open>
  Python's built-in conversions on the values of \<open>Prelude\<close>: \<open>int(v)\<close> with the exception
  it raises, \<open>v == w\<close>, and \<open>str(v)\<close>.  \<open>int\<close> accepts JSON booleans, truncates floats, reads
  decimal text with surrounding blanks and single underscores, and raises \<open>OverflowError\<close> on
  the infinities \<open>json.loads\<close> accepts.  The text of an instant is the one \<open>isoformat\<close> writes.
\<close>

section \<open>int()\<close>

definition digit_val :: "char \<Rightarrow> int" where
  "digit_val c = int (code_point c) - 48"

fun digits_val :: "bool \<Rightarrow> int \<Rightarrow> string \<Rightarrow> int option" where
  \<comment> \<open>the flag says that the previous character is a digit\<close>
  "digits_val p acc [] = (if p then Some acc else None)"
| "digits_val p acc (c # cs) =
     (if is_digit c then digits_val True (10 * acc + digit_val c) cs
      else if c = CHR ''_'' \<and> p then digits_val False acc cs
      else None)"

definition int_of_text :: "string \<Rightarrow> int option" where
  "int_of_text s = (case strip s of
     [] \<Rightarrow> None
   | c # cs \<Rightarrow>
       if c = CHR ''-'' then map_option uminus (digits_val False 0 cs)
       else if c = CHR ''+'' then digits_val False 0 cs
       else digits_val False 0 (c # cs))"

definition trunc_frac :: "int \<Rightarrow> nat \<Rightarrow> int" where
  "trunc_frac m k = (if 0 \<le> m then m div 2 ^ k else - (- m div 2 ^ k))"

definition py_int :: "json \<Rightarrow> py_exc + int" where
  "py_int v = (case v of
     JNull \<Rightarrow> Inl TypeError
   | JBool b \<Rightarrow> Inr (if b then 1 else 0)
   | JInt i \<Rightarrow> Inr i
   | JFloat f \<Rightarrow> (case f of
       PFin c r m k \<Rightarrow> Inr (trunc_frac m k)
     | PInf \<Rightarrow> Inl OverflowError
     | PNegInf \<Rightarrow> Inl OverflowError
     | PNaN \<Rightarrow> Inl ValueError)
   | JStr s \<Rightarrow> (case int_of_text s of None \<Rightarrow> Inl ValueError | Some i \<Rightarrow> Inr i)
   | JTime t \<Rightarrow> Inl ValueError
   | JList xs \<Rightarrow> Inl TypeError
   | JObj d \<Rightarrow> Inl TypeError)"

lemma py_int_JInt [simp]: "py_int (JInt i) = Inr i"
  by (simp add: py_int_def)

lemma py_int_JNull [simp]: "py_int JNull = Inl TypeError"
  by (simp add: py_int_def)

lemma py_int_errors:
  "py_int v = Inl e \<Longrightarrow> e \<in> {TypeError, ValueError, OverflowError}"
  by (auto simp: py_int_def split: json.splits pyfloat.splits option.splits)

lemma py_int_OverflowError:
  "py_int v = Inl OverflowError \<longleftrightarrow> v = JFloat PInf \<or> v = JFloat PNegInf"
  by (auto simp: py_int_def split: json.splits pyfloat.splits option.splits)

section \<open>Equality\<close>

definition num_val :: "json \<Rightarrow> (int \<times> nat) option" where
  "num_val v = (case v of
     JBool b \<Rightarrow> Some (if b then 1 else 0, 0)
   | JInt i \<Rightarrow> Some (i, 0)
   | JFloat (PFin c r m k) \<Rightarrow> Some (m, k)
   | _ \<Rightarrow> None)"

definition py_eq :: "json \<Rightarrow> json \<Rightarrow> bool" where
  \<comment> \<open>\<open>v == w\<close>; arrays and objects are compared by their spelling\<close>
  "py_eq v w = (case (num_val v, num_val w) of
     (Some (m, k), Some (n, l)) \<Rightarrow> m * 2 ^ l = n * 2 ^ k
   | (None, None) \<Rightarrow> v = w \<and> v \<noteq> JFloat PNaN
   | _ \<Rightarrow> False)"

lemma py_eq_simps [simp]:
  "py_eq (JInt i) (JInt j) \<longleftrightarrow> i = j"
  "py_eq (JStr s) (JStr t) \<longleftrightarrow> s = t"
  "py_eq JNull JNull"
  "py_eq (JBool b) (JBool c) \<longleftrightarrow> b = c"
  by (auto simp: py_eq_def num_val_def)

lemma py_eq_JStr_right: "py_eq v (JStr s) \<longleftrightarrow> v = JStr s"
  by (cases v) (auto simp: py_eq_def num_val_def split: pyfloat.splits)

lemma py_eq_JStr_left: "py_eq (JStr s) v \<longleftrightarrow> v = JStr s"
  by (cases v) (auto simp: py_eq_def num_val_def split: pyfloat.splits)

lemma py_eq_JNull_right: "py_eq v JNull \<longleftrightarrow> v = JNull"
  by (cases v) (auto simp: py_eq_def num_val_def split: pyfloat.splits)

section \<open>str()\<close>

definition civil_from_days :: "int \<Rightarrow> int \<times> int \<times> int" where
  \<comment> \<open>year, month and day of a day counted from 1970-01-01, in the Gregorian calendar\<close>
  "civil_from_days z = (let z' = z + 719468; era = z' div 146097; doe = z' mod 146097;
       yoe = (doe - doe div 1460 + doe div 36524 - doe div 146096) div 365;
       doy = doe - (365 * yoe + yoe div 4 - yoe div 100);
       mp = (5 * doy + 2) div 153;
       d = doy - (153 * mp + 2) div 5 + 1;
       m = (if mp < 10 then mp + 3 else mp - 9)
     in (yoe + era * 400 + (if m \<le> 2 then 1 else 0), m, d))"

definition iso_text :: "stamp \<Rightarrow> string" where
  "iso_text st = (let t = (case st of Aware t \<Rightarrow> t | Naive t \<Rightarrow> t);
       days = t div 86400000000; us = t mod 86400000000;
       (y, m, d) = civil_from_days days; p = (\<lambda>w n. zpad w (dec n));
       secs = us div 1000000; frac = us mod 1000000
     in p 4 y @ ''-'' @ p 2 m @ ''-'' @ p 2 d @ ''T'' @ p 2 (secs div 3600) @ '':''
        @ p 2 (secs div 60 mod 60) @ '':'' @ p 2 (secs mod 60)
        @ (if frac = 0 then [] else ''.'' @ p 6 frac)
        @ (case st of Aware _ \<Rightarrow> ''+00:00'' | Naive _ \<Rightarrow> []))"

definition hex_digit :: "nat \<Rightarrow> char" where
  "hex_digit n = (if n < 10 then char_of (48 + n) else char_of (87 + n))"

definition repr_char :: "char \<Rightarrow> char \<Rightarrow> string" where
  "repr_char q c = (let n = code_point c; bs = char_of (92 :: nat) in
     if n = 92 \<or> c = q then [bs, c]
     else if n = 9 then [bs, CHR ''t'']
     else if n = 10 then [bs, CHR ''n'']
     else if n = 13 then [bs, CHR ''r'']
     else if n < 32 \<or> (127 \<le> n \<and> n \<le> 160) \<or> n = 173
       then [bs, CHR ''x'', hex_digit (n div 16), hex_digit (n mod 16)]
     else [c])"

definition repr_text :: "string \<Rightarrow> string" where
  "repr_text s = (let sq = char_of (39 :: nat); dq = char_of (34 :: nat);
       q = (if sq \<in> set s \<and> dq \<notin> set s then dq else sq)
     in q # concat (map (repr_char q) s) @ [q])"

fun join :: "string \<Rightarrow> string list \<Rightarrow> string" where
  "join sep [] = []"
| "join sep [s] = s"
| "join sep (s # ss) = s @ sep @ join sep ss"

definition float_text :: "pyfloat \<Rightarrow> string" where
  "float_text f = (case f of PFin c r m k \<Rightarrow> c # r | PInf \<Rightarrow> ''inf'' | PNegInf \<Rightarrow> ''-inf'' | PNaN \<Rightarrow> ''nan'')"

lemma size_json_dict [termination_simp]:
  "(k, v) \<in> set d \<Longrightarrow> size v < Suc (size_list (size_prod (\<lambda>x. 0) size) d)"
  by (induction d) auto

fun py_repr :: "json \<Rightarrow> string" where
  "py_repr JNull = ''None''"
| "py_repr (JBool b) = (if b then ''True'' else ''False'')"
| "py_repr (JInt i) = dec i"
| "py_repr (JFloat f) = float_text f"
| "py_repr (JStr s) = repr_text s"
| "py_repr (JTime t) = repr_text (iso_text t)"
| "py_repr (JList xs) = ''['' @ join '', '' (map py_repr xs) @ '']''"
| "py_repr (JObj d) = ''{'' @ join '', '' (map (\<lambda>(k, v). repr_text k @ '': '' @ py_repr v) d) @ ''}''"

definition text_of :: "json \<Rightarrow> string" where
  \<comment> \<open>the characters of \<open>str(v)\<close>\<close>
  "text_of v = (case v of JStr s \<Rightarrow> s | JTime t \<Rightarrow> iso_text t | _ \<Rightarrow> py_repr v)"

definition py_str :: "json \<Rightarrow> json" where
  \<comment> \<open>\<open>str(v)\<close> as a value: a string is itself\<close>
  "py_str v = (if is_str v then v else JStr (text_of v))"

lemma is_str_py_str [simp]: "is_str (py_str v)"
  by (simp add: py_str_def)

lemma py_str_id [simp]: "is_str v \<Longrightarrow> py_str v = v"
  by (simp add: py_str_def)

lemma text_of_JStr [simp]: "text_of (JStr s) = s"
  by (simp add: text_of_def)

definition is_blank :: "json \<Rightarrow> bool" where
  \<comment> \<open>\<open>not v.strip()\<close> for a string \<open>v\<close>; the text of an instant is never blank\<close>
  "is_blank v = (case v of JStr s \<Rightarrow> strip s = [] | _ \<Rightarrow> False)"

end
