(* ===== verification/JobLease.thy ===== *)
theory JobLease
  imports PyValues
begin

text \<open>
  The owner lease of a durable job (\<open>jobs/lease.py\<close>): a dictionary that names the runner that
  owns the current attempt by a random token, with the instants of acquisition, of the last
  heartbeat and of expiry.  \<open>validate_owner_lease\<close> is the strict reader; it returns a
  \<open>lease\<close>, the normalized dictionary of the source, which \<open>lease_obj\<close> writes back.  Instants
  are microseconds; the clock reading (\<open>now\<close>, already in UTC) is an argument, and so is the
  token that \<open>secrets.token_hex\<close> returns.  A \<open>JobStoreError\<close> is its code, without the message.
\<close>

section \<open>Errors of the job store\<close>

datatype job_code =
    E_JOB_STORE | E_JOB_TRANSITION | E_JOB_MALFORMED | E_JOB_UNKNOWN
  | E_JOB_LEASE_MALFORMED | E_JOB_LEASE_FENCED
  | E_JOB_RETRY_STATE | E_JOB_RETRY_ATTEMPT | E_JOB_RETRY_BUDGET | E_JOB_RETRY_CLASS
  | E_JOB_RETRY_META | E_JOB_RETRY_ARCHIVE
  | E_JOB_AUTO_RETRY_META | E_JOB_AUTO_RETRY_TIME | E_JOB_AUTO_RETRY_LIMIT
  | E_JOB_PROVIDER_INTERNAL
  | E_JOB_RECOVERY_CONFLICT | E_JOB_CANCEL_UNPROVEN | E_JOB_GC

datatype job_exc = JobErr job_code | PyExc py_exc

definition job_int :: "job_code \<Rightarrow> json \<Rightarrow> job_exc + int" where
  \<comment> \<open>\<open>int(v)\<close> inside \<open>try ... except (TypeError, ValueError)\<close>: \<open>OverflowError\<close> is not caught\<close>
  "job_int c v = (case py_int v of
     Inr i \<Rightarrow> Inr i
   | Inl OverflowError \<Rightarrow> Inl (PyExc OverflowError)
   | Inl _ \<Rightarrow> Inl (JobErr c))"

lemma job_int_JInt [simp]: "job_int c (JInt i) = Inr i"
  by (simp add: job_int_def)

lemma job_int_Inr: "job_int c v = Inr i \<longleftrightarrow> py_int v = Inr i"
  by (auto simp: job_int_def split: sum.splits py_exc.splits)

lemma job_int_Inl:
  "job_int c v = Inl e \<Longrightarrow> e = JobErr c \<or> e = PyExc OverflowError"
  by (auto simp: job_int_def split: sum.splits py_exc.splits)

section \<open>The lease\<close>

record lease =
  owner_token :: string
  lease_attempt :: int
  acquired_at :: int
  heartbeat_at :: int
  expires_at :: int
  released_at :: "int option"

definition DEFAULT_JOB_LEASE_TTL :: int where
  "DEFAULT_JOB_LEASE_TTL = 30000000"

definition JOB_RECOVERY_CLOCK_SKEW :: int where
  "JOB_RECOVERY_CLOCK_SKEW = 5000000"

definition DEFAULT_STARTING_STALE_AFTER :: int where
  "DEFAULT_STARTING_STALE_AFTER = 30000000"

definition MAX_LEASE_TTL :: int where
  "MAX_LEASE_TTL = 24 * 3600 * 1000000"

definition owner_token_re :: "string \<Rightarrow> bool" where
  "owner_token_re s \<longleftrightarrow> length s = 32 \<and> list_all is_lower_hex s"

definition parse_lease_ts :: "json \<Rightarrow> job_exc + int" where
  "parse_lease_ts raw = (case raw of
     JTime (Aware t) \<Rightarrow> Inr t
   | _ \<Rightarrow> Inl (JobErr E_JOB_LEASE_MALFORMED))"

definition format_lease_ts :: "int \<Rightarrow> json" where
  "format_lease_ts t = JTime (Aware t)"

lemma parse_format_lease_ts [simp]: "parse_lease_ts (format_lease_ts t) = Inr t"
  by (simp add: parse_lease_ts_def format_lease_ts_def)

lemma parse_lease_ts_Inr: "parse_lease_ts v = Inr t \<longleftrightarrow> v = JTime (Aware t)"
  by (auto simp: parse_lease_ts_def split: json.splits stamp.splits)

definition lease_obj :: "lease \<Rightarrow> json" where
  \<comment> \<open>the dictionary \<open>validate_owner_lease\<close> returns\<close>
  "lease_obj l = JObj [
     (''schema'', JInt 1),
     (''owner_token'', JStr (owner_token l)),
     (''attempt'', JInt (lease_attempt l)),
     (''acquired_at'', format_lease_ts (acquired_at l)),
     (''heartbeat_at'', format_lease_ts (heartbeat_at l)),
     (''expires_at'', format_lease_ts (expires_at l)),
     (''released_at'', case released_at l of None \<Rightarrow> JNull | Some t \<Rightarrow> format_lease_ts t)]"

definition lease_malformed :: job_exc where
  "lease_malformed = JobErr E_JOB_LEASE_MALFORMED"

definition lease_token :: "json \<Rightarrow> job_exc + string" where
  "lease_token v = (case v of
     JStr s \<Rightarrow> if owner_token_re s then Inr s else Inl lease_malformed
   | _ \<Rightarrow> Inl lease_malformed)"

definition lease_released :: "json \<Rightarrow> job_exc + int option" where
  "lease_released v = (if v = JNull then Inr None
     else if is_str v \<and> \<not> is_blank v then bindE (parse_lease_ts v) (\<lambda>t. Inr (Some t))
     else Inl lease_malformed)"

lemma lease_token_Inr: "lease_token v = Inr s \<longleftrightarrow> v = JStr s \<and> owner_token_re s"
  by (auto simp: lease_token_def split: json.splits)

lemma lease_released_Inr:
  "lease_released v = Inr r \<longleftrightarrow>
     v = (case r of None \<Rightarrow> JNull | Some t \<Rightarrow> format_lease_ts t)"
  by (auto simp: lease_released_def result_simps parse_lease_ts_Inr format_lease_ts_def is_blank_def
      split: option.splits if_splits)

lemma lease_reader_errors:
  "parse_lease_ts v = Inl e \<Longrightarrow> e = lease_malformed"
  "lease_token v = Inl e \<Longrightarrow> e = lease_malformed"
  "lease_released v = Inl e \<Longrightarrow> e = lease_malformed"
  by (auto simp: parse_lease_ts_def lease_token_def lease_released_def lease_malformed_def
      result_simps split: json.splits stamp.splits if_splits)

definition validate_owner_lease :: "json \<Rightarrow> int option \<Rightarrow> bool \<Rightarrow> job_exc + lease" where
  "validate_owner_lease lease expected_attempt require_active = (case lease of
     JObj d \<Rightarrow>
       bindE (job_int E_JOB_LEASE_MALFORMED (dget_or d ''schema'' (JInt 0))) (\<lambda>schema.
       bindE (check (schema = 1) lease_malformed) (\<lambda>_.
       bindE (lease_token (dget d ''owner_token'')) (\<lambda>token.
       bindE (job_int E_JOB_LEASE_MALFORMED (dget_or d ''attempt'' (JInt 0))) (\<lambda>attempt.
       bindE (check (1 \<le> attempt) lease_malformed) (\<lambda>_.
       bindE (check (expected_attempt \<in> {None, Some attempt}) lease_malformed) (\<lambda>_.
       bindE (parse_lease_ts (dget d ''acquired_at'')) (\<lambda>acquired.
       bindE (parse_lease_ts (dget d ''heartbeat_at'')) (\<lambda>heartbeat.
       bindE (parse_lease_ts (dget d ''expires_at'')) (\<lambda>expires.
       bindE (check (acquired \<le> heartbeat) lease_malformed) (\<lambda>_.
       bindE (check (heartbeat \<le> expires) lease_malformed) (\<lambda>_.
       bindE (check (0 < expires - heartbeat \<and> expires - heartbeat \<le> MAX_LEASE_TTL)
                lease_malformed) (\<lambda>_.
       bindE (lease_released (dget d ''released_at'')) (\<lambda>released.
       bindE (check (\<not> (require_active \<and> released \<noteq> None)) lease_malformed) (\<lambda>_.
       Inr \<lparr>owner_token = token, lease_attempt = attempt, acquired_at = acquired,
            heartbeat_at = heartbeat, expires_at = expires, released_at = released\<rparr>))))))))))))))
   | _ \<Rightarrow> Inl lease_malformed)"

definition lease_inv :: "lease \<Rightarrow> bool" where
  "lease_inv l \<longleftrightarrow> owner_token_re (owner_token l) \<and> 1 \<le> lease_attempt l
     \<and> acquired_at l \<le> heartbeat_at l \<and> heartbeat_at l < expires_at l
     \<and> expires_at l - heartbeat_at l \<le> MAX_LEASE_TTL"

lemma lease_obj_simps [simp]:
  "lease_obj l \<noteq> JNull" "JNull \<noteq> lease_obj l" "\<exists>d. lease_obj l = JObj d" "truthy (lease_obj l)"
  by (simp_all add: lease_obj_def)

lemma lease_obj_inj [simp]: "lease_obj l = lease_obj l' \<longleftrightarrow> l = l'"
  by (cases l; cases l') (auto simp: lease_obj_def format_lease_ts_def split: option.splits)

lemma validate_owner_lease_Inr:
  "validate_owner_lease v ea ra = Inr l \<longleftrightarrow> (\<exists>d. v = JObj d
     \<and> py_int (dget_or d ''schema'' (JInt 0)) = Inr 1
     \<and> dget d ''owner_token'' = JStr (owner_token l)
     \<and> py_int (dget_or d ''attempt'' (JInt 0)) = Inr (lease_attempt l)
     \<and> dget d ''acquired_at'' = format_lease_ts (acquired_at l)
     \<and> dget d ''heartbeat_at'' = format_lease_ts (heartbeat_at l)
     \<and> dget d ''expires_at'' = format_lease_ts (expires_at l)
     \<and> dget d ''released_at'' = (case released_at l of None \<Rightarrow> JNull | Some t \<Rightarrow> format_lease_ts t)
     \<and> lease_inv l \<and> ea \<in> {None, Some (lease_attempt l)} \<and> (ra \<longrightarrow> released_at l = None))"
  by (cases v; cases l) (auto simp: validate_owner_lease_def lease_inv_def result_simps
     job_int_Inr lease_token_Inr lease_released_Inr parse_lease_ts_Inr
     format_lease_ts_def[symmetric])

lemma validate_owner_lease_inv:
  "validate_owner_lease v ea ra = Inr l \<Longrightarrow>
     lease_inv l \<and> ea \<in> {None, Some (lease_attempt l)} \<and> (ra \<longrightarrow> released_at l = None)"
  by (auto simp: validate_owner_lease_Inr)

lemma validate_owner_lease_Inl:
  "validate_owner_lease v ea ra = Inl e \<Longrightarrow> e = lease_malformed \<or> e = PyExc OverflowError"
  by (cases v) (auto simp: validate_owner_lease_def result_simps lease_malformed_def[symmetric]
      dest!: job_int_Inl lease_reader_errors)

lemma validate_owner_lease_obj_same: "validate_owner_lease (lease_obj l) ea ra = Inr l' \<Longrightarrow> l' = l"
  by (cases l; cases l')
     (auto simp: validate_owner_lease_Inr lease_obj_def format_lease_ts_def split: option.splits)

lemma validate_owner_lease_obj:
  "validate_owner_lease (lease_obj l) ea ra =
     (if lease_inv l \<and> ea \<in> {None, Some (lease_attempt l)} \<and> (ra \<longrightarrow> released_at l = None)
      then Inr l else Inl lease_malformed)"
proof (cases "lease_inv l \<and> ea \<in> {None, Some (lease_attempt l)} \<and> (ra \<longrightarrow> released_at l = None)")
  case True
  then show ?thesis by (auto simp: validate_owner_lease_Inr lease_obj_def)
next
  case False
  have "validate_owner_lease (lease_obj l) ea ra \<noteq> Inr l'" for l'
    using False validate_owner_lease_obj_same [of l ea ra l'] validate_owner_lease_inv by blast
  then obtain e where e: "validate_owner_lease (lease_obj l) ea ra = Inl e"
    by (cases "validate_owner_lease (lease_obj l) ea ra") auto
  then have "e = lease_malformed"
    by (auto simp: validate_owner_lease_def lease_obj_def result_simps
      dest!: lease_reader_errors)
  with e False show ?thesis by simp
qed

section \<open>Operations\<close>

definition validate_recovery_meta :: "json \<Rightarrow> job_exc + json" where
  "validate_recovery_meta raw = (case raw of
     JNull \<Rightarrow> Inr JNull
   | JObj d \<Rightarrow>
       bindE (check (dget d ''last_action'' = JNull \<or> is_str (dget d ''last_action'')) lease_malformed)
         (\<lambda>_.
       bindE (check (dget d ''last_reason'' = JNull \<or> is_str (dget d ''last_reason'')) lease_malformed)
         (\<lambda>_.
       bindE (case dget d ''last_at'' of JNull \<Rightarrow> Inr ()
              | v \<Rightarrow> bindE (parse_lease_ts v) (\<lambda>_. Inr ())) (\<lambda>_.
       Inr (JObj [(''last_action'', dget d ''last_action''), (''last_reason'', dget d ''last_reason''),
                  (''last_at'', dget d ''last_at'')]))))
   | _ \<Rightarrow> Inl lease_malformed)"

definition recovery_obj :: "json \<Rightarrow> json \<Rightarrow> json \<Rightarrow> json" where
  "recovery_obj a r t = JObj [(''last_action'', a), (''last_reason'', r), (''last_at'', t)]"

lemma validate_recovery_meta_Inr:
  "validate_recovery_meta v = Inr w \<longleftrightarrow> v = JNull \<and> w = JNull \<or>
     (\<exists>d a r t. v = JObj d \<and> a = dget d ''last_action'' \<and> r = dget d ''last_reason''
        \<and> t = dget d ''last_at'' \<and> (a = JNull \<or> is_str a) \<and> (r = JNull \<or> is_str r)
        \<and> (t = JNull \<or> (\<exists>u. t = JTime (Aware u))) \<and> w = recovery_obj a r t)"
  by (cases v) (auto simp: validate_recovery_meta_def recovery_obj_def check_def
      parse_lease_ts_def result_simps split: json.split stamp.split if_splits)

lemma validate_recovery_meta_idem:
  "validate_recovery_meta v = Inr w \<Longrightarrow> validate_recovery_meta w = Inr w"
  by (auto simp: validate_recovery_meta_Inr recovery_obj_def)

lemma validate_recovery_meta_Inl:
  "validate_recovery_meta v = Inl e \<Longrightarrow> e = lease_malformed"
  by (auto simp: validate_recovery_meta_def result_simps parse_lease_ts_def lease_malformed_def
      split: json.splits stamp.splits)

definition acquire_owner_lease ::
    "int \<Rightarrow> int \<Rightarrow> int \<Rightarrow> string option \<Rightarrow> string \<Rightarrow> job_exc + lease" where
  \<comment> \<open>attempt, now, ttl, the token of the caller, and the token \<open>generate_owner_token\<close> returns\<close>
  "acquire_owner_lease attempt now ttl given generated =
     bindE (check (1 \<le> attempt) lease_malformed) (\<lambda>_.
     let token = (case given of None \<Rightarrow> generated
                  | Some t \<Rightarrow> if t = [] then generated else t) in
     bindE (check (owner_token_re token) lease_malformed) (\<lambda>_.
     validate_owner_lease (lease_obj \<lparr>owner_token = token, lease_attempt = attempt,
         acquired_at = now, heartbeat_at = now, expires_at = now + ttl, released_at = None\<rparr>)
       (Some attempt) True))"

definition renew_lease_dict :: "json \<Rightarrow> int \<Rightarrow> int \<Rightarrow> job_exc + lease" where
  "renew_lease_dict lease now ttl =
     bindE (validate_owner_lease lease None True) (\<lambda>validated.
     validate_owner_lease
       (lease_obj (validated\<lparr>heartbeat_at := now, expires_at := now + ttl\<rparr>))
       (Some (lease_attempt validated)) True)"

definition release_lease_dict :: "json \<Rightarrow> int \<Rightarrow> job_exc + lease option" where
  "release_lease_dict lease now = (if lease = JNull then Inr None
     else bindE (validate_owner_lease lease None False) (\<lambda>validated.
       if released_at validated \<noteq> None then Inr (Some validated)
       else Inr (Some (validated\<lparr>released_at := Some now\<rparr>))))"

definition public_lease_summary :: "json \<Rightarrow> job_exc + json" where
  "public_lease_summary lease = (if lease = JNull then Inr JNull
     else bindE (validate_owner_lease lease None False) (\<lambda>l.
       Inr (JObj [(''attempt'', JInt (lease_attempt l)),
          (''acquired_at'', format_lease_ts (acquired_at l)),
          (''heartbeat_at'', format_lease_ts (heartbeat_at l)),
          (''expires_at'', format_lease_ts (expires_at l)),
          (''released_at'', case released_at l of None \<Rightarrow> JNull | Some t \<Rightarrow> format_lease_ts t)])))"

definition lease_is_active :: "json \<Rightarrow> job_exc + bool" where
  "lease_is_active lease = (if lease = JNull then Inr False
     else (case validate_owner_lease lease None False of
       Inl (JobErr c) \<Rightarrow> Inr False
     | Inl e \<Rightarrow> Inl e
     | Inr l \<Rightarrow> Inr (released_at l = None)))"

definition lease_expired :: "json \<Rightarrow> int \<Rightarrow> int \<Rightarrow> job_exc + bool" where
  "lease_expired lease now skew =
     bindE (validate_owner_lease lease None False) (\<lambda>l.
     if released_at l \<noteq> None then Inr True else Inr (expires_at l + skew \<le> now))"

definition heartbeat_in_future :: "json \<Rightarrow> int \<Rightarrow> int \<Rightarrow> job_exc + bool" where
  "heartbeat_in_future lease now skew =
     bindE (validate_owner_lease lease None False) (\<lambda>l. Inr (now + skew < heartbeat_at l))"

section \<open>What the operations do to a valid lease\<close>

lemma acquire_owner_lease_Inr:
  "acquire_owner_lease a now ttl tok gen = Inr l \<longleftrightarrow>
     (let t = (case tok of None \<Rightarrow> gen | Some t \<Rightarrow> if t = [] then gen else t) in
      1 \<le> a \<and> owner_token_re t \<and> 0 < ttl \<and> ttl \<le> MAX_LEASE_TTL
      \<and> l = \<lparr>owner_token = t, lease_attempt = a, acquired_at = now, heartbeat_at = now,
             expires_at = now + ttl, released_at = None\<rparr>)"
  by (auto simp: acquire_owner_lease_def Let_def result_simps validate_owner_lease_obj lease_inv_def
      split: if_splits)

lemma renew_lease_dict_obj:
  "lease_inv l \<Longrightarrow> renew_lease_dict (lease_obj l) now ttl =
     (if released_at l = None \<and> acquired_at l \<le> now \<and> 0 < ttl \<and> ttl \<le> MAX_LEASE_TTL
      then Inr (l\<lparr>heartbeat_at := now, expires_at := now + ttl\<rparr>) else Inl lease_malformed)"
  by (auto simp: renew_lease_dict_def validate_owner_lease_obj lease_inv_def)

lemma release_lease_dict_obj:
  "lease_inv l \<Longrightarrow> release_lease_dict (lease_obj l) now =
     Inr (Some (if released_at l = None then l\<lparr>released_at := Some now\<rparr> else l))"
  by (auto simp: release_lease_dict_def validate_owner_lease_obj)

lemma lease_expired_obj:
  "lease_inv l \<Longrightarrow> lease_expired (lease_obj l) now skew =
     Inr (released_at l \<noteq> None \<or> expires_at l + skew \<le> now)"
  by (simp add: lease_expired_def validate_owner_lease_obj)

lemma heartbeat_in_future_obj:
  "lease_inv l \<Longrightarrow> heartbeat_in_future (lease_obj l) now skew = Inr (now + skew < heartbeat_at l)"
  by (simp add: heartbeat_in_future_def validate_owner_lease_obj)

lemma lease_inv_release [intro]: "lease_inv l \<Longrightarrow> lease_inv (l\<lparr>released_at := r\<rparr>)"
  by (simp add: lease_inv_def)

end
