(* ===== verification/JobModels.thy ===== *)
theory JobModels
  imports JobLease
begin

text \<open>
  The job record and its state machine (\<open>jobs/models.py\<close>).  \<open>job_record\<close> is the dataclass
  \<open>JobRecord\<close>: attributes that hold a string, an object or null are the Python value itself
  (\<open>json\<close>), as nothing forces the declared type before the record is written; the integers are
  \<open>int\<close> and the dictionaries that are never null are \<open>dict\<close>.  \<open>to_dict\<close> and \<open>from_dict\<close> are the
  document and its strict reader.  The theorem of the theory is that what the reader returns
  is well formed (\<open>job_inv\<close>) and that a well-formed record survives being written and read.
\<close>

section \<open>States\<close>

datatype job_state = QUEUED | STARTING | RUNNING | SUCCEEDED | FAILED | CANCELLED | LOST

definition JobState_value :: "job_state \<Rightarrow> string" where
  "JobState_value s = (case s of QUEUED \<Rightarrow> ''queued'' | STARTING \<Rightarrow> ''starting''
     | RUNNING \<Rightarrow> ''running'' | SUCCEEDED \<Rightarrow> ''succeeded'' | FAILED \<Rightarrow> ''failed''
     | CANCELLED \<Rightarrow> ''cancelled'' | LOST \<Rightarrow> ''lost'')"

definition JobState_of :: "json \<Rightarrow> job_state option" where
  "JobState_of v = (case v of
     JStr s \<Rightarrow>
       if s = ''queued'' then Some QUEUED else if s = ''starting'' then Some STARTING
       else if s = ''running'' then Some RUNNING else if s = ''succeeded'' then Some SUCCEEDED
       else if s = ''failed'' then Some FAILED else if s = ''cancelled'' then Some CANCELLED
       else if s = ''lost'' then Some LOST else None
   | _ \<Rightarrow> None)"

lemma JobState_of_value [simp]: "JobState_of (JStr (JobState_value s)) = Some s"
  by (cases s) (simp_all add: JobState_of_def JobState_value_def)

lemma JobState_value_nonempty [simp]: "JobState_value s \<noteq> []"
  by (cases s) (simp_all add: JobState_value_def)

lemma JobState_value_inj [simp]: "JobState_value s = JobState_value t \<longleftrightarrow> s = t"
  by (metis JobState_of_value option.inject)

definition TERMINAL_STATES :: "job_state set" where
  "TERMINAL_STATES = {SUCCEEDED, FAILED, CANCELLED, LOST}"

fun LEGAL_TRANSITIONS :: "job_state \<Rightarrow> job_state set" where
  "LEGAL_TRANSITIONS QUEUED = {STARTING}"
| "LEGAL_TRANSITIONS STARTING = {RUNNING, FAILED, CANCELLED, LOST}"
| "LEGAL_TRANSITIONS RUNNING = {SUCCEEDED, FAILED, CANCELLED, LOST}"
| "LEGAL_TRANSITIONS SUCCEEDED = {}"
| "LEGAL_TRANSITIONS FAILED = {}"
| "LEGAL_TRANSITIONS CANCELLED = {}"
| "LEGAL_TRANSITIONS LOST = {}"

definition assert_transition :: "job_state \<Rightarrow> job_state \<Rightarrow> job_exc + unit" where
  "assert_transition current nxt =
     check (nxt \<in> LEGAL_TRANSITIONS current) (JobErr E_JOB_TRANSITION)"

lemma assert_transition_Inr [result_simps]:
  "assert_transition s t = Inr u \<longleftrightarrow> t \<in> LEGAL_TRANSITIONS s"
  by (simp add: assert_transition_def check_eq_Inr)

lemma terminal_no_transition: "s \<in> TERMINAL_STATES \<Longrightarrow> LEGAL_TRANSITIONS s = {}"
  by (auto simp: TERMINAL_STATES_def)

definition IMMUTABLE_FIELDS :: "string set" where
  "IMMUTABLE_FIELDS = {''job_id'', ''created_at'', ''provider'', ''role'', ''schema'',
     ''request'', ''attempt_budget''}"

definition RETRY_CLASSES :: "string set" where
  "RETRY_CLASSES = {''automatic'', ''manual_only'', ''never'', ''unknown''}"

definition PROVIDER_PROCESS_STATES :: "string set" where
  "PROVIDER_PROCESS_STATES = {''pending'', ''launching'', ''bound'', ''exited''}"

definition default_provider_process :: dict where
  "default_provider_process = [(''state'', JStr ''pending''), (''pid'', JNull), (''pgid'', JNull),
     (''pid_starttime'', JNull), (''handle'', JNull), (''bound_at'', JNull), (''exited_at'', JNull)]"

definition default_request :: dict where
  "default_request = [(''output_format'', JStr ''text''), (''model'', JNull), (''effort'', JNull),
     (''mode'', JNull), (''timeout_s'', JFloat (PFin CHR ''3'' ''600.0'' 3600 0)),
     (''provider_binary'', JNull), (''provider_version'', JNull), (''provider_compat'', JNull),
     (''provider_pin_revision'', JNull)]"

section \<open>The record\<close>

record job_record =
  j_job_id :: json
  j_created_at :: json
  j_provider :: json
  j_role :: json
  j_state :: job_state
  j_attempt :: int
  j_schema :: int
  j_generation :: int
  j_pid :: json
  j_pgid :: json
  j_handle :: json
  j_pid_starttime :: json
  j_prompt :: json
  j_result :: json
  j_artifacts :: "json list"
  j_exit :: json
  j_usage :: json
  j_stdout :: json
  j_stderr :: json
  j_events :: json
  j_run_id :: json
  j_updated_at :: json
  j_cancel_reason :: json
  j_cancel_requested_at :: json
  j_worker :: dict
  j_error_message :: json
  j_request :: dict
  j_provider_process :: dict
  j_session :: json
  j_attempt_budget :: int
  j_retry_class :: json
  j_retry_reason :: json
  j_terminal_at :: json
  j_attempt_started_at :: json
  j_owner_lease :: json
  j_last_observed_at :: json
  j_recovery :: json

definition obj_or_null :: "json \<Rightarrow> json" where
  "obj_or_null v = (if is_obj v then v else JNull)"

definition to_dict :: "job_record \<Rightarrow> dict" where
  "to_dict r = [
     (''schema'', JInt (j_schema r)),
     (''job_id'', j_job_id r),
     (''created_at'', j_created_at r),
     (''provider'', j_provider r),
     (''role'', j_role r),
     (''state'', JStr (JobState_value (j_state r))),
     (''attempt'', JInt (j_attempt r)),
     (''attempt_budget'', JInt (j_attempt_budget r)),
     (''generation'', JInt (j_generation r)),
     (''pid'', j_pid r),
     (''pgid'', j_pgid r),
     (''handle'', j_handle r),
     (''pid_starttime'', j_pid_starttime r),
     (''prompt'', j_prompt r),
     (''result'', j_result r),
     (''artifacts'', JList (j_artifacts r)),
     (''exit'', j_exit r),
     (''usage'', j_usage r),
     (''stdout'', j_stdout r),
     (''stderr'', j_stderr r),
     (''events'', j_events r),
     (''run_id'', j_run_id r),
     (''updated_at'', j_updated_at r),
     (''cancel_reason'', j_cancel_reason r),
     (''cancel_requested_at'', j_cancel_requested_at r),
     (''worker'', JObj (j_worker r)),
     (''error_message'', j_error_message r),
     (''request'', JObj (if j_request r \<noteq> [] then j_request r else default_request)),
     (''provider_process'', JObj (if j_provider_process r \<noteq> [] then j_provider_process r
                                 else default_provider_process)),
     (''session'', j_session r),
     (''retry_class'', j_retry_class r),
     (''retry_reason'', j_retry_reason r),
     (''terminal_at'', j_terminal_at r),
     (''attempt_started_at'', j_attempt_started_at r),
     (''owner_lease'', obj_or_null (j_owner_lease r)),
     (''last_observed_at'', j_last_observed_at r),
     (''recovery'', obj_or_null (j_recovery r))]"

section \<open>The reader\<close>

definition job_malformed :: job_exc where
  "job_malformed = JobErr E_JOB_MALFORMED"

definition nonempty_str :: "json \<Rightarrow> bool" where
  \<comment> \<open>\<open>isinstance(v, str) and v\<close>\<close>
  "nonempty_str v \<longleftrightarrow> is_str v \<and> truthy v"

definition required_str :: "dict \<Rightarrow> string \<Rightarrow> bool" where
  "required_str d k \<longleftrightarrow> nonempty_str (dget d k)"

definition str_or_none :: "dict \<Rightarrow> string \<Rightarrow> json" where
  \<comment> \<open>\<open>str(data[k]) if data.get(k) is not None else None\<close>\<close>
  "str_or_none d k = (if dget d k = JNull then JNull else py_str (dget d k))"

definition str_or :: "dict \<Rightarrow> string \<Rightarrow> string \<Rightarrow> json" where
  \<comment> \<open>\<open>str(data.get(k) or default)\<close>\<close>
  "str_or d k def = (if truthy (dget d k) then py_str (dget d k) else JStr def)"

definition null_or :: "(json \<Rightarrow> bool) \<Rightarrow> json \<Rightarrow> bool" where
  "null_or p v \<longleftrightarrow> v = JNull \<or> p v"

definition read_artifacts :: "dict \<Rightarrow> job_exc + json list" where
  "read_artifacts d = (let v = dget d ''artifacts'' in
     if \<not> truthy v then Inr []
     else case v of JList xs \<Rightarrow> Inr (filter is_obj xs) | _ \<Rightarrow> Inl job_malformed)"

definition read_worker :: "dict \<Rightarrow> job_exc + dict" where
  "read_worker d = (let v = dget d ''worker'' in
     if \<not> truthy v then Inr [] else case v of JObj w \<Rightarrow> Inr w | _ \<Rightarrow> Inl job_malformed)"

definition read_request :: "dict \<Rightarrow> job_exc + dict" where
  "read_request d = (case dget d ''request'' of
     JNull \<Rightarrow> Inr default_request
   | JObj q \<Rightarrow> Inr (dmerge default_request q)
   | _ \<Rightarrow> Inl job_malformed)"

definition unhashable :: "json \<Rightarrow> bool" where
  "unhashable v \<longleftrightarrow> is_list v \<or> is_obj v"

definition read_provider_process :: "dict \<Rightarrow> job_exc + dict" where
  "read_provider_process d = (case dget d ''provider_process'' of
     JNull \<Rightarrow> Inr default_provider_process
   | JObj q \<Rightarrow>
       let pp = dmerge default_provider_process q; st = dget pp ''state'' in
       if unhashable st then Inl (PyExc TypeError)
       else bindE (check (\<exists>s \<in> PROVIDER_PROCESS_STATES. st = JStr s) job_malformed) (\<lambda>_. Inr pp)
   | _ \<Rightarrow> Inl job_malformed)"

definition read_owner_lease :: "dict \<Rightarrow> int \<Rightarrow> job_exc + json" where
  "read_owner_lease d attempt = (let v = dget d ''owner_lease'' in
     if v = JNull then Inr JNull
     else bindE (validate_owner_lease v (Some attempt) False) (\<lambda>l. Inr (lease_obj l)))"

definition lease_released_at :: "json \<Rightarrow> json" where
  \<comment> \<open>\<open>owner_lease.get("released_at")\<close>\<close>
  "lease_released_at v = (case v of JObj d \<Rightarrow> dget d ''released_at'' | _ \<Rightarrow> JNull)"

definition from_dict :: "json \<Rightarrow> job_exc + job_record" where
  "from_dict data = (case data of JObj d \<Rightarrow>
     bindE (job_int E_JOB_MALFORMED (dget_or d ''schema'' (JInt 0))) (\<lambda>schema.
     bindE (check (schema = 1) job_malformed) (\<lambda>_.
     bindE (check (required_str d ''job_id'' \<and> required_str d ''created_at''
              \<and> required_str d ''provider'' \<and> required_str d ''role''
              \<and> required_str d ''state'') job_malformed) (\<lambda>_.
     bindE (case JobState_of (dget d ''state'') of None \<Rightarrow> Inl job_malformed
            | Some st \<Rightarrow> Inr st) (\<lambda>state.
     bindE (job_int E_JOB_MALFORMED (dget_or d ''attempt'' (JInt 1))) (\<lambda>attempt.
     bindE (job_int E_JOB_MALFORMED (dget_or d ''generation'' (JInt 0))) (\<lambda>generation.
     bindE (job_int E_JOB_MALFORMED (dget_or d ''attempt_budget'' (JInt 1))) (\<lambda>attempt_budget.
     bindE (check (1 \<le> attempt \<and> 1 \<le> attempt_budget) job_malformed) (\<lambda>_.
     bindE (check (null_or is_json_int (dget d ''pid'')) job_malformed) (\<lambda>_.
     bindE (check (null_or is_json_int (dget d ''pgid'')) job_malformed) (\<lambda>_.
     bindE (check (null_or is_str (dget d ''pid_starttime'')) job_malformed) (\<lambda>_.
     bindE (read_artifacts d) (\<lambda>artifacts.
     bindE (read_worker d) (\<lambda>worker.
     bindE (check (null_or is_obj (dget d ''exit'')) job_malformed) (\<lambda>_.
     bindE (check (null_or is_obj (dget d ''usage'')) job_malformed) (\<lambda>_.
     bindE (read_request d) (\<lambda>request.
     bindE (read_provider_process d) (\<lambda>provider_process.
     bindE (check (null_or is_obj (dget d ''session'')) job_malformed) (\<lambda>_.
     bindE (check (null_or (\<lambda>v. \<exists>s \<in> RETRY_CLASSES. v = JStr s) (dget d ''retry_class''))
              job_malformed) (\<lambda>_.
     bindE (read_owner_lease d attempt) (\<lambda>owner_lease.
     bindE (check (null_or is_str (dget d ''last_observed_at'')) lease_malformed) (\<lambda>_.
     bindE (validate_recovery_meta (dget d ''recovery'')) (\<lambda>recovery.
     bindE (check (\<not> (owner_lease \<noteq> JNull \<and> state \<in> TERMINAL_STATES
              \<and> lease_released_at owner_lease = JNull)) lease_malformed) (\<lambda>_.
     bindE (check (\<not> (owner_lease \<noteq> JNull \<and> state = RUNNING
              \<and> lease_released_at owner_lease \<noteq> JNull)) lease_malformed) (\<lambda>_.
     Inr \<lparr>j_job_id = dget d ''job_id'', j_created_at = dget d ''created_at'',
       j_provider = dget d ''provider'', j_role = dget d ''role'', j_state = state,
       j_attempt = attempt, j_schema = schema, j_generation = generation,
       j_pid = dget d ''pid'', j_pgid = dget d ''pgid'', j_handle = str_or_none d ''handle'',
       j_pid_starttime = dget d ''pid_starttime'', j_prompt = str_or d ''prompt'' ''prompt.md'',
       j_result = str_or_none d ''result'', j_artifacts = artifacts, j_exit = dget d ''exit'',
       j_usage = dget d ''usage'', j_stdout = str_or d ''stdout'' ''stdout.jsonl'',
       j_stderr = str_or d ''stderr'' ''stderr.jsonl'', j_events = str_or d ''events'' ''events.jsonl'',
       j_run_id = str_or_none d ''run_id'', j_updated_at = str_or_none d ''updated_at'',
       j_cancel_reason = str_or_none d ''cancel_reason'',
       j_cancel_requested_at = str_or_none d ''cancel_requested_at'', j_worker = worker,
       j_error_message = str_or_none d ''error_message'', j_request = request,
       j_provider_process = provider_process, j_session = dget d ''session'',
       j_attempt_budget = attempt_budget, j_retry_class = dget d ''retry_class'',
       j_retry_reason = str_or_none d ''retry_reason'', j_terminal_at = str_or_none d ''terminal_at'',
       j_attempt_started_at = str_or_none d ''attempt_started_at'', j_owner_lease = owner_lease,
       j_last_observed_at = dget d ''last_observed_at'', j_recovery = recovery\<rparr>))))))))))))))))))))))))
   | _ \<Rightarrow> Inl job_malformed)"

definition remaining_attempts :: "job_record \<Rightarrow> int" where
  "remaining_attempts r = max 0 (j_attempt_budget r - j_attempt r)"

section \<open>The public view\<close>

definition public_request_summary :: "dict \<Rightarrow> json" where
  "public_request_summary q = (if q = [] then JNull else JObj [
     (''output_format'', dget q ''output_format''), (''model'', dget q ''model''),
     (''effort'', dget q ''effort''), (''mode'', dget q ''mode''),
     (''timeout_s'', dget q ''timeout_s''), (''provider_version'', dget q ''provider_version''),
     (''provider_compat'', dget q ''provider_compat''),
     (''provider_pin_revision'', dget q ''provider_pin_revision''),
     (''has_provider_binary'', JBool (truthy (dget q ''provider_binary''))),
     (''long_lived'', JBool (truthy (dget q ''long_lived''))),
     (''has_session_binding'', JBool (truthy (dget q ''session_id_hash'')))])"

definition public_lease :: "json \<Rightarrow> job_exc + json" where
  \<comment> \<open>the lease of \<open>public_status\<close>: a \<open>JobStoreError\<close> of the summary hides it\<close>
  "public_lease v = (case public_lease_summary v of
     Inl (JobErr c) \<Rightarrow> Inr JNull | x \<Rightarrow> x)"

definition public_status :: "job_record \<Rightarrow> job_exc + dict" where
  "public_status r = bindE (public_lease (j_owner_lease r)) (\<lambda>lease_summary. Inr [
     (''job_id'', j_job_id r),
     (''state'', JStr (JobState_value (j_state r))),
     (''provider'', j_provider r),
     (''role'', j_role r),
     (''attempt'', JInt (j_attempt r)),
     (''attempt_budget'', JInt (j_attempt_budget r)),
     (''remaining_attempts'', JInt (remaining_attempts r)),
     (''retry_class'', j_retry_class r),
     (''retry_reason'', j_retry_reason r),
     (''terminal_at'', j_terminal_at r),
     (''attempt_started_at'', j_attempt_started_at r),
     (''pid'', j_pid r),
     (''pgid'', j_pgid r),
     (''handle'', j_handle r),
     (''pid_starttime'', j_pid_starttime r),
     (''created_at'', j_created_at r),
     (''updated_at'', j_updated_at r),
     (''run_id'', j_run_id r),
     (''exit'', j_exit r),
     (''usage'', j_usage r),
     (''error_message'', j_error_message r),
     (''cancel_reason'', j_cancel_reason r),
     (''cancel_requested_at'', j_cancel_requested_at r),
     (''prompt'', j_prompt r),
     (''result'', j_result r),
     (''artifacts'', JList (j_artifacts r)),
     (''stdout'', j_stdout r),
     (''stderr'', j_stderr r),
     (''events'', j_events r),
     (''request'', public_request_summary (j_request r)),
     (''provider_process'', JObj [
        (''state'', dget (j_provider_process r) ''state''),
        (''pid'', dget (j_provider_process r) ''pid''),
        (''pgid'', dget (j_provider_process r) ''pgid''),
        (''bound_at'', dget (j_provider_process r) ''bound_at''),
        (''exited_at'', dget (j_provider_process r) ''exited_at'')]),
     (''session'', j_session r),
     (''owner_lease'', lease_summary),
     (''last_observed_at'', j_last_observed_at r),
     (''recovery'', case j_recovery r of
        JObj rd \<Rightarrow> if rd = [] then JNull
          else recovery_obj (dget rd ''last_action'') (dget rd ''last_reason'') (dget rd ''last_at'')
      | _ \<Rightarrow> JNull)])"

section \<open>Well-formed records\<close>

definition lease_fits :: "job_state \<Rightarrow> int \<Rightarrow> lease \<Rightarrow> bool" where
  "lease_fits st attempt l \<longleftrightarrow> lease_inv l \<and> lease_attempt l = attempt
     \<and> (st \<in> TERMINAL_STATES \<longrightarrow> released_at l \<noteq> None) \<and> (st = RUNNING \<longrightarrow> released_at l = None)"

definition lease_ok :: "job_record \<Rightarrow> bool" where
  "lease_ok r \<longleftrightarrow> j_owner_lease r = JNull
     \<or> (\<exists>l. j_owner_lease r = lease_obj l \<and> lease_fits (j_state r) (j_attempt r) l)"

definition job_ints_ok :: "job_record \<Rightarrow> bool" where
  "job_ints_ok r \<longleftrightarrow> j_schema r = 1 \<and> 1 \<le> j_attempt r \<and> 1 \<le> j_attempt_budget r
     \<and> null_or is_json_int (j_pid r) \<and> null_or is_json_int (j_pgid r)"

definition job_strs_ok :: "job_record \<Rightarrow> bool" where
  "job_strs_ok r \<longleftrightarrow> list_all nonempty_str [j_job_id r, j_created_at r, j_provider r, j_role r,
       j_prompt r, j_stdout r, j_stderr r, j_events r]
     \<and> list_all (null_or is_str) [j_pid_starttime r, j_handle r, j_result r, j_run_id r,
       j_updated_at r, j_cancel_reason r, j_cancel_requested_at r, j_error_message r,
       j_retry_reason r, j_terminal_at r, j_attempt_started_at r, j_last_observed_at r]
     \<and> null_or (\<lambda>v. \<exists>s \<in> RETRY_CLASSES. v = JStr s) (j_retry_class r)"

definition job_objs_ok :: "job_record \<Rightarrow> bool" where
  "job_objs_ok r \<longleftrightarrow> list_all (null_or is_obj) [j_exit r, j_usage r, j_session r]
     \<and> list_all is_obj (j_artifacts r)
     \<and> dmerge default_request (j_request r) = j_request r
     \<and> dmerge default_provider_process (j_provider_process r) = j_provider_process r
     \<and> (\<exists>s \<in> PROVIDER_PROCESS_STATES. dget (j_provider_process r) ''state'' = JStr s)
     \<and> validate_recovery_meta (j_recovery r) = Inr (j_recovery r)"

definition job_inv :: "job_record \<Rightarrow> bool" where
  "job_inv r \<longleftrightarrow> job_ints_ok r \<and> job_strs_ok r \<and> job_objs_ok r \<and> lease_ok r"

lemma lease_released_at_obj [simp]:
  "lease_released_at (lease_obj l) = (case released_at l of None \<Rightarrow> JNull | Some t \<Rightarrow> format_lease_ts t)"
  by (simp add: lease_released_at_def lease_obj_def)

lemma format_lease_ts_not_null [simp]: "format_lease_ts t \<noteq> JNull"
  by (simp add: format_lease_ts_def)

lemma str_reader_shapes [simp]:
  "null_or is_str (str_or_none d k)" "nonempty_str (str_or d k (c # cs))"
  by (auto simp: null_or_def str_or_none_def str_or_def nonempty_str_def py_str_def
     text_of_def truthy_def is_str_def float_text_def split: json.splits pyfloat.splits)

lemma default_keys_distinct [simp]:
  "distinct (map fst default_request)" "distinct (map fst default_provider_process)"
  by (simp_all add: default_request_def default_provider_process_def)

lemma default_merges [simp]:
  "dmerge default_request default_request = default_request"
  "dmerge default_provider_process default_provider_process = default_provider_process"
  by (simp_all add: dmerge_self)

lemma defaults_nonempty [simp]: "default_request \<noteq> []" "default_provider_process \<noteq> []"
  by (simp_all add: default_request_def default_provider_process_def)

lemma read_artifacts_shape: "read_artifacts d = Inr xs \<Longrightarrow> list_all is_obj xs"
  by (auto simp: read_artifacts_def Let_def list_all_iff split: json.splits if_splits)

lemma read_request_shape: "read_request d = Inr q \<Longrightarrow> dmerge default_request q = q"
  by (auto simp: read_request_def dmerge_idem split: json.splits)

lemma default_provider_state [simp]: "dget default_provider_process ''state'' = JStr ''pending''"
  by (simp add: default_provider_process_def)

lemma read_provider_process_shape:
  "read_provider_process d = Inr q \<Longrightarrow> dmerge default_provider_process q = q
     \<and> (\<exists>s \<in> PROVIDER_PROCESS_STATES. dget q ''state'' = JStr s)"
  by (auto simp: read_provider_process_def Let_def dmerge_idem result_simps
      PROVIDER_PROCESS_STATES_def split: json.splits if_splits)

lemma read_owner_lease_shape:
  "read_owner_lease d a = Inr v \<Longrightarrow> v = JNull \<or>
     (\<exists>l. v = lease_obj l \<and> lease_inv l \<and> lease_attempt l = a)"
  by (auto simp: read_owner_lease_def Let_def result_simps validate_owner_lease_Inr split: if_splits)

lemmas reader_shapes = read_artifacts_shape read_request_shape read_provider_process_shape
  read_owner_lease_shape validate_recovery_meta_idem

lemma dget_to_dict [simp]:
  "dget (to_dict r) ''created_at'' = j_created_at r"
  "dget (to_dict r) ''provider'' = j_provider r"
  "dget (to_dict r) ''role'' = j_role r"
  "dget (to_dict r) ''pid'' = j_pid r"
  "dget (to_dict r) ''pgid'' = j_pgid r"
  "dget (to_dict r) ''handle'' = j_handle r"
  "dget (to_dict r) ''pid_starttime'' = j_pid_starttime r"
  "dget (to_dict r) ''prompt'' = j_prompt r"
  "dget (to_dict r) ''result'' = j_result r"
  "dget (to_dict r) ''exit'' = j_exit r"
  "dget (to_dict r) ''usage'' = j_usage r"
  "dget (to_dict r) ''stdout'' = j_stdout r"
  "dget (to_dict r) ''stderr'' = j_stderr r"
  "dget (to_dict r) ''events'' = j_events r"
  "dget (to_dict r) ''run_id'' = j_run_id r"
  "dget (to_dict r) ''updated_at'' = j_updated_at r"
  "dget (to_dict r) ''cancel_reason'' = j_cancel_reason r"
  "dget (to_dict r) ''cancel_requested_at'' = j_cancel_requested_at r"
  "dget (to_dict r) ''error_message'' = j_error_message r"
  "dget (to_dict r) ''session'' = j_session r"
  "dget (to_dict r) ''retry_class'' = j_retry_class r"
  "dget (to_dict r) ''retry_reason'' = j_retry_reason r"
  "dget (to_dict r) ''terminal_at'' = j_terminal_at r"
  "dget (to_dict r) ''attempt_started_at'' = j_attempt_started_at r"
  "dget (to_dict r) ''last_observed_at'' = j_last_observed_at r"
  "dget (to_dict r) ''job_id'' = j_job_id r"
  "dget_or (to_dict r) ''schema'' v = JInt (j_schema r)"
  "dget_or (to_dict r) ''attempt'' v = JInt (j_attempt r)"
  "dget_or (to_dict r) ''attempt_budget'' v = JInt (j_attempt_budget r)"
  "dget_or (to_dict r) ''generation'' v = JInt (j_generation r)"
  "dget (to_dict r) ''state'' = JStr (JobState_value (j_state r))"
  "dget (to_dict r) ''artifacts'' = JList (j_artifacts r)"
  "dget (to_dict r) ''worker'' = JObj (j_worker r)"
  "dget (to_dict r) ''request'' = JObj (if j_request r \<noteq> [] then j_request r else default_request)"
  "dget (to_dict r) ''provider_process'' = JObj (if j_provider_process r \<noteq> []
     then j_provider_process r else default_provider_process)"
  "dget (to_dict r) ''owner_lease'' = obj_or_null (j_owner_lease r)"
  "dget (to_dict r) ''recovery'' = obj_or_null (j_recovery r)"
  by (simp_all add: to_dict_def)

lemma str_or_to_dict:
  "nonempty_str (dget d k) \<Longrightarrow> str_or d k def = dget d k"
  "null_or is_str (dget d k) \<Longrightarrow> str_or_none d k = dget d k"
  by (auto simp: str_or_def nonempty_str_def str_or_none_def null_or_def)


lemma from_dict_parts:
  assumes "from_dict (JObj d) = Inr r"
  shows "job_ints_ok r" "job_strs_ok r" "job_objs_ok r" "lease_ok r"
proof -
  note unfolded = assms [unfolded from_dict_def json.case result_simps]
  show "job_ints_ok r"
    by (insert unfolded, elim exE conjE, drule sum.inject(2) [THEN iffD1], hypsubst_thin)
      (simp add: job_ints_ok_def)
  show "job_strs_ok r"
    by (insert unfolded, elim exE conjE, drule sum.inject(2) [THEN iffD1], hypsubst_thin)
      (simp add: job_strs_ok_def required_str_def)
  show "job_objs_ok r"
    by (insert unfolded, elim exE conjE, drule sum.inject(2) [THEN iffD1], hypsubst_thin)
      (simp add: job_objs_ok_def reader_shapes)
  show "lease_ok r"
    by (insert unfolded, elim exE conjE, drule sum.inject(2) [THEN iffD1], hypsubst_thin,
      drule read_owner_lease_shape) (auto simp: lease_ok_def lease_fits_def)
qed

lemma from_dict_inv: "from_dict v = Inr r \<Longrightarrow> job_inv r"
  by (cases v) (auto simp: job_inv_def from_dict_parts, simp_all add: from_dict_def)

lemma obj_or_null_simps [simp]: "obj_or_null (lease_obj l) = lease_obj l" "obj_or_null JNull = JNull"
  by (simp_all add: obj_or_null_def lease_obj_def)

lemma readers_to_dict:
  assumes "job_inv r"
  shows "read_artifacts (to_dict r) = Inr (j_artifacts r)"
    and "read_worker (to_dict r) = Inr (j_worker r)"
    and "read_request (to_dict r) = Inr (j_request r)"
    and "read_provider_process (to_dict r) = Inr (j_provider_process r)"
    and "read_owner_lease (to_dict r) (j_attempt r) = Inr (j_owner_lease r)"
    and "validate_recovery_meta (obj_or_null (j_recovery r)) = Inr (j_recovery r)"
proof -
  have art: "filter is_obj (j_artifacts r) = j_artifacts r"
    using assms by (simp add: job_inv_def job_objs_ok_def list_all_iff)
  show "read_artifacts (to_dict r) = Inr (j_artifacts r)"
    using art by (simp add: read_artifacts_def Let_def del: is_obj_iff)
  show "read_worker (to_dict r) = Inr (j_worker r)"
    by (simp add: read_worker_def Let_def)
  show "read_request (to_dict r) = Inr (j_request r)"
    using assms dmerge_nonempty [of default_request "j_request r"]
    by (auto simp: read_request_def job_inv_def job_objs_ok_def)
  show "read_provider_process (to_dict r) = Inr (j_provider_process r)"
    using assms dmerge_nonempty [of default_provider_process "j_provider_process r"]
    by (auto simp: read_provider_process_def job_inv_def job_objs_ok_def unhashable_def)
  show "read_owner_lease (to_dict r) (j_attempt r) = Inr (j_owner_lease r)"
    using assms by (auto simp: read_owner_lease_def job_inv_def lease_ok_def lease_fits_def
      validate_owner_lease_obj)
  show "validate_recovery_meta (obj_or_null (j_recovery r)) = Inr (j_recovery r)"
    using assms by (auto simp: job_inv_def job_objs_ok_def validate_recovery_meta_Inr obj_or_null_def)
qed

lemma lease_states_to_dict:
  assumes "job_inv r"
  shows "\<not> (j_owner_lease r \<noteq> JNull \<and> j_state r \<in> TERMINAL_STATES
           \<and> lease_released_at (j_owner_lease r) = JNull)"
    and "\<not> (j_owner_lease r \<noteq> JNull \<and> j_state r = RUNNING
           \<and> lease_released_at (j_owner_lease r) \<noteq> JNull)"
  using assms by (auto simp: job_inv_def lease_ok_def lease_fits_def)

lemma from_dict_to_dict:
  assumes "job_inv r"
  shows "from_dict (JObj (to_dict r)) = Inr r"
proof -
  have ints: "j_schema r = 1" "1 \<le> j_attempt r" "1 \<le> j_attempt_budget r"
      "null_or is_json_int (j_pid r)" "null_or is_json_int (j_pgid r)"
    using assms by (simp_all add: job_inv_def job_ints_ok_def)
  have strs: "job_strs_ok r" and objs: "null_or is_obj (j_exit r)" "null_or is_obj (j_usage r)"
      "null_or is_obj (j_session r)"
    using assms by (simp_all add: job_inv_def job_objs_ok_def)
  note strs' = strs [unfolded job_strs_ok_def list.pred_inject]
  show ?thesis
    unfolding from_dict_def
    by (simp only: json.case dget_to_dict job_int_JInt bindE_Inr ints readers_to_dict [OF assms]
        lease_states_to_dict [OF assms] check_simps JobState_of_value option.case objs strs'
        str_or_to_dict simp_thms required_str_def)
      (simp add: str_or_to_dict strs' nonempty_str_def, rule job_record.equality, simp_all add: ints)
qed

end
