(* ===== verification/JobRetry.thy ===== *)
theory JobRetry
  imports JobModels
begin

text \<open>
  Retry classification and admission (\<open>jobs/retry.py\<close>), and the pure decision of the
  automatic scheduler (\<open>evaluate_auto_retry\<close> in \<open>jobs/scheduler.py\<close>).  Durations are
  microseconds.  The clock reading is an argument already normalized by \<open>_coerce_now\<close>.
\<close>

definition ACP_SESSION_PROVIDER :: string where
  "ACP_SESSION_PROVIDER = ''grok-acp-session''"

definition RETRYABLE_TERMINAL_STATES :: "job_state set" where
  "RETRYABLE_TERMINAL_STATES = {FAILED, CANCELLED, LOST}"

definition AUTO_RETRY_BASE_DELAY :: int where
  "AUTO_RETRY_BASE_DELAY = 10000000"

definition AUTO_RETRY_MAX_DELAY :: int where
  "AUTO_RETRY_MAX_DELAY = 300000000"

definition AUTO_RETRY_CLOCK_SKEW :: int where
  "AUTO_RETRY_CLOCK_SKEW = 5000000"

definition MAX_BACKOFF_EXPONENT :: int where
  "MAX_BACKOFF_EXPONENT = 16"

datatype retry_intent = EXPLICIT | AUTOMATIC

definition RetryIntent_value :: "retry_intent \<Rightarrow> string" where
  "RetryIntent_value i = (case i of EXPLICIT \<Rightarrow> ''explicit'' | AUTOMATIC \<Rightarrow> ''automatic'')"

section \<open>Classification\<close>

definition exit_class_of :: "dict \<Rightarrow> string" where
  \<comment> \<open>\<open>str(exit_obj.get("class") or "").strip().lower()\<close>\<close>
  "exit_class_of d = (let v = dget d ''class'' in
     lower (strip (if truthy v then text_of v else [])))"

definition classify_exit :: "dict \<Rightarrow> string \<times> string" where
  "classify_exit d =
     (let timed_out = dget d ''timed_out''; overflow = dget d ''overflow'';
          exit_class = exit_class_of d in
      if \<not> null_or is_bool timed_out then (''unknown'', ''malformed_timed_out'')
      else if \<not> null_or is_bool overflow then (''unknown'', ''malformed_overflow'')
      else if exit_class = [] then (''unknown'', ''missing_exit_class'')
      else if exit_class = ''success'' then (''never'', ''success'')
      else if exit_class = ''cancelled'' then (''manual_only'', ''cancelled'')
      else if exit_class \<in> {''auth_blocked'', ''permission'', ''destructive_confirmation''}
        then (''manual_only'', exit_class)
      else if exit_class \<in> {''timeout'', ''overflow''} then (''automatic'', exit_class)
      else if exit_class \<in> {''spawn_error'', ''malformed'', ''parse_error'', ''unknown''}
        then (''unknown'', exit_class)
      else if timed_out = JBool True \<or> overflow = JBool True
        then (''automatic'', ''timeout_or_overflow'')
      else if exit_class \<in> {''nonzero'', ''retryable''} then
        (if dget d ''retryable'' = JBool False then (''manual_only'', ''nonzero_non_retryable'')
         else if dget d ''retryable'' = JBool True \<or> exit_class = ''retryable''
           then (''automatic'', ''retryable_nonzero'')
         else (''unknown'', ''nonzero_unclassified''))
      else (''unknown'', ''unclassified:'' @ exit_class))"

definition classify_retry :: "job_state option \<Rightarrow> json \<Rightarrow> string \<times> string" where
  \<comment> \<open>\<open>None\<close> stands for a text that names no state; a nonterminal state is classified by its exit\<close>
  "classify_retry state exit_obj = (case state of
     None \<Rightarrow> (''unknown'', ''unknown_state'')
   | Some SUCCEEDED \<Rightarrow> (''never'', ''success'')
   | Some CANCELLED \<Rightarrow> (''manual_only'', ''cancelled'')
   | Some LOST \<Rightarrow> (''unknown'', ''lost'')
   | Some _ \<Rightarrow> (case exit_obj of
       JObj d \<Rightarrow> classify_exit d
     | _ \<Rightarrow> (''unknown'', ''missing_exit'')))"

definition classified_terminal_updates :: "job_state option \<Rightarrow> json \<Rightarrow> dict \<Rightarrow> int \<Rightarrow> dict" where
  "classified_terminal_updates state exit_obj extra now =
     (let (retry_class, retry_reason) = classify_retry state exit_obj;
          updates = [(''terminal_at'', JTime (Aware now)), (''retry_class'', JStr retry_class),
                     (''retry_reason'', JStr retry_reason)];
          updates' = (if exit_obj \<noteq> JNull \<and> \<not> has_key extra ''exit''
                      then dset updates ''exit'' exit_obj else updates)
      in dmerge updates' extra)"

section \<open>Backoff\<close>

definition parse_terminal_at :: "json \<Rightarrow> int option" where
  "parse_terminal_at raw = (case raw of JTime (Aware t) \<Rightarrow> Some t | _ \<Rightarrow> None)"

definition auto_retry_delay :: "int \<Rightarrow> int" where
  "auto_retry_delay attempt =
     (let exponent = max 0 (min MAX_BACKOFF_EXPONENT (attempt - 1))
      in min (AUTO_RETRY_BASE_DELAY * 2 ^ nat exponent) AUTO_RETRY_MAX_DELAY)"

definition auto_retry_due_at :: "int \<Rightarrow> int \<Rightarrow> int" where
  "auto_retry_due_at terminal_at attempt = terminal_at + auto_retry_delay attempt"

section \<open>Admission\<close>

definition assert_automatic_retry_admission :: "job_record \<Rightarrow> int \<Rightarrow> int \<Rightarrow> job_exc + int" where
  "assert_automatic_retry_admission r attempt now =
     bindE (check (j_state r = FAILED) (JobErr E_JOB_RETRY_STATE)) (\<lambda>_.
     bindE (check (\<not> (j_cancel_requested_at r \<noteq> JNull \<or> j_cancel_reason r \<noteq> JNull))
              (JobErr E_JOB_RETRY_STATE)) (\<lambda>_.
     bindE (check (attempt = j_attempt r + 1) (JobErr E_JOB_RETRY_ATTEMPT)) (\<lambda>_.
     bindE (check (attempt \<le> j_attempt_budget r) (JobErr E_JOB_RETRY_BUDGET)) (\<lambda>_.
     bindE (check (j_retry_class r = JStr ''automatic'') (JobErr E_JOB_RETRY_CLASS)) (\<lambda>_.
     bindE (check (is_str (j_retry_reason r) \<and> \<not> is_blank (j_retry_reason r))
              (JobErr E_JOB_AUTO_RETRY_META)) (\<lambda>_.
     bindE (check (is_obj (j_exit r)) (JobErr E_JOB_AUTO_RETRY_META)) (\<lambda>_.
     let (computed_class, computed_reason) = classify_retry (Some (j_state r)) (j_exit r) in
     bindE (check (\<not> (computed_class \<noteq> ''automatic'' \<or> JStr computed_class \<noteq> j_retry_class r
              \<or> JStr computed_reason \<noteq> j_retry_reason r)) (JobErr E_JOB_AUTO_RETRY_META)) (\<lambda>_.
     case parse_terminal_at (j_terminal_at r) of
       None \<Rightarrow> Inl (JobErr E_JOB_AUTO_RETRY_TIME)
     | Some terminal \<Rightarrow>
         bindE (check (\<not> now + AUTO_RETRY_CLOCK_SKEW < terminal)
                  (JobErr E_JOB_AUTO_RETRY_TIME)) (\<lambda>_.
         let due = auto_retry_due_at terminal (j_attempt r) in
         bindE (check (\<not> now < due) (JobErr E_JOB_AUTO_RETRY_TIME)) (\<lambda>_. Inr due))))))))))"

definition assert_retry_admission ::
    "job_record \<Rightarrow> int \<Rightarrow> retry_intent \<Rightarrow> int \<Rightarrow> job_exc + unit" where
  "assert_retry_admission r attempt intent now =
     bindE (check (j_provider r \<noteq> JStr ACP_SESSION_PROVIDER) (JobErr E_JOB_PROVIDER_INTERNAL))
       (\<lambda>_.
     case intent of
       AUTOMATIC \<Rightarrow> bindE (assert_automatic_retry_admission r attempt now) (\<lambda>_. Inr ())
     | EXPLICIT \<Rightarrow>
         bindE (check (j_state r \<in> RETRYABLE_TERMINAL_STATES) (JobErr E_JOB_RETRY_STATE)) (\<lambda>_.
         bindE (check (attempt = j_attempt r + 1) (JobErr E_JOB_RETRY_ATTEMPT)) (\<lambda>_.
         bindE (check (attempt \<le> j_attempt_budget r) (JobErr E_JOB_RETRY_BUDGET)) (\<lambda>_.
         bindE (check (j_retry_class r \<noteq> JNull) (JobErr E_JOB_RETRY_CLASS)) (\<lambda>_.
         bindE (check (\<exists>s \<in> RETRY_CLASSES. j_retry_class r = JStr s)
                  (JobErr E_JOB_RETRY_META)) (\<lambda>_.
         check (j_retry_class r \<noteq> JStr ''never'') (JobErr E_JOB_RETRY_CLASS)))))))"

section \<open>The decision of the scheduler\<close>

record auto_retry_decision =
  d_action :: string
  d_reason :: string
  d_due_at :: "int option"
  d_next_attempt :: "int option"
  d_retry_class :: json
  d_retry_reason :: json

definition evaluate_auto_retry :: "job_record \<Rightarrow> int \<Rightarrow> auto_retry_decision" where
  "evaluate_auto_retry r tick =
     (let decide = (\<lambda>action reason due nxt. \<lparr>d_action = action, d_reason = reason, d_due_at = due,
            d_next_attempt = nxt, d_retry_class = j_retry_class r,
            d_retry_reason = j_retry_reason r\<rparr>);
          next_attempt = j_attempt r + 1;
          (computed_class, computed_reason) = classify_retry (Some (j_state r)) (j_exit r)
      in
      if j_state r \<noteq> FAILED
        then decide ''skipped'' (''state_'' @ JobState_value (j_state r)) None None
      else if j_cancel_requested_at r \<noteq> JNull \<or> j_cancel_reason r \<noteq> JNull
        then decide ''skipped'' ''cancel_marker_present'' None None
      else if j_attempt_budget r < next_attempt
        then decide ''skipped'' ''budget_exhausted'' None (Some next_attempt)
      else if j_retry_class r \<noteq> JStr ''automatic''
        then decide ''skipped'' (''retry_class_'' @ (if truthy (j_retry_class r)
               then text_of (j_retry_class r) else ''missing'')) None (Some next_attempt)
      else if \<not> is_str (j_retry_reason r) \<or> is_blank (j_retry_reason r)
        then decide ''blocked'' ''missing_retry_reason'' None (Some next_attempt)
      else if \<not> is_obj (j_exit r)
        then decide ''blocked'' ''missing_exit'' None (Some next_attempt)
      else if computed_class \<noteq> ''automatic'' \<or> JStr computed_class \<noteq> j_retry_class r
          \<or> JStr computed_reason \<noteq> j_retry_reason r
        then decide ''blocked'' ''retry_meta_mismatch'' None (Some next_attempt)
      else (case parse_terminal_at (j_terminal_at r) of
        None \<Rightarrow> decide ''blocked'' ''bad_terminal_at'' None (Some next_attempt)
      | Some terminal \<Rightarrow>
          if tick + AUTO_RETRY_CLOCK_SKEW < terminal
            then decide ''blocked'' ''future_terminal_at'' None (Some next_attempt)
          else (let due = auto_retry_due_at terminal (j_attempt r) in
            if tick < due then decide ''deferred'' ''backoff_wait'' (Some due) (Some next_attempt)
            else decide ''eligible'' ''automatic_retry_due'' (Some due) (Some next_attempt))))"

section \<open>Properties of classification and backoff\<close>

lemma classify_exit_class: "fst (classify_exit d) \<in> RETRY_CLASSES"
  by (simp add: classify_exit_def Let_def RETRY_CLASSES_def)

lemma classify_retry_class: "fst (classify_retry st e) \<in> RETRY_CLASSES"
  using classify_exit_class
  by (auto simp: classify_retry_def RETRY_CLASSES_def split: option.splits job_state.splits json.splits)

lemma classify_exit_automatic:
  "fst (classify_exit d) = ''automatic'' \<Longrightarrow>
     null_or is_bool (dget d ''timed_out'') \<and> null_or is_bool (dget d ''overflow'')
     \<and> exit_class_of d \<notin> {[], ''success'', ''cancelled'', ''auth_blocked'', ''permission'',
          ''destructive_confirmation'', ''spawn_error'', ''malformed'', ''parse_error'', ''unknown''}
     \<and> (exit_class_of d \<in> {''timeout'', ''overflow'', ''retryable''}
        \<or> dget d ''timed_out'' = JBool True \<or> dget d ''overflow'' = JBool True
        \<or> dget d ''retryable'' = JBool True)"
  by (auto simp: classify_exit_def Let_def simp del: is_bool_iff split: if_splits)

lemma classify_retry_automatic:
  "fst (classify_retry (Some st) e) = ''automatic'' \<Longrightarrow> st \<notin> {SUCCEEDED, CANCELLED, LOST} \<and> is_obj e"
  by (auto simp: classify_retry_def split: job_state.splits json.splits)

lemma auto_retry_delay_range:
  "AUTO_RETRY_BASE_DELAY \<le> auto_retry_delay n" "auto_retry_delay n \<le> AUTO_RETRY_MAX_DELAY"
  by (simp_all add: auto_retry_delay_def Let_def AUTO_RETRY_BASE_DELAY_def AUTO_RETRY_MAX_DELAY_def)

lemma auto_retry_delay_mono: "m \<le> n \<Longrightarrow> auto_retry_delay m \<le> auto_retry_delay n"
proof -
  assume "m \<le> n"
  then have "nat (max 0 (min MAX_BACKOFF_EXPONENT (m - 1))) \<le> nat (max 0 (min MAX_BACKOFF_EXPONENT (n - 1)))"
    by (intro nat_mono) auto
  then have "(2 :: int) ^ nat (max 0 (min MAX_BACKOFF_EXPONENT (m - 1)))
      \<le> 2 ^ nat (max 0 (min MAX_BACKOFF_EXPONENT (n - 1)))"
    by (rule power_increasing) simp
  then show ?thesis
    by (auto simp: auto_retry_delay_def Let_def AUTO_RETRY_BASE_DELAY_def intro: min.coboundedI1)
qed

lemma auto_retry_delay_saturated: "6 \<le> n \<Longrightarrow> auto_retry_delay n = AUTO_RETRY_MAX_DELAY"
proof -
  assume "6 \<le> n"
  then have "auto_retry_delay 6 \<le> auto_retry_delay n" by (rule auto_retry_delay_mono)
  moreover have "auto_retry_delay 6 = AUTO_RETRY_MAX_DELAY"
    by (simp add: auto_retry_delay_def AUTO_RETRY_BASE_DELAY_def AUTO_RETRY_MAX_DELAY_def
        MAX_BACKOFF_EXPONENT_def)
  ultimately show ?thesis using auto_retry_delay_range(2) [of n] by simp
qed

lemma automatic_admission_Inr:
  "assert_automatic_retry_admission r a now = Inr due \<longleftrightarrow>
     (let (c, w) = classify_retry (Some (j_state r)) (j_exit r) in
     j_state r = FAILED \<and> j_cancel_requested_at r = JNull \<and> j_cancel_reason r = JNull
     \<and> a = j_attempt r + 1 \<and> a \<le> j_attempt_budget r \<and> j_retry_class r = JStr ''automatic''
     \<and> is_str (j_retry_reason r) \<and> \<not> is_blank (j_retry_reason r) \<and> is_obj (j_exit r)
     \<and> c = ''automatic'' \<and> JStr w = j_retry_reason r
     \<and> (\<exists>t. parse_terminal_at (j_terminal_at r) = Some t \<and> t \<le> now + AUTO_RETRY_CLOCK_SKEW
          \<and> due = auto_retry_due_at t (j_attempt r) \<and> due \<le> now))"
  by (cases "classify_retry (Some (j_state r)) (j_exit r)";
      cases "parse_terminal_at (j_terminal_at r)")
     (auto simp: assert_automatic_retry_admission_def Let_def result_simps simp del: is_obj_iff)

lemma evaluate_eligible:
  "d_action (evaluate_auto_retry r tick) = ''eligible''
     \<and> d_due_at (evaluate_auto_retry r tick) = Some due \<longleftrightarrow>
   assert_automatic_retry_admission r (j_attempt r + 1) tick = Inr due"
  by (cases "classify_retry (Some (j_state r)) (j_exit r)";
      cases "parse_terminal_at (j_terminal_at r)")
     (auto simp: automatic_admission_Inr evaluate_auto_retry_def Let_def simp del: is_obj_iff)

lemma evaluate_action_eligible:
  "d_action (evaluate_auto_retry r tick) = ''eligible'' \<longleftrightarrow>
     (\<exists>due. assert_automatic_retry_admission r (j_attempt r + 1) tick = Inr due)"
  by (cases "classify_retry (Some (j_state r)) (j_exit r)";
      cases "parse_terminal_at (j_terminal_at r)")
     (auto simp: automatic_admission_Inr evaluate_auto_retry_def Let_def simp del: is_obj_iff)

end
