(* ===== verification/JobStore.thy ===== *)
theory JobStore
  imports JobRetry "HOL-Library.AList" "HOL-Library.List_Lexorder" "HOL-Library.Char_ord"
begin

text \<open>
  The job store (\<open>jobs/store.py\<close>): one directory per job under \<open>.omg/jobs\<close>, with the record
  in \<open>job.json\<close>, the prompt, three ledgers, the artifacts and the archived attempts.  Every
  operation of the source holds the lock of the job from its first read to its last, so an
  operation is one atomic step on the store: it returns its result or exception together with
  the store it leaves, because a write that succeeded stays when the read after it fails.  An
  operation reads the clock once (\<open>now\<close>).  Failing system calls, the waiting for a lock and the
  best-effort \<open>job.terminal\<close> event are not modelled; \<open>Unreadable\<close> is a \<open>job.json\<close> that cannot
  be read or parsed.  An update names fields of the record: a key that is the name of a method
  of the class, which \<open>hasattr\<close> also finds, is treated as unknown.
\<close>

section \<open>Directories and paths\<close>

datatype doc = Unreadable | Doc json

record archive =
  ar_attempt :: "doc option"
  ar_stdout :: string
  ar_stderr :: string
  ar_events :: string
  ar_artifacts :: "(string \<times> string) list"
  ar_complete :: "doc option"

record job_dir =
  jd_job :: "doc option"
  jd_prompt :: string
  jd_stdout :: "string option"
  jd_stderr :: "string option"
  jd_events :: "string option"
  jd_artifacts :: "(string \<times> string) list"
  jd_attempts :: "int \<rightharpoonup> archive"

record job_store =
  jobs :: "(string \<times> job_dir) list"
  quarantine :: "(string \<times> job_dir) list"

definition get_dir :: "job_store \<Rightarrow> string \<Rightarrow> job_dir option" where
  "get_dir s jid = map_of (jobs s) jid"

definition put_dir :: "string \<Rightarrow> job_dir \<Rightarrow> job_store \<Rightarrow> job_store" where
  "put_dir jid d s = s\<lparr>jobs := AList.update jid d (jobs s)\<rparr>"

lemma get_put_dir [simp]: "get_dir (put_dir jid d s) k = (if k = jid then Some d else get_dir s k)"
  by (simp add: get_dir_def put_dir_def update_conv')

definition JOB_ID_RE :: "string \<Rightarrow> bool" where
  \<comment> \<open>\<open>[0-9]{8}T[0-9]{6}Z-[0-9a-f]{8}\<close>\<close>
  "JOB_ID_RE s \<longleftrightarrow> length s = 25 \<and> list_all is_digit (take 8 s) \<and> s ! 8 = CHR ''T''
     \<and> list_all is_digit (take 6 (drop 9 s)) \<and> s ! 15 = CHR ''Z'' \<and> s ! 16 = CHR ''-''
     \<and> list_all is_lower_hex (drop 17 s)"

definition safe_job_id :: "string \<Rightarrow> job_exc + string" where
  "safe_job_id job_id = (let rid = strip job_id in
     if rid = [] \<or> \<not> JOB_ID_RE rid then Inl (JobErr E_JOB_UNKNOWN) else Inr rid)"

definition utc_now :: "int \<Rightarrow> json" where
  "utc_now now = JTime (Aware now)"

section \<open>Reading and writing a record\<close>

definition read_job_record :: "job_store \<Rightarrow> string \<Rightarrow> job_exc + job_record" where
  "read_job_record s job_id =
     bindE (safe_job_id job_id) (\<lambda>jid.
     case get_dir s jid of
       None \<Rightarrow> Inl (JobErr E_JOB_UNKNOWN)
     | Some d \<Rightarrow> (case jd_job d of
         None \<Rightarrow> Inl (JobErr E_JOB_UNKNOWN)
       | Some Unreadable \<Rightarrow> Inl job_malformed
       | Some (Doc v) \<Rightarrow>
           bindE (check (is_obj v) job_malformed) (\<lambda>_.
           bindE (from_dict v) (\<lambda>r.
           bindE (check (j_job_id r = JStr jid) job_malformed) (\<lambda>_. Inr r)))))"

definition stamp_record :: "int \<Rightarrow> job_record \<Rightarrow> job_record" where
  "stamp_record now r = r\<lparr>j_updated_at := utc_now now, j_generation := j_generation r + 1\<rparr>"

definition write_job_record :: "int \<Rightarrow> job_record \<Rightarrow> job_store \<Rightarrow> job_exc + job_store" where
  "write_job_record now r s =
     bindE (case j_job_id r of JStr j \<Rightarrow> safe_job_id j | _ \<Rightarrow> Inl (JobErr E_JOB_UNKNOWN)) (\<lambda>jid.
     case get_dir s jid of
       None \<Rightarrow> Inl (JobErr E_JOB_STORE)
     | Some d \<Rightarrow> Inr (put_dir jid
         (d\<lparr>jd_job := Some (Doc (JObj (to_dict (stamp_record now r))))\<rparr>) s))"

type_synonym 'a outcome = "(job_exc + 'a) \<times> job_store"

definition locked_update ::
    "(job_record \<Rightarrow> job_exc + job_record) \<Rightarrow> string \<Rightarrow> int \<Rightarrow> job_store \<Rightarrow> job_record outcome" where
  \<comment> \<open>\<open>with job_lock: record = read(); ...; write(record); return read()\<close>\<close>
  "locked_update f job_id now s =
     (case bindE (read_job_record s job_id) f of
       Inl e \<Rightarrow> (Inl e, s)
     | Inr r \<Rightarrow> (case write_job_record now r s of
         Inl e \<Rightarrow> (Inl e, s)
       | Inr s' \<Rightarrow> (read_job_record s' job_id, s')))"

definition create_job_dir ::
    "string \<Rightarrow> string \<Rightarrow> string \<Rightarrow> json \<Rightarrow> dict \<Rightarrow> json \<Rightarrow> string option \<Rightarrow> string \<Rightarrow> json \<Rightarrow> int \<Rightarrow>
     job_store \<Rightarrow> job_record outcome" where
  \<comment> \<open>provider, role, prompt, run id, worker, request, job id, the id \<open>make_job_id\<close> returns, budget\<close>
  "create_job_dir provider role prompt_text run_id worker request job_id made attempt_budget now s =
     (case bindE (case job_id of
             None \<Rightarrow> if JOB_ID_RE made then Inr made else Inl (JobErr E_JOB_STORE)
           | Some j \<Rightarrow> if j = [] then (if JOB_ID_RE made then Inr made else Inl (JobErr E_JOB_STORE))
               else safe_job_id j) (\<lambda>jid.
           bindE (job_int E_JOB_RETRY_BUDGET attempt_budget) (\<lambda>budget.
           bindE (check (1 \<le> budget) (JobErr E_JOB_RETRY_BUDGET)) (\<lambda>_.
           bindE (check (get_dir s jid = None) (JobErr E_JOB_STORE)) (\<lambda>_. Inr (jid, budget))))) of
       Inl e \<Rightarrow> (Inl e, s)
     | Inr (jid, budget) \<Rightarrow>
         (let d = \<lparr>jd_job = None, jd_prompt = prompt_text, jd_stdout = Some [],
                jd_stderr = Some [], jd_events = Some [], jd_artifacts = [], jd_attempts = Map.empty\<rparr>;
              r = \<lparr>j_job_id = JStr jid, j_created_at = utc_now now, j_provider = JStr provider,
                j_role = JStr role, j_state = QUEUED, j_attempt = 1, j_schema = 1,
                j_generation = 0, j_pid = JNull, j_pgid = JNull, j_handle = JNull,
                j_pid_starttime = JNull, j_prompt = JStr ''prompt.md'', j_result = JNull,
                j_artifacts = [], j_exit = JNull, j_usage = JNull,
                j_stdout = JStr ''stdout.jsonl'', j_stderr = JStr ''stderr.jsonl'',
                j_events = JStr ''events.jsonl'', j_run_id = run_id, j_updated_at = utc_now now,
                j_cancel_reason = JNull, j_cancel_requested_at = JNull, j_worker = worker,
                j_error_message = JNull,
                j_request = (case request of JObj q \<Rightarrow> q | _ \<Rightarrow> default_request),
                j_provider_process = default_provider_process, j_session = JNull,
                j_attempt_budget = budget, j_retry_class = JNull, j_retry_reason = JNull,
                j_terminal_at = JNull, j_attempt_started_at = JNull, j_owner_lease = JNull,
                j_last_observed_at = JNull, j_recovery = JNull\<rparr>;
              s1 = put_dir jid d s
          in case write_job_record now r s1 of
               Inl e \<Rightarrow> (Inl e, s1)
             | Inr s2 \<Rightarrow> (read_job_record s2 jid, s2)))"

section \<open>Field updates\<close>

definition set_dict_field :: "(dict \<Rightarrow> job_record) \<Rightarrow> json \<Rightarrow> job_exc + job_record" where
  \<comment> \<open>a dictionary attribute: null stands for an empty one when it is written\<close>
  "set_dict_field upd v = (case v of
     JObj d \<Rightarrow> Inr (upd d)
   | _ \<Rightarrow> if truthy v then Inl (PyExc TypeError) else Inr (upd []))"

definition raw_int :: "json \<Rightarrow> job_exc + int" where
  "raw_int v = (case py_int v of Inl e \<Rightarrow> Inl (PyExc e) | Inr i \<Rightarrow> Inr i)"

type_synonym setter = "json \<Rightarrow> job_record \<Rightarrow> job_exc + job_record"

definition field_setters :: "(string \<times> setter) list" where
  \<comment> \<open>the attributes of \<open>JobRecord\<close> that an update may name, with the assignment; the
      conversions that \<open>to_dict\<close> applies before the write are applied here\<close>
  "field_setters = [
     (''attempt'', \<lambda>v r. bindE (raw_int v) (\<lambda>i. Inr (r\<lparr>j_attempt := i\<rparr>))),
     (''generation'', \<lambda>v r. bindE (raw_int v) (\<lambda>i. Inr (r\<lparr>j_generation := i\<rparr>))),
     (''artifacts'', \<lambda>v r. case v of JList xs \<Rightarrow> Inr (r\<lparr>j_artifacts := xs\<rparr>)
        | _ \<Rightarrow> Inl (PyExc TypeError)),
     (''worker'', \<lambda>v r. set_dict_field (\<lambda>d. r\<lparr>j_worker := d\<rparr>) v),
     (''provider_process'', \<lambda>v r. set_dict_field (\<lambda>d. r\<lparr>j_provider_process := d\<rparr>) v),
     (''pid'', \<lambda>v r. Inr (r\<lparr>j_pid := v\<rparr>)),
     (''pgid'', \<lambda>v r. Inr (r\<lparr>j_pgid := v\<rparr>)),
     (''handle'', \<lambda>v r. Inr (r\<lparr>j_handle := v\<rparr>)),
     (''pid_starttime'', \<lambda>v r. Inr (r\<lparr>j_pid_starttime := v\<rparr>)),
     (''prompt'', \<lambda>v r. Inr (r\<lparr>j_prompt := v\<rparr>)),
     (''result'', \<lambda>v r. Inr (r\<lparr>j_result := v\<rparr>)),
     (''exit'', \<lambda>v r. Inr (r\<lparr>j_exit := v\<rparr>)),
     (''usage'', \<lambda>v r. Inr (r\<lparr>j_usage := v\<rparr>)),
     (''stdout'', \<lambda>v r. Inr (r\<lparr>j_stdout := v\<rparr>)),
     (''stderr'', \<lambda>v r. Inr (r\<lparr>j_stderr := v\<rparr>)),
     (''events'', \<lambda>v r. Inr (r\<lparr>j_events := v\<rparr>)),
     (''run_id'', \<lambda>v r. Inr (r\<lparr>j_run_id := v\<rparr>)),
     (''updated_at'', \<lambda>v r. Inr (r\<lparr>j_updated_at := v\<rparr>)),
     (''cancel_reason'', \<lambda>v r. Inr (r\<lparr>j_cancel_reason := v\<rparr>)),
     (''cancel_requested_at'', \<lambda>v r. Inr (r\<lparr>j_cancel_requested_at := v\<rparr>)),
     (''error_message'', \<lambda>v r. Inr (r\<lparr>j_error_message := v\<rparr>)),
     (''session'', \<lambda>v r. Inr (r\<lparr>j_session := v\<rparr>)),
     (''retry_class'', \<lambda>v r. Inr (r\<lparr>j_retry_class := v\<rparr>)),
     (''retry_reason'', \<lambda>v r. Inr (r\<lparr>j_retry_reason := v\<rparr>)),
     (''terminal_at'', \<lambda>v r. Inr (r\<lparr>j_terminal_at := v\<rparr>)),
     (''attempt_started_at'', \<lambda>v r. Inr (r\<lparr>j_attempt_started_at := v\<rparr>)),
     (''owner_lease'', \<lambda>v r. Inr (r\<lparr>j_owner_lease := v\<rparr>)),
     (''last_observed_at'', \<lambda>v r. Inr (r\<lparr>j_last_observed_at := v\<rparr>)),
     (''recovery'', \<lambda>v r. Inr (r\<lparr>j_recovery := v\<rparr>))]"

definition set_field :: "string \<Rightarrow> json \<Rightarrow> job_record \<Rightarrow> job_exc + job_record" where
  \<comment> \<open>\<open>if not hasattr(record, key): raise ...; setattr(record, key, value)\<close>\<close>
  "set_field key v r = (case map_of field_setters key of
     None \<Rightarrow> Inl (JobErr E_JOB_STORE)
   | Some assign \<Rightarrow> assign v r)"

fun apply_field_updates :: "job_record \<Rightarrow> dict \<Rightarrow> job_exc + job_record" where
  "apply_field_updates r [] = Inr r"
| "apply_field_updates r ((key, v) # updates) =
     bindE (check (key \<notin> IMMUTABLE_FIELDS) (JobErr E_JOB_STORE)) (\<lambda>_.
     bindE (check (key \<noteq> ''state'') (JobErr E_JOB_STORE)) (\<lambda>_.
     bindE (set_field key v r) (\<lambda>r'. apply_field_updates r' updates)))"

section \<open>Transitions\<close>

definition py_or :: "json \<Rightarrow> json \<Rightarrow> json" where
  "py_or a b = (if truthy a then a else b)"

definition coerce_terminal_under_cancel_request ::
    "job_record \<Rightarrow> job_state \<Rightarrow> dict \<Rightarrow> int \<Rightarrow> job_state \<times> dict" where
  "coerce_terminal_under_cancel_request r new_state updates now =
     (if \<not> truthy (j_cancel_requested_at r) then (new_state, updates)
      else if new_state \<notin> {SUCCEEDED, FAILED} then (new_state, updates)
      else
        (let prior_exit = (case dget updates ''exit'' of JObj d \<Rightarrow> d | _ \<Rightarrow> []);
             exit1 = dset (dset (dset prior_exit ''class'' (JStr ''cancelled'')) ''ok'' (JBool False))
                       ''cancelled'' (JBool True);
             exit2 = (if dget exit1 ''returncode'' = JNull
                      then dset exit1 ''returncode'' (JInt (- 15)) else exit1);
             coerced = classified_terminal_updates (Some CANCELLED) (JObj exit2)
               [(''cancel_reason'', py_or (j_cancel_reason r)
                  (py_or (dget updates ''cancel_reason'') (JStr ''operator'')))] now;
             out = filter (\<lambda>(k, v). v \<noteq> JNull \<or> has_key updates k) (dmerge updates coerced)
         in (CANCELLED,
             if \<not> truthy (dget out ''cancel_reason'')
             then dset out ''cancel_reason'' (py_or (j_cancel_reason r) (JStr ''operator''))
             else out)))"

definition lease_option_json :: "lease option \<Rightarrow> json" where
  "lease_option_json l = (case l of None \<Rightarrow> JNull | Some l \<Rightarrow> lease_obj l)"

definition finish_transition :: "job_record \<Rightarrow> job_state \<Rightarrow> dict \<Rightarrow> job_exc + job_record" where
  \<comment> \<open>\<open>_apply_field_updates(record, merged); record.state = new_state\<close>\<close>
  "finish_transition r new_state merged =
     bindE (apply_field_updates r merged) (\<lambda>r'. Inr (r'\<lparr>j_state := new_state\<rparr>))"

definition transition_step :: "job_state \<Rightarrow> dict \<Rightarrow> int \<Rightarrow> job_record \<Rightarrow> job_exc + job_record" where
  "transition_step new_state updates now r =
     (let (st, merged) = coerce_terminal_under_cancel_request r new_state updates now in
      bindE (assert_transition (j_state r) st) (\<lambda>_.
      bindE (if st \<in> TERMINAL_STATES \<and> \<not> has_key merged ''owner_lease'' \<and> j_owner_lease r \<noteq> JNull
             then bindE (release_lease_dict (j_owner_lease r) now)
                    (\<lambda>l. Inr (dset merged ''owner_lease'' (lease_option_json l)))
             else Inr merged) (\<lambda>merged'.
      finish_transition r st merged')))"

definition transition_job ::
    "string \<Rightarrow> job_state \<Rightarrow> dict \<Rightarrow> int \<Rightarrow> job_store \<Rightarrow> job_record outcome" where
  "transition_job job_id new_state updates now =
     locked_update (transition_step new_state updates now) job_id now"

definition update_job_fields :: "string \<Rightarrow> dict \<Rightarrow> int \<Rightarrow> job_store \<Rightarrow> job_record outcome" where
  "update_job_fields job_id updates now =
     locked_update (\<lambda>r. apply_field_updates r updates) job_id now"

definition opt_eq :: "'a option \<Rightarrow> ('a \<Rightarrow> bool) \<Rightarrow> bool" where
  \<comment> \<open>\<open>expected is not None and not p(expected)\<close> does not hold\<close>
  "opt_eq expected p = (case expected of None \<Rightarrow> True | Some x \<Rightarrow> p x)"

definition lease_owner_token :: "json \<Rightarrow> json" where
  "lease_owner_token v = (case v of JObj d \<Rightarrow> dget d ''owner_token'' | _ \<Rightarrow> JNull)"

record cas_expectation =
  x_generation :: int
  x_state :: "job_state option"
  x_attempt :: "int option"
  x_owner_token :: "string option"
  x_pid :: "int option"
  x_pgid :: "int option"

definition cas_matches :: "cas_expectation \<Rightarrow> job_record \<Rightarrow> bool" where
  "cas_matches x r \<longleftrightarrow> j_generation r = x_generation x
     \<and> opt_eq (x_state x) (\<lambda>st. j_state r = st)
     \<and> opt_eq (x_attempt x) (\<lambda>a. j_attempt r = a)
     \<and> opt_eq (x_pid x) (\<lambda>p. py_eq (j_pid r) (JInt p))
     \<and> opt_eq (x_pgid x) (\<lambda>p. py_eq (j_pgid r) (JInt p))
     \<and> opt_eq (x_owner_token x) (\<lambda>t. lease_owner_token (j_owner_lease r) = JStr t)"

definition compare_and_transition_step ::
    "cas_expectation \<Rightarrow> job_state \<Rightarrow> dict \<Rightarrow> int \<Rightarrow> job_record \<Rightarrow> job_exc + job_record" where
  "compare_and_transition_step x new_state updates now r =
     bindE (check (cas_matches x r) (JobErr E_JOB_RECOVERY_CONFLICT)) (\<lambda>_.
     let (st, merged) = coerce_terminal_under_cancel_request r new_state updates now in
     bindE (assert_transition (j_state r) st) (\<lambda>_. finish_transition r st merged))"

definition compare_and_transition_job ::
    "string \<Rightarrow> job_state \<Rightarrow> cas_expectation \<Rightarrow> dict \<Rightarrow> int \<Rightarrow> job_store \<Rightarrow> job_record outcome" where
  "compare_and_transition_job job_id new_state x updates now =
     locked_update (compare_and_transition_step x new_state updates now) job_id now"

section \<open>Operations of the owner\<close>

record owner =
  o_attempt :: int
  o_token :: string
  o_pid :: int

definition fenced :: job_exc where
  "fenced = JobErr E_JOB_LEASE_FENCED"

definition pid_is :: "json \<Rightarrow> int \<Rightarrow> job_exc + bool" where
  \<comment> \<open>\<open>pid is not None and int(pid) == expected\<close>\<close>
  "pid_is pid expected = (if pid = JNull then Inr False
     else bindE (raw_int pid) (\<lambda>p. Inr (p = expected)))"

definition assert_owner_fence :: "job_record \<Rightarrow> owner \<Rightarrow> job_exc + unit" where
  "assert_owner_fence r w =
     bindE (check (j_state r = RUNNING) fenced) (\<lambda>_.
     bindE (check (j_attempt r = o_attempt w) fenced) (\<lambda>_.
     bindE (pid_is (j_pid r) (o_pid w)) (\<lambda>same.
     bindE (check same fenced) (\<lambda>_.
     bindE (check (is_obj (j_owner_lease r)) fenced) (\<lambda>_.
     bindE (case validate_owner_lease (j_owner_lease r) (Some (o_attempt w)) True of
              Inl e \<Rightarrow> if e = lease_malformed then Inl fenced else Inl e
            | Inr l \<Rightarrow> Inr l) (\<lambda>validated.
     check (owner_token validated = o_token w) fenced))))))"

definition renew_step :: "owner \<Rightarrow> int \<Rightarrow> job_record \<Rightarrow> job_exc + job_record" where
  "renew_step w now r =
     bindE (assert_owner_fence r w) (\<lambda>_.
     bindE (renew_lease_dict (py_or (j_owner_lease r) (JObj [])) now DEFAULT_JOB_LEASE_TTL) (\<lambda>l.
     Inr (r\<lparr>j_owner_lease := lease_obj l\<rparr>)))"

definition renew_owner_lease :: "string \<Rightarrow> owner \<Rightarrow> int \<Rightarrow> job_store \<Rightarrow> job_record outcome" where
  "renew_owner_lease job_id w now = locked_update (renew_step w now) job_id now"

definition owned_update_step :: "owner \<Rightarrow> dict \<Rightarrow> job_record \<Rightarrow> job_exc + job_record" where
  "owned_update_step w updates r =
     bindE (assert_owner_fence r w) (\<lambda>_. apply_field_updates r updates)"

definition update_owned_job_fields ::
    "string \<Rightarrow> owner \<Rightarrow> dict \<Rightarrow> int \<Rightarrow> job_store \<Rightarrow> job_record outcome" where
  "update_owned_job_fields job_id w updates now =
     locked_update (owned_update_step w updates) job_id now"

definition owned_transition_step ::
    "job_state \<Rightarrow> owner \<Rightarrow> dict \<Rightarrow> int \<Rightarrow> job_record \<Rightarrow> job_exc + job_record" where
  "owned_transition_step new_state w updates now r =
     bindE (assert_owner_fence r w) (\<lambda>_.
     let (st, merged) = coerce_terminal_under_cancel_request r new_state updates now in
     bindE (assert_transition (j_state r) st) (\<lambda>_.
     bindE (if st \<in> TERMINAL_STATES \<and> \<not> has_key merged ''owner_lease''
            then bindE (release_lease_dict (j_owner_lease r) now)
                   (\<lambda>l. Inr (dset merged ''owner_lease'' (lease_option_json l)))
            else Inr merged) (\<lambda>merged'.
     finish_transition r st merged')))"

definition transition_owned_job ::
    "string \<Rightarrow> job_state \<Rightarrow> owner \<Rightarrow> dict \<Rightarrow> int \<Rightarrow> job_store \<Rightarrow> job_record outcome" where
  "transition_owned_job job_id new_state w updates now =
     locked_update (owned_transition_step new_state w updates now) job_id now"

section \<open>The provider process\<close>

definition provider_guard ::
    "job_code \<Rightarrow> int \<Rightarrow> int \<Rightarrow> string option \<Rightarrow> job_record \<Rightarrow> job_exc + unit" where
  \<comment> \<open>the common prefix of \<open>mark_provider_launching\<close> and \<open>bind_provider_process\<close>\<close>
  "provider_guard c runner_pid attempt token r =
     bindE (check (j_state r = RUNNING) (JobErr c)) (\<lambda>_.
     bindE (check (j_attempt r = attempt) (JobErr c)) (\<lambda>_.
     bindE (pid_is (j_pid r) runner_pid) (\<lambda>same.
     bindE (check same (JobErr c)) (\<lambda>_.
     bindE (if token \<noteq> None \<or> j_owner_lease r \<noteq> JNull then
              (let t = (case token of Some t \<Rightarrow> t
                 | None \<Rightarrow> (let v = lease_owner_token (j_owner_lease r) in
                     if truthy v then text_of v else [])) in
               bindE (check (t \<noteq> []) fenced) (\<lambda>_.
               assert_owner_fence r \<lparr>o_attempt = attempt, o_token = t, o_pid = runner_pid\<rparr>))
            else Inr ()) (\<lambda>_.
     check (\<not> truthy (j_cancel_requested_at r)) (JobErr E_JOB_CANCEL_UNPROVEN))))))"

definition provider_process_of :: "job_record \<Rightarrow> dict" where
  \<comment> \<open>\<open>dict(record.provider_process or default_provider_process())\<close>\<close>
  "provider_process_of r = (if j_provider_process r \<noteq> [] then j_provider_process r
     else default_provider_process)"

definition pp_state_in :: "dict \<Rightarrow> string set \<Rightarrow> bool" where
  "pp_state_in pp ss \<longleftrightarrow> (\<exists>s \<in> ss. dget pp ''state'' = JStr s)"

definition launching_step :: "int \<Rightarrow> int \<Rightarrow> string option \<Rightarrow> job_record \<Rightarrow> job_exc + job_record" where
  "launching_step runner_pid attempt token r =
     bindE (provider_guard E_JOB_STORE runner_pid attempt token r) (\<lambda>_.
     let pp = provider_process_of r in
     bindE (check (pp_state_in pp {''pending'', ''launching''}) (JobErr E_JOB_STORE)) (\<lambda>_.
     Inr (r\<lparr>j_provider_process := dset pp ''state'' (JStr ''launching'')\<rparr>)))"

definition mark_provider_launching ::
    "string \<Rightarrow> int \<Rightarrow> int \<Rightarrow> string option \<Rightarrow> int \<Rightarrow> job_store \<Rightarrow> job_record outcome" where
  "mark_provider_launching job_id runner_pid attempt token now =
     locked_update (launching_step runner_pid attempt token) job_id now"

record provider_binding =
  b_pid :: int
  b_pgid :: int
  b_pid_starttime :: json
  b_handle :: string

definition bind_step ::
    "provider_binding \<Rightarrow> int \<Rightarrow> int \<Rightarrow> string option \<Rightarrow> int \<Rightarrow> job_record \<Rightarrow> job_exc + job_record" where
  "bind_step b runner_pid attempt token now r =
     bindE (provider_guard E_JOB_CANCEL_UNPROVEN runner_pid attempt token r) (\<lambda>_.
     let pp = provider_process_of r in
     bindE (check (\<not> (dget pp ''state'' = JStr ''bound'' \<and> dget pp ''pid'' \<noteq> JNull))
              (JobErr E_JOB_CANCEL_UNPROVEN)) (\<lambda>_.
     bindE (check (pp_state_in pp {''pending'', ''launching''}) (JobErr E_JOB_CANCEL_UNPROVEN)) (\<lambda>_.
     bindE (check (\<not> (b_pid b \<le> 1 \<or> b_pgid b \<le> 1)) (JobErr E_JOB_CANCEL_UNPROVEN)) (\<lambda>_.
     Inr (r\<lparr>j_provider_process := [(''state'', JStr ''bound''), (''pid'', JInt (b_pid b)),
        (''pgid'', JInt (b_pgid b)), (''pid_starttime'', b_pid_starttime b),
        (''handle'', JStr (b_handle b)), (''bound_at'', utc_now now), (''exited_at'', JNull)]\<rparr>)))))"

definition bind_provider_process ::
    "string \<Rightarrow> provider_binding \<Rightarrow> int \<Rightarrow> int \<Rightarrow> string option \<Rightarrow> int \<Rightarrow> job_store \<Rightarrow> job_record outcome" where
  "bind_provider_process job_id b runner_pid attempt token now =
     locked_update (bind_step b runner_pid attempt token now) job_id now"

definition exited_step :: "int \<Rightarrow> job_record \<Rightarrow> job_exc + job_record" where
  "exited_step now r = Inr (r\<lparr>j_provider_process :=
     dset (dset (provider_process_of r) ''state'' (JStr ''exited'')) ''exited_at'' (utc_now now)\<rparr>)"

definition mark_provider_exited :: "string \<Rightarrow> int \<Rightarrow> job_store \<Rightarrow> job_record outcome" where
  "mark_provider_exited job_id now s =
     (case read_job_record s job_id of
       Inl e \<Rightarrow> (Inl e, s)
     | Inr r \<Rightarrow>
         if pp_state_in (provider_process_of r) {''bound'', ''launching'', ''exited''}
         then locked_update (exited_step now) job_id now s
         else (read_job_record s job_id, s))"

definition cancel_request_step :: "string option \<Rightarrow> int \<Rightarrow> job_record \<Rightarrow> job_exc + job_record" where
  "cancel_request_step reason now r =
     (let r1 = (if \<not> truthy (j_cancel_requested_at r)
                then r\<lparr>j_cancel_requested_at := utc_now now\<rparr> else r)
      in Inr (case reason of Some (c # cs) \<Rightarrow> r1\<lparr>j_cancel_reason := JStr (c # cs)\<rparr> | _ \<Rightarrow> r1))"

definition mark_cancel_requested ::
    "string \<Rightarrow> string option \<Rightarrow> int \<Rightarrow> job_store \<Rightarrow> job_record outcome" where
  "mark_cancel_requested job_id reason now s =
     (case read_job_record s job_id of
       Inl e \<Rightarrow> (Inl e, s)
     | Inr r \<Rightarrow>
         if j_state r \<in> TERMINAL_STATES then (Inr r, s)
         else locked_update (cancel_request_step reason now) job_id now s)"

definition list_job_ids :: "job_store \<Rightarrow> string list" where
  "list_job_ids s = sort (map fst (filter (\<lambda>(jid, d). JOB_ID_RE jid \<and> jd_job d \<noteq> None) (jobs s)))"

end
