(* ===== verification/JobStoreFacts.thy ===== *)
theory JobStoreFacts
  imports JobStore
begin

text \<open>
  What an operation of the store does, once for all operations: \<open>locked_update\<close> reads a
  well-formed record, writes one record and returns it as the reader sees it; a field update
  keeps the immutable fields and the state; the coercion under a cancel request.  The
  properties of the transitions, the owner fence and the provider binding follow.
\<close>

section \<open>Job ids\<close>

lemma is_digit_not_space: "is_digit c \<Longrightarrow> \<not> is_space c"
  by (auto simp: is_digit_def is_space_def Let_def)

lemma is_lower_hex_not_space: "is_lower_hex c \<Longrightarrow> \<not> is_space c"
  by (auto simp: is_lower_hex_def is_digit_def is_space_def Let_def)

lemma strip_id:
  assumes "s \<noteq> []" "\<not> is_space (hd s)" "\<not> is_space (last s)"
  shows "strip s = s"
proof -
  have "dropWhile is_space s = s" using assms by (cases s) auto
  moreover have "dropWhile is_space (rev s) = rev s"
    using assms by (cases s rule: rev_cases) auto
  ultimately show ?thesis by (simp add: strip_def)
qed

lemma strip_job_id: "JOB_ID_RE s \<Longrightarrow> strip s = s"
proof -
  assume re: "JOB_ID_RE s"
  then have len: "length s = 25" by (simp add: JOB_ID_RE_def)
  have "hd s \<in> set (take 8 s)" using len by (cases s) auto
  then have "is_digit (hd s)" using re by (auto simp: JOB_ID_RE_def list_all_iff)
  moreover have "last (drop 17 s) = last s" "drop 17 s \<noteq> []"
    using len by simp_all
  then have "last s \<in> set (drop 17 s)" by (metis last_in_set)
  then have "is_lower_hex (last s)" using re by (auto simp: JOB_ID_RE_def list_all_iff)
  moreover have "s \<noteq> []" using len by auto
  ultimately show ?thesis using strip_id is_digit_not_space is_lower_hex_not_space by blast
qed

lemma safe_job_id_Inr: "safe_job_id j = Inr jid \<longleftrightarrow> jid = strip j \<and> JOB_ID_RE jid"
proof -
  have "JOB_ID_RE x \<Longrightarrow> x \<noteq> []" for x by (auto simp: JOB_ID_RE_def)
  then show ?thesis by (auto simp: safe_job_id_def Let_def)
qed

lemma safe_job_id_idem: "safe_job_id j = Inr jid \<Longrightarrow> safe_job_id jid = Inr jid"
  by (metis safe_job_id_Inr strip_job_id)

section \<open>Reading\<close>

lemma read_Inr: "read_job_record s j = Inr r \<longleftrightarrow> (\<exists>jid d v.
    safe_job_id j = Inr jid \<and> get_dir s jid = Some d \<and> jd_job d = Some (Doc v)
    \<and> from_dict v = Inr r \<and> j_job_id r = JStr jid)"
  (is "?L \<longleftrightarrow> ?R")
proof
  assume ?L
  then obtain jid where jid: "safe_job_id j = Inr jid"
    by (auto simp: read_job_record_def result_simps)
  with \<open>?L\<close> show ?R
    by (cases "get_dir s jid"; cases "jd_job (the (get_dir s jid))"; cases "the (jd_job (the (get_dir s jid)))")
      (auto simp: read_job_record_def result_simps)
next
  assume ?R
  then obtain jid d v where *: "safe_job_id j = Inr jid" "get_dir s jid = Some d"
      "jd_job d = Some (Doc v)" "from_dict v = Inr r" "j_job_id r = JStr jid"
    by blast
  moreover from this(4) have "is_obj v"
    by (cases v) (auto simp: from_dict_def)
  ultimately show ?L
    by (auto simp: read_job_record_def)
qed

lemma read_inv: "read_job_record s j = Inr r \<Longrightarrow> job_inv r"
  by (auto simp: read_Inr dest: from_dict_inv)

lemma read_safe: "read_job_record s j = Inr r \<Longrightarrow> \<exists>jid. safe_job_id j = Inr jid \<and> j_job_id r = JStr jid"
  by (auto simp: read_Inr)

section \<open>What survives a write and a read\<close>

definition same_identity :: "job_record \<Rightarrow> job_record \<Rightarrow> bool" where
  "same_identity r r' \<longleftrightarrow> j_job_id r' = j_job_id r \<and> j_created_at r' = j_created_at r
     \<and> j_provider r' = j_provider r \<and> j_role r' = j_role r \<and> j_schema r' = j_schema r
     \<and> j_request r' = j_request r \<and> j_attempt_budget r' = j_attempt_budget r"

lemma reread_fields:
  assumes "from_dict (JObj (to_dict r)) = Inr r'"
  shows "j_state r' = j_state r \<and> j_attempt r' = j_attempt r \<and> j_generation r' = j_generation r
    \<and> j_job_id r' = j_job_id r \<and> j_created_at r' = j_created_at r \<and> j_provider r' = j_provider r
    \<and> j_role r' = j_role r \<and> j_schema r' = j_schema r \<and> j_attempt_budget r' = j_attempt_budget r
    \<and> j_pid r' = j_pid r \<and> j_pgid r' = j_pgid r \<and> j_exit r' = j_exit r
    \<and> j_retry_class r' = j_retry_class r \<and> j_last_observed_at r' = j_last_observed_at r
    \<and> read_request (to_dict r) = Inr (j_request r')
    \<and> read_owner_lease (to_dict r) (j_attempt r) = Inr (j_owner_lease r')
    \<and> read_provider_process (to_dict r) = Inr (j_provider_process r')
    \<and> j_cancel_requested_at r' = str_or_none (to_dict r) ''cancel_requested_at''"
proof -
  note unfolded = assms [unfolded from_dict_def json.case result_simps]
  show ?thesis
    by (insert unfolded, elim exE conjE, drule sum.inject(2) [THEN iffD1], hypsubst_thin)
      simp
qed

lemma reread_identity:
  assumes "from_dict (JObj (to_dict r)) = Inr r'"
    and "dmerge default_request (j_request r) = j_request r"
  shows "same_identity r r'"
proof -
  have "j_request r \<noteq> []"
    using dmerge_nonempty [of default_request "j_request r"] assms(2) by auto
  then have "read_request (to_dict r) = Inr (j_request r)"
    using assms(2) by (simp add: read_request_def)
  then show ?thesis
    using reread_fields [OF assms(1)] by (simp add: same_identity_def)
qed

section \<open>A locked update\<close>

definition with_record :: "string \<Rightarrow> job_record \<Rightarrow> job_store \<Rightarrow> job_store" where
  "with_record jid r s = (case get_dir s jid of
     None \<Rightarrow> s
   | Some d \<Rightarrow> put_dir jid (d\<lparr>jd_job := Some (Doc (JObj (to_dict r)))\<rparr>) s)"

lemma locked_update_Inl:
  "read_job_record s j = Inl e \<Longrightarrow> locked_update f j now s = (Inl e, s)"
  "read_job_record s j = Inr r \<Longrightarrow> f r = Inl e \<Longrightarrow> locked_update f j now s = (Inl e, s)"
  by (simp_all add: locked_update_def)

lemma stamp_record_fields [simp]:
  "j_job_id (stamp_record now r) = j_job_id r" "j_state (stamp_record now r) = j_state r"
  "j_attempt (stamp_record now r) = j_attempt r" "j_request (stamp_record now r) = j_request r"
  "j_generation (stamp_record now r) = j_generation r + 1"
  "j_owner_lease (stamp_record now r) = j_owner_lease r"
  by (simp_all add: stamp_record_def)

lemma locked_update_write:
  assumes read: "read_job_record s j = Inr r" and f: "f r = Inr r1"
    and id: "j_job_id r1 = j_job_id r" and jid: "safe_job_id j = Inr jid"
  shows "locked_update f j now s =
    (from_dict (JObj (to_dict (stamp_record now r1))), with_record jid (stamp_record now r1) s)"
proof -
  obtain d where d: "get_dir s jid = Some d" and r1: "j_job_id r1 = JStr jid"
    using read jid id by (auto simp: read_Inr)
  have "write_job_record now r1 s = Inr (with_record jid (stamp_record now r1) s)"
    using safe_job_id_idem [OF jid] d r1 by (simp add: write_job_record_def with_record_def)
  moreover have "read_job_record (with_record jid (stamp_record now r1) s) j =
      from_dict (JObj (to_dict (stamp_record now r1)))"
    using d jid r1 by (cases "from_dict (JObj (to_dict (stamp_record now r1)))")
      (auto simp: read_job_record_def with_record_def dest!: reread_fields)
  ultimately show ?thesis using read f by (simp add: locked_update_def)
qed

section \<open>Field updates\<close>

definition updates_frame :: "dict \<Rightarrow> job_record \<Rightarrow> job_record \<Rightarrow> bool" where
  "updates_frame d r r' \<longleftrightarrow> same_identity r r' \<and> j_state r' = j_state r
     \<and> (\<not> has_key d ''attempt'' \<longrightarrow> j_attempt r' = j_attempt r)
     \<and> (\<not> has_key d ''generation'' \<longrightarrow> j_generation r' = j_generation r)
     \<and> (\<not> has_key d ''owner_lease'' \<longrightarrow> j_owner_lease r' = j_owner_lease r)
     \<and> (\<not> has_key d ''cancel_requested_at'' \<longrightarrow> j_cancel_requested_at r' = j_cancel_requested_at r)
     \<and> (\<not> has_key d ''exit'' \<longrightarrow> j_exit r' = j_exit r)
     \<and> (\<not> has_key d ''retry_class'' \<longrightarrow> j_retry_class r' = j_retry_class r)
     \<and> (\<not> has_key d ''pid'' \<longrightarrow> j_pid r' = j_pid r)"

lemma set_dict_field_Inr:
  "set_dict_field upd v = Inr r' \<Longrightarrow> \<exists>d. r' = upd d"
  by (auto simp: set_dict_field_def split: json.split_asm if_split_asm)

lemma field_setters_frame:
  "\<forall>(key, assign) \<in> set field_setters. \<forall>v r r'.
     assign v r = Inr r' \<longrightarrow> updates_frame [(key, v)] r r'"
  unfolding field_setters_def
  by (simp, intro conjI allI impI)
     (auto simp: updates_frame_def same_identity_def result_simps dest!: set_dict_field_Inr
       split: json.split_asm)

lemma set_field_frame: "set_field key v r = Inr r' \<Longrightarrow> updates_frame [(key, v)] r r'"
  using field_setters_frame
  by (auto simp: set_field_def split: option.split_asm dest!: map_of_SomeD)

lemma same_identity_trans: "same_identity r r' \<Longrightarrow> same_identity r' r'' \<Longrightarrow> same_identity r r''"
  by (simp add: same_identity_def)

lemma updates_frame_Cons:
  assumes "updates_frame [(k, v)] r r1" "updates_frame d r1 r'"
  shows "updates_frame ((k, v) # d) r r'"
proof -
  have "same_identity r r'"
    using assms same_identity_trans unfolding updates_frame_def by blast
  then show ?thesis
    using assms unfolding updates_frame_def by (elim conjE, intro conjI impI) simp_all
qed

lemma apply_field_updates_frame: "apply_field_updates r d = Inr r' \<Longrightarrow> updates_frame d r r'"
proof (induction r d rule: apply_field_updates.induct)
  case (1 r)
  then show ?case by (simp add: updates_frame_def same_identity_def)
next
  case (2 r key v d)
  then obtain r1 where r1: "set_field key v r = Inr r1" and r': "apply_field_updates r1 d = Inr r'"
      and checks: "key \<notin> IMMUTABLE_FIELDS" "key \<noteq> ''state''"
    by (auto simp: result_simps)
  have "updates_frame d r1 r'" using 2(1) [OF _ _ r1 r'] checks by simp
  then show ?case by (rule updates_frame_Cons [OF set_field_frame [OF r1]])
qed

lemma apply_field_updates_keys:
  "apply_field_updates r d = Inr r' \<Longrightarrow> has_key d k \<Longrightarrow>
     k \<notin> IMMUTABLE_FIELDS \<and> k \<noteq> ''state''"
  by (induction r d rule: apply_field_updates.induct) (auto simp: result_simps)

lemma set_field_assigns:
  "set_field ''exit'' v r = Inr (r\<lparr>j_exit := v\<rparr>)"
  "set_field ''retry_class'' v r = Inr (r\<lparr>j_retry_class := v\<rparr>)"
  "set_field ''owner_lease'' v r = Inr (r\<lparr>j_owner_lease := v\<rparr>)"
  by (simp_all add: set_field_def field_setters_def)

lemma apply_field_updates_assigned:
  assumes "apply_field_updates r d = Inr r'" "distinct (map fst d)"
  shows "map_of d ''exit'' = Some v \<Longrightarrow> j_exit r' = v"
    and "map_of d ''retry_class'' = Some v \<Longrightarrow> j_retry_class r' = v"
    and "map_of d ''owner_lease'' = Some v \<Longrightarrow> j_owner_lease r' = v"
proof -
  have "(map_of d ''exit'' = Some v \<longrightarrow> j_exit r' = v)
      \<and> (map_of d ''retry_class'' = Some v \<longrightarrow> j_retry_class r' = v)
      \<and> (map_of d ''owner_lease'' = Some v \<longrightarrow> j_owner_lease r' = v)"
    using assms
  proof (induction r d rule: apply_field_updates.induct)
    case (2 r key w d)
    then obtain r1 where r1: "set_field key w r = Inr r1" and r': "apply_field_updates r1 d = Inr r'"
        and checks: "key \<notin> IMMUTABLE_FIELDS" "key \<noteq> ''state''"
      by (auto simp: result_simps)
    have fresh: "\<not> has_key d key" using 2(3) by (simp add: has_key_def)
    have IH: "(map_of d ''exit'' = Some v \<longrightarrow> j_exit r' = v)
      \<and> (map_of d ''retry_class'' = Some v \<longrightarrow> j_retry_class r' = v)
      \<and> (map_of d ''owner_lease'' = Some v \<longrightarrow> j_owner_lease r' = v)"
      using 2(1) [OF _ _ r1 r'] checks 2(3) by simp
    have frame: "updates_frame d r1 r'" by (rule apply_field_updates_frame [OF r'])
    have set: "key = ''exit'' \<Longrightarrow> j_exit r1 = w" "key = ''retry_class'' \<Longrightarrow> j_retry_class r1 = w"
        "key = ''owner_lease'' \<Longrightarrow> j_owner_lease r1 = w"
      using r1 by (auto simp: set_field_assigns)
    consider "key = ''exit''" | "key = ''retry_class''" | "key = ''owner_lease''"
      | "''exit'' \<noteq> key \<and> ''retry_class'' \<noteq> key \<and> ''owner_lease'' \<noteq> key" by blast
    then show ?case
      using IH frame set fresh unfolding updates_frame_def
      by cases simp_all
  qed simp
  then show "map_of d ''exit'' = Some v \<Longrightarrow> j_exit r' = v"
    and "map_of d ''retry_class'' = Some v \<Longrightarrow> j_retry_class r' = v"
    and "map_of d ''owner_lease'' = Some v \<Longrightarrow> j_owner_lease r' = v" by blast+
qed

lemma finish_transition_Inr:
  "finish_transition r st d = Inr r' \<longleftrightarrow> (\<exists>r1. apply_field_updates r d = Inr r1 \<and> r' = r1\<lparr>j_state := st\<rparr>)"
  by (auto simp: finish_transition_def result_simps)

section \<open>The coercion under a cancel request\<close>

lemma coerce_state:
  "fst (coerce_terminal_under_cancel_request r st d now) =
     (if truthy (j_cancel_requested_at r) \<and> st \<in> {SUCCEEDED, FAILED} then CANCELLED else st)"
  by (simp add: coerce_terminal_under_cancel_request_def Let_def)

lemma coerce_unrequested:
  "\<not> (truthy (j_cancel_requested_at r) \<and> st \<in> {SUCCEEDED, FAILED}) \<Longrightarrow>
     coerce_terminal_under_cancel_request r st d now = (st, d)"
  by (auto simp: coerce_terminal_under_cancel_request_def)

lemma has_key_filter: "has_key (filter P d) k \<Longrightarrow> has_key d k"
  by (auto simp: has_key_def)

lemma has_key_dmerge: "has_key (dmerge d e) k \<longleftrightarrow> has_key d k \<or> has_key e k"
proof (induction e arbitrary: d)
  case (Cons x e)
  then show ?case by (cases x) auto
qed simp

lemma classified_updates_keys:
  "has_key (classified_terminal_updates st e extra now) k \<Longrightarrow>
     has_key extra k \<or> k \<in> {''terminal_at'', ''retry_class'', ''retry_reason'', ''exit''}"
  by (auto simp: classified_terminal_updates_def Let_def has_key_dmerge split: prod.split_asm if_split_asm)

lemma coerce_keys:
  "has_key (snd (coerce_terminal_under_cancel_request r st d now)) k \<Longrightarrow>
     has_key d k \<or> k \<in> {''terminal_at'', ''retry_class'', ''retry_reason'', ''exit'', ''cancel_reason''}"
  by (auto simp: coerce_terminal_under_cancel_request_def Let_def has_key_dmerge
      dest!: classified_updates_keys has_key_filter split: if_split_asm)

lemma distinct_dset: "distinct (map fst d) \<Longrightarrow> distinct (map fst (dset d k v))"
  by (simp add: keys_dset)

lemma distinct_dmerge: "distinct (map fst d) \<Longrightarrow> distinct (map fst (dmerge d e))"
  using keys_dmerge by blast

lemma distinct_filter_keys: "distinct (map fst d) \<Longrightarrow> distinct (map fst (filter P d))"
  by (simp add: distinct_map_filter)

lemma coerce_distinct:
  "distinct (map fst d) \<Longrightarrow> distinct (map fst (snd (coerce_terminal_under_cancel_request r st d now)))"
  by (auto simp: coerce_terminal_under_cancel_request_def Let_def
      intro!: distinct_dset distinct_filter_keys distinct_dmerge)

lemma map_of_filter_kept:
  "map_of d k = Some v \<Longrightarrow> distinct (map fst d) \<Longrightarrow> P (k, v) \<Longrightarrow> map_of (filter P d) k = Some v"
  using distinct_filter_keys [of d P] by (auto dest!: map_of_SomeD intro!: map_of_is_SomeI)

lemma coerced_exit:
  assumes "truthy (j_cancel_requested_at r)" "st \<in> {SUCCEEDED, FAILED}" "distinct (map fst d)"
  shows "\<exists>e. map_of (snd (coerce_terminal_under_cancel_request r st d now)) ''exit'' = Some (JObj e)
     \<and> dget e ''class'' = JStr ''cancelled'' \<and> dget e ''ok'' = JBool False
     \<and> dget e ''cancelled'' = JBool True \<and> dget e ''returncode'' \<noteq> JNull"
    and "map_of (snd (coerce_terminal_under_cancel_request r st d now)) ''retry_class''
       = Some (JStr ''manual_only'')"
proof -
  define prior where "prior = (case dget d ''exit'' of JObj e \<Rightarrow> e | _ \<Rightarrow> [])"
  define exit1 where "exit1 = dset (dset (dset prior ''class'' (JStr ''cancelled'')) ''ok'' (JBool False))
                       ''cancelled'' (JBool True)"
  define exit2 where "exit2 = (if dget exit1 ''returncode'' = JNull
      then dset exit1 ''returncode'' (JInt (- 15)) else exit1)"
  define reason where "reason = py_or (j_cancel_reason r) (py_or (dget d ''cancel_reason'') (JStr ''operator''))"
  define upd where "upd = classified_terminal_updates (Some CANCELLED) (JObj exit2)
      [(''cancel_reason'', reason)] now"
  define out where "out = filter (\<lambda>(k, v). v \<noteq> JNull \<or> has_key d k) (dmerge d upd)"
  have co: "snd (coerce_terminal_under_cancel_request r st d now) =
      (if \<not> truthy (dget out ''cancel_reason'')
       then dset out ''cancel_reason'' (py_or (j_cancel_reason r) (JStr ''operator'')) else out)"
    using assms(1,2)
    by (simp add: coerce_terminal_under_cancel_request_def prior_def exit1_def exit2_def reason_def
        upd_def out_def Let_def)
  have upd: "upd = [(''terminal_at'', JTime (Aware now)), (''retry_class'', JStr ''manual_only''),
      (''retry_reason'', JStr ''cancelled''), (''exit'', JObj exit2), (''cancel_reason'', reason)]"
    by (simp add: upd_def classified_terminal_updates_def classify_retry_def)
  have dist: "distinct (map fst (dmerge d upd))" by (rule distinct_dmerge [OF assms(3)])
  have "map_of (dmerge d upd) ''exit'' = Some (JObj exit2)"
       "map_of (dmerge d upd) ''retry_class'' = Some (JStr ''manual_only'')"
    by (simp_all add: map_of_dmerge upd)
  then have "map_of out ''exit'' = Some (JObj exit2)"
       "map_of out ''retry_class'' = Some (JStr ''manual_only'')"
    using dist by (auto simp: out_def intro!: map_of_filter_kept)
  then have fields: "map_of (snd (coerce_terminal_under_cancel_request r st d now)) ''exit'' = Some (JObj exit2)"
       "map_of (snd (coerce_terminal_under_cancel_request r st d now)) ''retry_class'' = Some (JStr ''manual_only'')"
    by (simp_all add: co)
  moreover have "dget exit2 ''class'' = JStr ''cancelled''" "dget exit2 ''ok'' = JBool False"
      "dget exit2 ''cancelled'' = JBool True" "dget exit2 ''returncode'' \<noteq> JNull"
    by (auto simp: exit2_def exit1_def)
  ultimately show "\<exists>e. map_of (snd (coerce_terminal_under_cancel_request r st d now)) ''exit'' = Some (JObj e)
     \<and> dget e ''class'' = JStr ''cancelled'' \<and> dget e ''ok'' = JBool False
     \<and> dget e ''cancelled'' = JBool True \<and> dget e ''returncode'' \<noteq> JNull"
    and "map_of (snd (coerce_terminal_under_cancel_request r st d now)) ''retry_class''
       = Some (JStr ''manual_only'')"
    by blast+
qed

section \<open>The contract of a locked operation\<close>

locale record_update =
  fixes f :: "job_record \<Rightarrow> job_exc + job_record"
  assumes identity: "f r = Inr r1 \<Longrightarrow> same_identity r r1"
begin

lemma locked_cases:
  assumes "locked_update f j now s = (res, s')"
  obtains (refused) e where "res = Inl e" "s' = s"
  | (written) r r1 jid where "read_job_record s j = Inr r" "f r = Inr r1" "safe_job_id j = Inr jid"
      "s' = with_record jid (stamp_record now r1) s"
      "res = from_dict (JObj (to_dict (stamp_record now r1)))"
proof (cases "bindE (read_job_record s j) f")
  case (Inl e)
  then show ?thesis using assms refused [of e] by (simp add: locked_update_def)
next
  case (Inr r1)
  then obtain r where "read_job_record s j = Inr r" "f r = Inr r1"
    by (auto simp: result_simps)
  then obtain jid where r: "read_job_record s j = Inr r" "f r = Inr r1" "safe_job_id j = Inr jid"
    using read_safe by blast
  have "j_job_id r1 = j_job_id r" using identity [OF r(2)] by (simp add: same_identity_def)
  from locked_update_write [where f = f, OF r(1,2) this r(3)] assms show ?thesis
    using written [OF r] by simp
qed

lemma locked_success:
  assumes "locked_update f j now s = (Inr r', s')"
  obtains r r1 jid where "read_job_record s j = Inr r" "f r = Inr r1" "safe_job_id j = Inr jid"
    "s' = with_record jid (stamp_record now r1) s"
    "from_dict (JObj (to_dict (stamp_record now r1))) = Inr r'"
  using assms by (auto elim: locked_cases)

lemma locked_identity:
  assumes "locked_update f j now s = (Inr r', s')"
  shows "\<exists>r. read_job_record s j = Inr r \<and> same_identity r r' \<and> read_job_record s' j = Inr r'"
proof -
  obtain r r1 jid where *: "read_job_record s j = Inr r" "f r = Inr r1" "safe_job_id j = Inr jid"
      "s' = with_record jid (stamp_record now r1) s"
      and r': "from_dict (JObj (to_dict (stamp_record now r1))) = Inr r'"
    using assms by (rule locked_success)
  have id: "same_identity r r1" using *(2) by (rule identity)
  have "dmerge default_request (j_request r) = j_request r"
    using read_inv [OF *(1)] by (simp add: job_inv_def job_objs_ok_def)
  then have "same_identity (stamp_record now r1) r'"
    using reread_identity [OF r'] id by (simp add: same_identity_def)
  moreover have "same_identity r1 (stamp_record now r1)"
    by (simp add: same_identity_def stamp_record_def)
  ultimately have "same_identity r r'"
    using id same_identity_trans by blast
  moreover have "read_job_record s' j = Inr r'"
    using * r' \<open>same_identity r r'\<close> by (auto simp: read_Inr with_record_def same_identity_def)
  ultimately show ?thesis using *(1) by blast
qed

lemma locked_frame:
  assumes "locked_update f j now s = (res, s')"
  shows "k \<noteq> strip j \<longrightarrow> get_dir s' k = get_dir s k"
    and "get_dir s' k = Some d' \<Longrightarrow> \<exists>d. get_dir s k = Some d \<and> d' = d\<lparr>jd_job := jd_job d'\<rparr>"
    and "(get_dir s' k = None) = (get_dir s k = None)"
proof -
  show "k \<noteq> strip j \<longrightarrow> get_dir s' k = get_dir s k"
    using assms by (cases rule: locked_cases)
      (auto simp: with_record_def safe_job_id_Inr split: option.splits)
  show "get_dir s' k = Some d' \<Longrightarrow> \<exists>d. get_dir s k = Some d \<and> d' = d\<lparr>jd_job := jd_job d'\<rparr>"
    using assms by (cases rule: locked_cases)
      (auto simp: with_record_def split: option.splits if_splits)
  show "(get_dir s' k = None) = (get_dir s k = None)"
    using assms by (cases rule: locked_cases)
      (auto simp: with_record_def split: option.splits if_splits)
qed

end

locale state_transition = record_update +
  assumes legal: "f r = Inr r1 \<Longrightarrow> j_state r1 \<in> LEGAL_TRANSITIONS (j_state r)"
begin

lemma transition_legal:
  assumes "locked_update f j now s = (Inr r', s')"
  shows "\<exists>r. read_job_record s j = Inr r \<and> j_state r' \<in> LEGAL_TRANSITIONS (j_state r)"
  using assms by (rule locked_success) (auto dest!: legal reread_fields)

lemma terminal_absorbing:
  assumes "read_job_record s j = Inr r" "j_state r \<in> TERMINAL_STATES"
  shows "\<exists>e. locked_update f j now s = (Inl e, s)"
proof (cases "f r")
  case (Inl e)
  then show ?thesis using assms(1) by (simp add: locked_update_Inl)
next
  case (Inr r1)
  then show ?thesis using legal [OF Inr] terminal_no_transition [OF assms(2)] by simp
qed

end

locale owner_fenced = record_update +
  fixes w :: owner
  assumes fence: "f r = Inr r1 \<Longrightarrow> assert_owner_fence r w = Inr ()"
begin

lemma stale_owner_refused:
  assumes "\<And>r. read_job_record s j = Inr r \<Longrightarrow> assert_owner_fence r w \<noteq> Inr ()"
  shows "\<exists>e. locked_update f j now s = (Inl e, s)"
proof (cases "bindE (read_job_record s j) f")
  case (Inl e)
  then show ?thesis by (simp add: locked_update_def)
next
  case (Inr r1)
  then show ?thesis using assms fence by (auto simp: result_simps)
qed

end

section \<open>The operations fulfil the contract\<close>

lemma finish_transition_identity: "finish_transition r st d = Inr r1 \<Longrightarrow> same_identity r r1 \<and> j_state r1 = st"
  by (auto simp: finish_transition_Inr same_identity_def updates_frame_def
      dest!: apply_field_updates_frame)

definition merged_from :: "dict \<Rightarrow> dict \<Rightarrow> bool" where
  "merged_from d d' \<longleftrightarrow> (\<forall>k. k \<noteq> ''owner_lease'' \<longrightarrow> map_of d' k = map_of d k)
     \<and> (distinct (map fst d) \<longrightarrow> distinct (map fst d'))"

lemma merged_from_simps [simp]: "merged_from d d" "merged_from d (dset d ''owner_lease'' v)"
  by (simp_all add: merged_from_def distinct_dset)

lemma transition_step_Inr:
  assumes "transition_step st d now r = Inr r1"
  shows "\<exists>d'. merged_from (snd (coerce_terminal_under_cancel_request r st d now)) d'
     \<and> finish_transition r (fst (coerce_terminal_under_cancel_request r st d now)) d' = Inr r1"
    and "fst (coerce_terminal_under_cancel_request r st d now) \<in> LEGAL_TRANSITIONS (j_state r)"
  using assms by (auto simp: transition_step_def result_simps split: prod.split_asm if_split_asm,
    (blast intro: merged_from_simps)+)

lemma cas_step_Inr:
  assumes "compare_and_transition_step x st d now r = Inr r1"
  shows "\<exists>d'. merged_from (snd (coerce_terminal_under_cancel_request r st d now)) d'
     \<and> finish_transition r (fst (coerce_terminal_under_cancel_request r st d now)) d' = Inr r1"
    and "fst (coerce_terminal_under_cancel_request r st d now) \<in> LEGAL_TRANSITIONS (j_state r)"
    and "cas_matches x r"
  using assms by (auto simp: compare_and_transition_step_def Let_def result_simps split: prod.split_asm if_split_asm,
    (blast intro: merged_from_simps)+)

lemma owned_step_Inr:
  assumes "owned_transition_step st w d now r = Inr r1"
  shows "\<exists>d'. merged_from (snd (coerce_terminal_under_cancel_request r st d now)) d'
     \<and> finish_transition r (fst (coerce_terminal_under_cancel_request r st d now)) d' = Inr r1"
    and "fst (coerce_terminal_under_cancel_request r st d now) \<in> LEGAL_TRANSITIONS (j_state r)"
    and "assert_owner_fence r w = Inr ()"
  using assms by (auto simp: owned_transition_step_def Let_def result_simps split: prod.split_asm if_split_asm,
    (blast intro: merged_from_simps)+)

interpretation tr: state_transition "transition_step st d now" for st d now
  by unfold_locales (use transition_step_Inr finish_transition_identity in metis)+

interpretation cas: state_transition "compare_and_transition_step x st d now" for x st d now
  by unfold_locales (use cas_step_Inr finish_transition_identity in metis)+

interpretation otr: state_transition "owned_transition_step st w d now" for st w d now
  by unfold_locales (use owned_step_Inr finish_transition_identity in metis)+

interpretation otr_fence: owner_fenced "owned_transition_step st w d now" w for st w d now
  by unfold_locales (rule owned_step_Inr(3))

interpretation upd: record_update "\<lambda>r. apply_field_updates r d" for d
  by unfold_locales (auto dest!: apply_field_updates_frame simp: updates_frame_def)

interpretation renew: owner_fenced "renew_step w now" w for w now
  by unfold_locales (auto simp: renew_step_def result_simps same_identity_def)

interpretation oupd: owner_fenced "owned_update_step w d" w for w d
  by unfold_locales (auto simp: owned_update_step_def result_simps updates_frame_def
    dest!: apply_field_updates_frame)

interpretation launch: record_update "launching_step p a t" for p a t
  by unfold_locales (auto simp: launching_step_def Let_def result_simps same_identity_def)

interpretation bnd: record_update "bind_step b p a t now" for b p a t now
  by unfold_locales (auto simp: bind_step_def Let_def result_simps same_identity_def)

interpretation ext: record_update "exited_step now" for now
  by unfold_locales (auto simp: exited_step_def same_identity_def)

interpretation cnl: record_update "cancel_request_step reason now" for reason now
  by unfold_locales (auto simp: cancel_request_step_def Let_def same_identity_def
    split: option.split list.split)

end
