(* ===== verification/JobDemo.thy ===== *)
theory JobDemo
  imports JobStoreFacts
begin

text \<open>
  Concrete records and stores at which the properties of the store are evaluated: the store
  with one job whose \<open>job.json\<close> is the document of a given record.
\<close>

definition is_Inr :: "'a + 'b \<Rightarrow> bool" where
  "is_Inr x = (case x of Inl _ \<Rightarrow> False | Inr _ \<Rightarrow> True)"

definition demo_id :: string where
  "demo_id = ''20260101T000000Z-0123abcd''"

definition demo_token :: string where
  "demo_token = ''0123456789abcdef0123456789abcdef''"

definition demo_owner :: owner where
  "demo_owner = \<lparr>o_attempt = 1, o_token = demo_token, o_pid = 4242\<rparr>"

definition demo_lease :: lease where
  "demo_lease = \<lparr>owner_token = demo_token, lease_attempt = 1, acquired_at = 2000000,
     heartbeat_at = 2000000, expires_at = 32000000, released_at = None\<rparr>"

definition demo_record :: "job_state \<Rightarrow> json \<Rightarrow> job_record" where
  "demo_record st lease_doc = \<lparr>j_job_id = JStr demo_id, j_created_at = utc_now 0, j_provider = JStr ''fake'',
     j_role = JStr ''executor'', j_state = st, j_attempt = 1, j_schema = 1, j_generation = 3,
     j_pid = JInt 4242, j_pgid = JInt 4242, j_handle = JNull, j_pid_starttime = JNull,
     j_prompt = JStr ''prompt.md'', j_result = JNull, j_artifacts = [], j_exit = JNull,
     j_usage = JNull, j_stdout = JStr ''stdout.jsonl'', j_stderr = JStr ''stderr.jsonl'',
     j_events = JStr ''events.jsonl'', j_run_id = JNull, j_updated_at = utc_now 0,
     j_cancel_reason = JNull, j_cancel_requested_at = JNull, j_worker = [], j_error_message = JNull,
     j_request = default_request, j_provider_process = default_provider_process,
     j_session = JNull, j_attempt_budget = 3, j_retry_class = JNull, j_retry_reason = JNull,
     j_terminal_at = JNull, j_attempt_started_at = JNull, j_owner_lease = lease_doc,
     j_last_observed_at = JNull, j_recovery = JNull\<rparr>"

definition demo_dir :: "job_record \<Rightarrow> job_dir" where
  "demo_dir r = \<lparr>jd_job = Some (Doc (JObj (to_dict r))), jd_prompt = ''do it'', jd_stdout = Some ''out'',
     jd_stderr = Some ''err'', jd_events = Some ''ev'', jd_artifacts = [(''a.txt'', ''body'')],
     jd_attempts = Map.empty\<rparr>"

definition demo_store :: "job_record \<Rightarrow> job_store" where
  "demo_store r = \<lparr>jobs = [(demo_id, demo_dir r)], quarantine = []\<rparr>"

lemma demo_id_safe [simp]: "safe_job_id demo_id = Inr demo_id"
  by code_simp

lemma demo_strip [simp]: "strip demo_id = demo_id"
  by code_simp

lemma demo_lease_inv [simp]: "lease_inv demo_lease"
  by code_simp

lemma get_dir_demo [simp]: "get_dir (demo_store r) k = (if k = demo_id then Some (demo_dir r) else None)"
  by (simp add: get_dir_def demo_store_def)

lemma read_demo:
  assumes "job_inv r" "j_job_id r = JStr demo_id"
  shows "read_job_record (demo_store r) demo_id = Inr r"
  using assms by (simp add: read_Inr demo_dir_def from_dict_to_dict)

lemma locked_update_demo:
  assumes "job_inv r" "j_job_id r = JStr demo_id" "f r = Inr r1" "j_job_id r1 = JStr demo_id"
    and "job_inv (stamp_record now r1)"
  shows "locked_update f demo_id now (demo_store r) =
    (Inr (stamp_record now r1), with_record demo_id (stamp_record now r1) (demo_store r))"
  using locked_update_write [OF read_demo [OF assms(1,2)], of f r1 demo_id now] assms(2-5)
  by (simp add: from_dict_to_dict)

lemma job_inv_stamp: "job_inv r \<Longrightarrow> job_inv (stamp_record now r)"
  by (simp add: job_inv_def job_ints_ok_def job_strs_ok_def job_objs_ok_def lease_ok_def
      stamp_record_def utc_now_def null_or_def)

lemma job_inv_demo:
  assumes "lease_doc = JNull \<or> (\<exists>l. lease_doc = lease_obj l \<and> lease_fits st 1 l)"
  shows "job_inv (demo_record st lease_doc)"
  using assms
  by (auto simp: demo_record_def job_inv_def job_ints_ok_def job_strs_ok_def job_objs_ok_def
      lease_ok_def nonempty_str_def null_or_def utc_now_def validate_recovery_meta_Inr
      PROVIDER_PROCESS_STATES_def demo_id_def)

lemma demo_record_simps [simp]:
  "j_job_id (demo_record st l) = JStr demo_id" "j_state (demo_record st l) = st"
  "j_owner_lease (demo_record st l) = l" "j_attempt (demo_record st l) = 1"
  "j_cancel_requested_at (demo_record st l) = JNull" "j_generation (demo_record st l) = 3"
  "j_pid (demo_record st l) = JInt 4242"
  by (simp_all add: demo_record_def)

end
