(* ===== verification/JobSafety.thy ===== *)
theory JobSafety
  imports JobDemo
begin

text \<open>
  The safety properties of the job store: a transition is one of the table and touches one
  record only, a terminal job stays terminal, a durable cancel request wins over a racing
  result, a stale owner changes nothing, a provider process is bound at most once.
\<close>

section \<open>Transitions\<close>

text \<open>C36: A transition that returns a record was legal for the state read under the lock; it
  keeps every immutable field, the record it returns is the one the next reader sees, and it
  leaves every other job, and every other file of this job, as it was.\<close>

theorem transition_job_legal:
  assumes "transition_job j st updates now s = (Inr r', s')"
  shows "(\<exists>r. read_job_record s j = Inr r \<and> j_state r' \<in> LEGAL_TRANSITIONS (j_state r)
        \<and> same_identity r r' \<and> read_job_record s' j = Inr r')
    \<and> (\<forall>k. k \<noteq> strip j \<longrightarrow> get_dir s' k = get_dir s k)
    \<and> (\<forall>k d'. get_dir s' k = Some d' \<longrightarrow>
          (\<exists>d. get_dir s k = Some d \<and> d' = d\<lparr>jd_job := jd_job d'\<rparr>))"
proof -
  note run = assms [unfolded transition_job_def]
  show ?thesis
    using tr.transition_legal [OF run] tr.locked_identity [OF run] tr.locked_frame(1,2) [OF run]
    by auto
qed

lemma demo_launch:
  "transition_job demo_id STARTING [] 1000000 (demo_store (demo_record QUEUED JNull)) =
     (Inr (stamp_record 1000000 (demo_record STARTING JNull)),
      with_record demo_id (stamp_record 1000000 (demo_record STARTING JNull))
        (demo_store (demo_record QUEUED JNull)))"
  unfolding transition_job_def
proof (rule locked_update_demo)
  show "transition_step STARTING [] 1000000 (demo_record QUEUED JNull) = Inr (demo_record STARTING JNull)"
    by (simp add: transition_step_def coerce_terminal_under_cancel_request_def assert_transition_def
        TERMINAL_STATES_def finish_transition_def demo_record_def)
  show "job_inv (stamp_record 1000000 (demo_record STARTING JNull))"
    using job_inv_demo [of JNull STARTING] by (rule job_inv_stamp) simp
qed (simp_all add: job_inv_demo)

theorem transition_job_legal_witness:
  "\<exists>r. read_job_record (demo_store (demo_record QUEUED JNull)) demo_id = Inr r
     \<and> STARTING \<in> LEGAL_TRANSITIONS (j_state r)"
  using transition_job_legal [OF demo_launch]
  by (simp only: stamp_record_fields demo_record_simps) blast

text \<open>A job in a terminal state stays as it is: every transition, by the operator, by
  recovery or by the owner, is refused and leaves the store unchanged.\<close>

theorem terminal_job_absorbing:
  assumes "read_job_record s j = Inr r" "j_state r \<in> TERMINAL_STATES"
  shows "(\<exists>e. transition_job j st updates now s = (Inl e, s))
    \<and> (\<exists>e. compare_and_transition_job j st x updates now s = (Inl e, s))
    \<and> (\<exists>e. transition_owned_job j st w updates now s = (Inl e, s))"
  unfolding transition_job_def compare_and_transition_job_def transition_owned_job_def
  using tr.terminal_absorbing [OF assms] cas.terminal_absorbing [OF assms]
    otr.terminal_absorbing [OF assms] by blast

theorem terminal_job_absorbing_witness:
  "\<exists>e. transition_job demo_id RUNNING [] 5 (demo_store (demo_record LOST JNull)) =
     (Inl e, demo_store (demo_record LOST JNull))"
  using terminal_job_absorbing [of "demo_store (demo_record LOST JNull)" demo_id]
  by (simp add: read_demo job_inv_demo TERMINAL_STATES_def)

text \<open>C10: Once a cancel request is durable, no operation stamps success or failure: whichever of
  the three transitions wins the lock, a result that was racing becomes \<open>cancelled\<close>, with a
  cancelled exit envelope and the retry class \<open>manual_only\<close>.\<close>

theorem cancel_request_wins:
  assumes read: "read_job_record s j = Inr r" and req: "truthy (j_cancel_requested_at r)"
    and st: "st \<in> {SUCCEEDED, FAILED}" and dict: "distinct (map fst updates)"
    and run: "transition_job j st updates now s = (Inr r', s')
      \<or> compare_and_transition_job j st x updates now s = (Inr r', s')
      \<or> transition_owned_job j st w updates now s = (Inr r', s')"
  shows "j_state r' = CANCELLED \<and> j_retry_class r' = JStr ''manual_only''
    \<and> (\<exists>e. j_exit r' = JObj e \<and> dget e ''class'' = JStr ''cancelled''
         \<and> dget e ''ok'' = JBool False \<and> dget e ''returncode'' \<noteq> JNull)"
proof -
  have "\<exists>r1 d'. merged_from (snd (coerce_terminal_under_cancel_request r st updates now)) d'
      \<and> finish_transition r CANCELLED d' = Inr r1
      \<and> from_dict (JObj (to_dict (stamp_record now r1))) = Inr r'"
    using run unfolding transition_job_def compare_and_transition_job_def transition_owned_job_def
    by (elim disjE tr.locked_success cas.locked_success otr.locked_success)
       (use read req st coerce_state [of r st updates now] transition_step_Inr(1) cas_step_Inr(1)
          owned_step_Inr(1) in fastforce)+
  then obtain r1 d' where d': "merged_from (snd (coerce_terminal_under_cancel_request r st updates now)) d'"
      and fin: "finish_transition r CANCELLED d' = Inr r1"
      and r': "from_dict (JObj (to_dict (stamp_record now r1))) = Inr r'" by blast
  from fin show ?thesis
    using coerced_exit [OF req st dict, of now] coerce_distinct [OF dict, of r st now] d'
      apply_field_updates_assigned(1,2) [of r d'] reread_fields [OF r']
    by (auto simp: finish_transition_Inr merged_from_def stamp_record_def)
qed

definition demo_cancelled :: job_record where
  "demo_cancelled = (demo_record RUNNING JNull)\<lparr>j_cancel_requested_at := utc_now 7\<rparr>"

definition demo_cancelled_done :: job_record where
  "demo_cancelled_done = demo_cancelled\<lparr>j_state := CANCELLED, j_cancel_reason := JStr ''operator'',
     j_terminal_at := utc_now 9, j_retry_class := JStr ''manual_only'',
     j_retry_reason := JStr ''cancelled'',
     j_exit := JObj [(''class'', JStr ''cancelled''), (''ok'', JBool False), (''cancelled'', JBool True),
       (''returncode'', JInt (- 15))]\<rparr>"

lemma job_inv_demo_cancelled: "job_inv demo_cancelled" "job_inv demo_cancelled_done"
  using job_inv_demo [of JNull RUNNING]
  by (simp_all add: demo_cancelled_def demo_cancelled_done_def job_inv_def job_ints_ok_def
      job_strs_ok_def job_objs_ok_def lease_ok_def utc_now_def null_or_def RETRY_CLASSES_def)

lemma demo_cancel_race:
  "transition_job demo_id SUCCEEDED [(''exit'', JObj [(''class'', JStr ''success'')])] 9
     (demo_store demo_cancelled) = (Inr (stamp_record 9 demo_cancelled_done),
        with_record demo_id (stamp_record 9 demo_cancelled_done) (demo_store demo_cancelled))"
  unfolding transition_job_def
proof (rule locked_update_demo)
  show "transition_step SUCCEEDED [(''exit'', JObj [(''class'', JStr ''success'')])] 9 demo_cancelled
      = Inr demo_cancelled_done"
    by (simp add: transition_step_def coerce_terminal_under_cancel_request_def assert_transition_def
        TERMINAL_STATES_def finish_transition_def demo_cancelled_def demo_cancelled_done_def
        classified_terminal_updates_def classify_retry_def Let_def py_or_def utc_now_def
        IMMUTABLE_FIELDS_def set_field_def field_setters_def demo_record_def)
qed (simp_all add: job_inv_demo_cancelled job_inv_stamp,
     simp_all add: demo_cancelled_def demo_cancelled_done_def)

theorem cancel_request_wins_witness:
  "\<exists>r'. fst (transition_job demo_id SUCCEEDED [(''exit'', JObj [(''class'', JStr ''success'')])] 9
     (demo_store demo_cancelled)) = Inr r' \<and> j_state r' = CANCELLED"
  using cancel_request_wins [OF read_demo [of demo_cancelled] _ _ _ disjI1 [OF demo_cancel_race]]
  by (simp add: demo_cancel_race job_inv_demo_cancelled) (simp add: demo_cancelled_def utc_now_def)

section \<open>The owner fence\<close>


lemma fence_Inr:
  assumes "job_inv r"
  shows "assert_owner_fence r w = Inr () \<longleftrightarrow> j_state r = RUNNING \<and> j_attempt r = o_attempt w
     \<and> j_pid r = JInt (o_pid w)
     \<and> (\<exists>l. j_owner_lease r = lease_obj l \<and> owner_token l = o_token w)"
proof -
  have pid: "j_pid r = JNull \<or> (\<exists>i. j_pid r = JInt i)"
    using assms by (auto simp: job_inv_def job_ints_ok_def null_or_def)
  from assms have "lease_ok r" by (simp add: job_inv_def)
  with pid show ?thesis
    by (auto simp: assert_owner_fence_def result_simps pid_is_def raw_int_def lease_ok_def
        lease_fits_def validate_owner_lease_obj split: sum.splits if_splits)
qed


text \<open>A heartbeat by the owner keeps the token, the attempt and the acquisition, moves the
  heartbeat to the clock reading and the expiry 30 seconds after it, and bumps the generation;
  it is refused as malformed, with the store unchanged, exactly when the clock reads earlier
  than the acquisition.\<close>

theorem renew_owner_lease_effect:
  assumes read: "read_job_record s j = Inr r" and fence: "assert_owner_fence r w = Inr ()"
  shows "\<exists>l. j_owner_lease r = lease_obj l \<and> renew_owner_lease j w now s =
      (if acquired_at l \<le> now then
         (let r' = stamp_record now (r\<lparr>j_owner_lease :=
            lease_obj (l\<lparr>heartbeat_at := now, expires_at := now + 30000000\<rparr>)\<rparr>)
          in (Inr r', with_record (strip j) r' s))
       else (Inl lease_malformed, s))"
proof -
  have inv: "job_inv r" by (rule read_inv [OF read])
  obtain l where l: "j_owner_lease r = lease_obj l" and fits: "lease_fits RUNNING (j_attempt r) l"
      and run: "j_state r = RUNNING"
    using fence inv by (auto simp: fence_Inr job_inv_def lease_ok_def)
  define l' where "l' = l\<lparr>heartbeat_at := now, expires_at := now + 30000000\<rparr>"
  define r1 where "r1 = r\<lparr>j_owner_lease := lease_obj l'\<rparr>"
  have linv: "lease_inv l" and open_lease: "released_at l = None" using fits by (auto simp: lease_fits_def)
  have step: "renew_step w now r = (if acquired_at l \<le> now then Inr r1 else Inl lease_malformed)"
    using linv open_lease fence l
    by (simp add: renew_step_def py_or_def renew_lease_dict_obj r1_def l'_def
        DEFAULT_JOB_LEASE_TTL_def MAX_LEASE_TTL_def)
  obtain jid where jid: "safe_job_id j = Inr jid" "jid = strip j"
    using read_safe [OF read] safe_job_id_Inr by blast
  show ?thesis
  proof (cases "acquired_at l \<le> now")
    case False
    then show ?thesis using l step read by (simp add: renew_owner_lease_def locked_update_Inl)
  next
    case True
    then have "lease_fits RUNNING (j_attempt r) l'"
      using fits by (simp add: lease_fits_def lease_inv_def l'_def MAX_LEASE_TTL_def
        TERMINAL_STATES_def)
    then have "job_inv r1"
      using inv run by (auto simp: r1_def job_inv_def job_ints_ok_def job_strs_ok_def
          job_objs_ok_def lease_ok_def)
    then have "from_dict (JObj (to_dict (stamp_record now r1))) = Inr (stamp_record now r1)"
      by (intro from_dict_to_dict job_inv_stamp)
    moreover have "renew_step w now r = Inr r1" using step True by simp
    ultimately show ?thesis
      using True l locked_update_write [OF read, of "renew_step w now" r1 jid now] jid
      by (simp add: renew_owner_lease_def r1_def l'_def Let_def)
  qed
qed

theorem renew_owner_lease_effect_witness:
  "fst (renew_owner_lease demo_id demo_owner 1000000
     (demo_store (demo_record RUNNING (lease_obj demo_lease)))) = Inl lease_malformed"
proof -
  let ?r = "demo_record RUNNING (lease_obj demo_lease)"
  have inv: "job_inv ?r"
    by (rule job_inv_demo) (auto simp: lease_fits_def TERMINAL_STATES_def, simp_all add: demo_lease_def)
  have "assert_owner_fence ?r demo_owner = Inr ()"
    by (subst fence_Inr [OF inv]) (simp add: demo_owner_def demo_lease_def)
  from renew_owner_lease_effect [OF read_demo [OF inv] this, of 1000000] show ?thesis
    by (auto simp: demo_lease_def)
qed

section \<open>The provider process\<close>

text \<open>A provider process is bound only by the runner that owns the running attempt, before any
  cancel request, with process ids above 1; and once one is bound every further bind of this
  attempt is refused with the store unchanged.\<close>

theorem provider_bound_once:
  assumes "bind_provider_process j b runner_pid attempt token now s = (Inr r', s')"
  shows "(\<exists>r. read_job_record s j = Inr r \<and> j_state r = RUNNING \<and> j_attempt r = attempt
       \<and> j_pid r = JInt runner_pid \<and> \<not> truthy (j_cancel_requested_at r)
       \<and> pp_state_in (provider_process_of r) {''pending'', ''launching''})
     \<and> 1 < b_pid b \<and> 1 < b_pgid b
     \<and> dget (j_provider_process r') ''state'' = JStr ''bound''
     \<and> dget (j_provider_process r') ''pid'' = JInt (b_pid b)
     \<and> (\<forall>b' p a t now'. \<exists>e. bind_provider_process j b' p a t now' s' = (Inl e, s'))"
proof -
  obtain r r1 jid where read: "read_job_record s j = Inr r" and step: "bind_step b runner_pid attempt token now r = Inr r1"
      and jid: "safe_job_id j = Inr jid" and s': "s' = with_record jid (stamp_record now r1) s"
      and r': "from_dict (JObj (to_dict (stamp_record now r1))) = Inr r'"
    using assms unfolding bind_provider_process_def by (rule bnd.locked_success)
  have read': "read_job_record s' j = Inr r'"
    using bnd.locked_identity assms unfolding bind_provider_process_def by blast
  have guard: "provider_guard E_JOB_CANCEL_UNPROVEN runner_pid attempt token r = Inr ()"
    using step by (auto simp: bind_step_def Let_def result_simps)
  have pid: "j_pid r = JNull \<or> (\<exists>i. j_pid r = JInt i)"
    using read_inv [OF read] by (auto simp: job_inv_def job_ints_ok_def null_or_def)
  have g: "j_state r = RUNNING \<and> j_attempt r = attempt \<and> j_pid r = JInt runner_pid
      \<and> \<not> truthy (j_cancel_requested_at r)"
    using guard pid by (auto simp: provider_guard_def result_simps pid_is_def raw_int_def split: if_split_asm)
  have pp: "j_provider_process (stamp_record now r1) = [(''state'', JStr ''bound''), (''pid'', JInt (b_pid b)),
        (''pgid'', JInt (b_pgid b)), (''pid_starttime'', b_pid_starttime b),
        (''handle'', JStr (b_handle b)), (''bound_at'', utc_now now), (''exited_at'', JNull)]"
    using step by (auto simp: bind_step_def Let_def result_simps stamp_record_def)
  then have pp': "j_provider_process r' = j_provider_process (stamp_record now r1)"
    using reread_fields [OF r'] by (auto simp: read_provider_process_def default_provider_process_def
        Let_def result_simps split: if_split_asm)
  have "\<exists>e. bind_step b' p a t now' r' = Inl e" for b' p a t now'
    by (cases "bind_step b' p a t now' r'")
       (auto simp: bind_step_def Let_def result_simps provider_process_of_def pp' pp)
  then have "\<forall>b' p a t now'. \<exists>e. bind_provider_process j b' p a t now' s' = (Inl e, s')"
    using locked_update_Inl(2) [OF read'] unfolding bind_provider_process_def by metis
  then show ?thesis
    using g read step pp pp' by (auto simp: bind_step_def Let_def result_simps)
qed

definition demo_binding :: provider_binding where
  "demo_binding = \<lparr>b_pid = 77, b_pgid = 77, b_pid_starttime = JNull, b_handle = ''fake-77''\<rparr>"

definition demo_bound :: job_record where
  "demo_bound = (demo_record RUNNING JNull)\<lparr>j_provider_process :=
     [(''state'', JStr ''bound''), (''pid'', JInt 77), (''pgid'', JInt 77), (''pid_starttime'', JNull),
      (''handle'', JStr ''fake-77''), (''bound_at'', utc_now 9), (''exited_at'', JNull)]\<rparr>"

lemma demo_bind:
  "bind_provider_process demo_id demo_binding 4242 1 None 9 (demo_store (demo_record RUNNING JNull)) =
     (Inr (stamp_record 9 demo_bound),
      with_record demo_id (stamp_record 9 demo_bound) (demo_store (demo_record RUNNING JNull)))"
  unfolding bind_provider_process_def
proof (rule locked_update_demo)
  show "bind_step demo_binding 4242 1 None 9 (demo_record RUNNING JNull) = Inr demo_bound"
    by (simp add: bind_step_def provider_guard_def pid_is_def raw_int_def demo_binding_def
        provider_process_of_def pp_state_in_def demo_bound_def)
       (simp add: demo_record_def)
  show "job_inv (stamp_record 9 demo_bound)"
    using job_inv_demo [of JNull RUNNING]
    by (intro job_inv_stamp) (simp add: demo_bound_def job_inv_def job_ints_ok_def job_strs_ok_def
        job_objs_ok_def lease_ok_def default_provider_process_def PROVIDER_PROCESS_STATES_def)
qed (simp_all add: job_inv_demo, simp add: demo_bound_def)

theorem provider_bound_once_witness:
  "dget (j_provider_process (stamp_record 9 demo_bound)) ''pid'' = JInt 77"
  using provider_bound_once [OF demo_bind] by (simp add: demo_binding_def)

end
