(* ===== verification/JobArchive.thy ===== *)
theory JobArchive
  imports JobStoreFacts
begin

text \<open>
  Attempt archives, the retry transaction and the garbage collection of \<open>jobs/store.py\<close>.
  \<open>publish_archive\<close> is \<open>archive_attempt\<close> up to the rename that publishes the staged directory
  (the staging directory itself is invisible to every reader), \<open>reset_active_attempt_ledgers\<close>
  is the clean-up after it; \<open>prepare_retry\<close> then rewrites the record.  A crash between these
  three writes is modelled by the stores in \<open>retry_crash_states\<close>.
\<close>

section \<open>Archives\<close>

definition int_is :: "json \<Rightarrow> int \<Rightarrow> job_exc + bool" where
  \<comment> \<open>\<open>int(v) == n\<close>, false on \<open>TypeError\<close> and \<open>ValueError\<close>\<close>
  "int_is v n = (case py_int v of
     Inr i \<Rightarrow> Inr (i = n)
   | Inl OverflowError \<Rightarrow> Inl (PyExc OverflowError)
   | Inl _ \<Rightarrow> Inr False)"

definition ATTEMPT_ARCHIVE_COMPLETE_VERSION :: int where
  "ATTEMPT_ARCHIVE_COMPLETE_VERSION = 1"

definition attempt_archive_complete :: "archive option \<Rightarrow> int \<Rightarrow> job_exc + bool" where
  "attempt_archive_complete adir attempt = (case adir of
     None \<Rightarrow> Inr False
   | Some ar \<Rightarrow> (case ar_complete ar of
       Some (Doc (JObj marker)) \<Rightarrow>
         bindE (int_is (dget_or marker ''version'' (JInt (- 1))) ATTEMPT_ARCHIVE_COMPLETE_VERSION)
           (\<lambda>version_ok. if \<not> version_ok then Inr False else
         bindE (int_is (dget_or marker ''archived_attempt'' (JInt (- 1))) attempt)
           (\<lambda>attempt_ok. if \<not> attempt_ok then Inr False else
         (case ar_attempt ar of
           Some (Doc (JObj data)) \<Rightarrow> int_is (dget data ''archived_attempt'') attempt
         | _ \<Rightarrow> Inr False)))
     | _ \<Rightarrow> Inr False))"

definition copy_file_if_present :: "string option \<Rightarrow> string" where
  "copy_file_if_present f = (case f of None \<Rightarrow> [] | Some bytes \<Rightarrow> bytes)"

definition or_empty_str :: "json \<Rightarrow> json" where
  \<comment> \<open>\<open>str(v or "")\<close>\<close>
  "or_empty_str v = (if truthy v then py_str v else JStr [])"

definition archive_snapshot :: "int \<Rightarrow> dict \<Rightarrow> job_record \<Rightarrow> dict" where
  "archive_snapshot now dispatch r =
     dset (dset (dset (to_dict r) ''archived_at'' (utc_now now))
       ''archived_attempt'' (JInt (j_attempt r)))
       ''retry_dispatch'' (JObj [
          (''intent'', or_empty_str (dget dispatch ''intent'')),
          (''requested_at'', or_empty_str (dget dispatch ''requested_at'')),
          (''next_attempt'', dget dispatch ''next_attempt''),
          (''retry_class'', dget dispatch ''retry_class''),
          (''retry_reason'', dget dispatch ''retry_reason'')])"

definition staged_archive :: "int \<Rightarrow> dict \<Rightarrow> job_record \<Rightarrow> job_dir \<Rightarrow> archive" where
  "staged_archive now dispatch r d = \<lparr>
     ar_attempt = Some (Doc (JObj (archive_snapshot now dispatch r))),
     ar_stdout = copy_file_if_present (jd_stdout d),
     ar_stderr = copy_file_if_present (jd_stderr d),
     ar_events = copy_file_if_present (jd_events d),
     ar_artifacts = jd_artifacts d,
     ar_complete = Some (Doc (JObj [(''archived_attempt'', JInt (j_attempt r)),
        (''version'', JInt ATTEMPT_ARCHIVE_COMPLETE_VERSION)]))\<rparr>"

definition publish_archive :: "int \<Rightarrow> dict \<Rightarrow> job_record \<Rightarrow> job_dir \<Rightarrow> job_exc + job_dir" where
  "publish_archive now dispatch r d =
     bindE (attempt_archive_complete (jd_attempts d (j_attempt r)) (j_attempt r)) (\<lambda>complete.
     Inr (if complete then d
          else d\<lparr>jd_attempts := (jd_attempts d)(j_attempt r \<mapsto> staged_archive now dispatch r d)\<rparr>))"

definition reset_active_attempt_ledgers :: "job_dir \<Rightarrow> job_dir" where
  "reset_active_attempt_ledgers d = d\<lparr>jd_stdout := Some [], jd_stderr := Some [],
     jd_events := Some [], jd_artifacts := []\<rparr>"

definition archive_attempt :: "int \<Rightarrow> dict \<Rightarrow> job_record \<Rightarrow> job_dir \<Rightarrow> job_exc + job_dir" where
  "archive_attempt now dispatch r d =
     bindE (publish_archive now dispatch r d) (\<lambda>d'. Inr (reset_active_attempt_ledgers d'))"

section \<open>The retry transaction\<close>

definition requeued :: "int \<Rightarrow> job_record \<Rightarrow> job_record" where
  "requeued next_attempt r = r\<lparr>j_state := QUEUED, j_attempt := next_attempt, j_pid := JNull,
     j_pgid := JNull, j_handle := JNull, j_pid_starttime := JNull, j_result := JNull,
     j_artifacts := [], j_exit := JNull, j_usage := JNull, j_error_message := JNull,
     j_cancel_reason := JNull, j_cancel_requested_at := JNull, j_session := JNull,
     j_retry_class := JNull, j_retry_reason := JNull, j_terminal_at := JNull,
     j_attempt_started_at := JNull, j_owner_lease := JNull, j_last_observed_at := JNull,
     j_recovery := JNull, j_provider_process := default_provider_process\<rparr>"

definition retry_dispatch :: "retry_intent \<Rightarrow> int \<Rightarrow> int \<Rightarrow> job_record \<Rightarrow> dict" where
  "retry_dispatch intent next_attempt now r = [
     (''intent'', JStr (RetryIntent_value intent)),
     (''requested_at'', utc_now now),
     (''next_attempt'', JInt next_attempt),
     (''retry_class'', j_retry_class r),
     (''retry_reason'', j_retry_reason r)]"

definition prepare_retry ::
    "string \<Rightarrow> int \<Rightarrow> retry_intent \<Rightarrow> int \<Rightarrow> job_store \<Rightarrow> job_record outcome" where
  "prepare_retry job_id next_attempt intent now s =
     (case bindE (safe_job_id job_id) (\<lambda>jid.
           bindE (read_job_record s jid) (\<lambda>r.
           bindE (assert_retry_admission r next_attempt intent now) (\<lambda>_.
           case get_dir s jid of
             None \<Rightarrow> Inl (JobErr E_JOB_UNKNOWN)
           | Some d \<Rightarrow>
               bindE (archive_attempt now (retry_dispatch intent next_attempt now r) r d) (\<lambda>d'.
               Inr (jid, r, put_dir jid d' s))))) of
       Inl e \<Rightarrow> (Inl e, s)
     | Inr (jid, r, s1) \<Rightarrow> (case write_job_record now (requeued next_attempt r) s1 of
         Inl e \<Rightarrow> (Inl e, s1)
       | Inr s2 \<Rightarrow> (read_job_record s2 jid, s2)))"

definition retry_crash_states ::
    "string \<Rightarrow> int \<Rightarrow> retry_intent \<Rightarrow> int \<Rightarrow> job_store \<Rightarrow> job_store set" where
  \<comment> \<open>the stores a process that dies inside the transaction can leave: nothing written, the
      archive published, the ledgers reset as well\<close>
  "retry_crash_states job_id next_attempt intent now s = insert s
     (case bindE (safe_job_id job_id) (\<lambda>jid. bindE (read_job_record s jid) (\<lambda>r.
           case get_dir s jid of None \<Rightarrow> Inl (JobErr E_JOB_UNKNOWN)
           | Some d \<Rightarrow> bindE (publish_archive now (retry_dispatch intent next_attempt now r) r d)
               (\<lambda>d'. Inr (jid, d')))) of
       Inl _ \<Rightarrow> {}
     | Inr (jid, d') \<Rightarrow> {put_dir jid d' s, put_dir jid (reset_active_attempt_ledgers d') s})"

section \<open>Garbage collection\<close>

definition parse_iso_ts :: "json \<Rightarrow> int option" where
  "parse_iso_ts raw = (case raw of JTime (Aware t) \<Rightarrow> Some t | JTime (Naive t) \<Rightarrow> Some t | _ \<Rightarrow> None)"

definition round_half_even :: "int \<Rightarrow> int \<Rightarrow> int" where
  \<comment> \<open>\<open>p / q\<close> rounded as \<open>timedelta\<close> does, for \<open>0 < q\<close>\<close>
  "round_half_even p q = (let f = p div q; m = 2 * (p mod q) in
     if m < q then f else if q < m then f + 1 else if even f then f else f + 1)"

definition validate_retention_days :: "pyfloat \<Rightarrow> job_exc + int" where
  \<comment> \<open>the retention in microseconds, rounded once from the exact product (\<open>timedelta\<close> rounds the
      fraction of a day to a double on the way)\<close>
  "validate_retention_days days = (case days of
     PFin c rest m k \<Rightarrow> if m < 0 then Inl (JobErr E_JOB_GC)
       else Inr (round_half_even (m * 86400000000) (2 ^ k))
   | _ \<Rightarrow> Inl (JobErr E_JOB_GC))"

definition retention_stamp :: "job_record \<Rightarrow> int option" where
  "retention_stamp r = (case parse_iso_ts (j_terminal_at r) of Some t \<Rightarrow> Some t | None \<Rightarrow>
     (case parse_iso_ts (j_updated_at r) of Some t \<Rightarrow> Some t | None \<Rightarrow> parse_iso_ts (j_created_at r)))"

definition gc_eligible :: "job_store \<Rightarrow> int \<Rightarrow> string \<Rightarrow> job_exc + bool" where
  "gc_eligible s cutoff jid = (case read_job_record s jid of
     Inl (JobErr c) \<Rightarrow> Inr False
   | Inl e \<Rightarrow> Inl e
   | Inr r \<Rightarrow> Inr (j_state r \<in> TERMINAL_STATES
       \<and> (case retention_stamp r of None \<Rightarrow> False | Some stamp \<Rightarrow> stamp \<le> cutoff)))"

fun filterE :: "('a \<Rightarrow> 'e + bool) \<Rightarrow> 'a list \<Rightarrow> 'e + 'a list" where
  "filterE p [] = Inr []"
| "filterE p (x # xs) = bindE (p x) (\<lambda>b. bindE (filterE p xs) (\<lambda>ys. Inr (if b then x # ys else ys)))"

definition gc_candidates :: "job_store \<Rightarrow> pyfloat \<Rightarrow> int \<Rightarrow> job_exc + string list" where
  "gc_candidates s retention_days now =
     bindE (validate_retention_days retention_days) (\<lambda>retention.
     filterE (gc_eligible s (now - retention)) (list_job_ids s))"

definition quarantine_job_dir :: "string \<Rightarrow> string \<Rightarrow> job_store \<Rightarrow> (job_exc + string option) \<times> job_store" where
  \<comment> \<open>the suffix is the random one of the destination name\<close>
  "quarantine_job_dir job_id suffix s = (case safe_job_id job_id of
     Inl e \<Rightarrow> (Inl e, s)
   | Inr jid \<Rightarrow> (case get_dir s jid of
       None \<Rightarrow> (Inr None, s)
     | Some d \<Rightarrow> (Inr (Some (jid @ ''.'' @ suffix)),
         s\<lparr>jobs := AList.delete jid (jobs s),
           quarantine := AList.update (jid @ ''.'' @ suffix) d (quarantine s)\<rparr>)))"

definition delete_quarantined_tree :: "string \<Rightarrow> job_store \<Rightarrow> job_store" where
  "delete_quarantined_tree name s = s\<lparr>quarantine := AList.delete name (quarantine s)\<rparr>"

definition delete_job_dir :: "string \<Rightarrow> job_store \<Rightarrow> (job_exc + unit) \<times> job_store" where
  "delete_job_dir job_id s = (case safe_job_id job_id of
     Inl e \<Rightarrow> (Inl e, s)
   | Inr jid \<Rightarrow> (Inr (), s\<lparr>jobs := AList.delete jid (jobs s)\<rparr>))"

section \<open>What the transaction does\<close>

lemma int_is_JInt [simp]: "int_is (JInt i) n = Inr (i = n)"
  by (simp add: int_is_def)

lemma staged_archive_complete [simp]:
  "attempt_archive_complete (Some (staged_archive now dispatch r d)) (j_attempt r) = Inr True"
  by (simp add: attempt_archive_complete_def staged_archive_def archive_snapshot_def)

lemma job_inv_requeued: "job_inv r \<Longrightarrow> 1 \<le> n \<Longrightarrow> job_inv (requeued n r)"
  by (simp add: job_inv_def job_ints_ok_def job_strs_ok_def job_objs_ok_def lease_ok_def
      requeued_def null_or_def PROVIDER_PROCESS_STATES_def validate_recovery_meta_Inr)

lemma job_inv_stamp_record: "job_inv r \<Longrightarrow> job_inv (stamp_record now r)"
  by (simp add: job_inv_def job_ints_ok_def job_strs_ok_def job_objs_ok_def lease_ok_def
      stamp_record_def utc_now_def null_or_def)

lemma admission_attempt:
  "assert_retry_admission r n intent now = Inr () \<Longrightarrow>
     n = j_attempt r + 1 \<and> n \<le> j_attempt_budget r \<and> j_state r \<in> TERMINAL_STATES - {SUCCEEDED}"
  by (cases intent; cases "classify_retry (Some (j_state r)) (j_exit r)")
     (auto simp: assert_retry_admission_def result_simps automatic_admission_Inr
       RETRYABLE_TERMINAL_STATES_def TERMINAL_STATES_def)

lemma read_at_id:
  assumes "read_job_record s j = Inr r"
  obtains jid d where "safe_job_id j = Inr jid" "jid = strip j" "safe_job_id jid = Inr jid"
    "get_dir s jid = Some d" "read_job_record s jid = Inr r" "j_job_id r = JStr jid"
  using assms safe_job_id_Inr safe_job_id_idem by (auto simp: read_Inr)

lemma prepare_retry_commits:
  assumes read: "read_job_record s j = Inr r"
    and adm: "assert_retry_admission r n intent now = Inr ()"
    and d: "get_dir s (strip j) = Some d"
    and pub: "publish_archive now (retry_dispatch intent n now r) r d = Inr dp"
  shows "prepare_retry j n intent now s =
    (Inr (stamp_record now (requeued n r)),
     with_record (strip j) (stamp_record now (requeued n r))
       (put_dir (strip j) (reset_active_attempt_ledgers dp) s))"
proof -
  obtain jid where jid: "safe_job_id j = Inr jid" "jid = strip j" "safe_job_id jid = Inr jid"
      "read_job_record s jid = Inr r" "j_job_id r = JStr jid"
    using read by (rule read_at_id)
  let ?r = "stamp_record now (requeued n r)"
  have inv: "job_inv ?r"
    using read_inv [OF read] admission_attempt [OF adm]
    by (intro job_inv_stamp_record job_inv_requeued) (auto simp: job_inv_def job_ints_ok_def)
  have id: "j_job_id (requeued n r) = JStr jid" using jid by (simp add: requeued_def)
  show ?thesis
    using jid adm d pub id from_dict_to_dict [OF inv]
    by (simp add: prepare_retry_def archive_attempt_def write_job_record_def with_record_def
        read_job_record_def)
qed

lemma prepare_retry_success:
  assumes "prepare_retry j n intent now s = (Inr r', s')"
  obtains r d dp where "read_job_record s j = Inr r" "get_dir s (strip j) = Some d"
    "assert_retry_admission r n intent now = Inr ()"
    "publish_archive now (retry_dispatch intent n now r) r d = Inr dp"
    "r' = stamp_record now (requeued n r)"
    "s' = with_record (strip j) r' (put_dir (strip j) (reset_active_attempt_ledgers dp) s)"
proof -
  obtain jid where jid: "safe_job_id j = Inr jid"
    using assms by (cases "safe_job_id j") (simp_all add: prepare_retry_def)
  then have same: "read_job_record s jid = read_job_record s j"
    using safe_job_id_idem [OF jid] by (simp add: read_job_record_def)
  obtain r where r: "read_job_record s j = Inr r"
    using assms jid by (cases "read_job_record s j") (simp_all add: prepare_retry_def same)
  note read = r same [unfolded r]
  have adm: "assert_retry_admission r n intent now = Inr ()"
    using assms jid read by (cases "assert_retry_admission r n intent now") (simp_all add: prepare_retry_def)
  obtain d where d: "get_dir s jid = Some d" "jid = strip j"
    using read jid by (auto simp: read_Inr safe_job_id_Inr)
  obtain dp where pub: "publish_archive now (retry_dispatch intent n now r) r d = Inr dp"
    using assms jid read adm d
    by (cases "publish_archive now (retry_dispatch intent n now r) r d")
       (simp_all add: prepare_retry_def archive_attempt_def)
  show ?thesis
    using that [OF read(1) _ adm pub] prepare_retry_commits [OF read(1) adm _ pub] d assms by auto
qed

lemma prepare_retry_cases:
  assumes run: "prepare_retry j n intent now s = (res, s')"
  obtains (refused) e where "res = Inl e" "s' = s" | (commits) r' where "res = Inr r'"
proof (cases "bindE (safe_job_id j) (\<lambda>jid.
           bindE (read_job_record s jid) (\<lambda>r.
           bindE (assert_retry_admission r n intent now) (\<lambda>_.
           case get_dir s jid of
             None \<Rightarrow> Inl (JobErr E_JOB_UNKNOWN)
           | Some d \<Rightarrow>
               bindE (archive_attempt now (retry_dispatch intent n now r) r d) (\<lambda>d'.
               Inr (jid, r, put_dir jid d' s)))))")
  case (Inl e)
  then show ?thesis using run refused [of e] by (simp add: prepare_retry_def)
next
  case (Inr x)
  then obtain jid r where jid: "safe_job_id j = Inr jid" and read: "read_job_record s jid = Inr r"
      and adm: "assert_retry_admission r n intent now = Inr ()"
    by (auto simp: result_simps)
  obtain d where d: "get_dir s jid = Some d"
    using Inr jid read adm by (cases "get_dir s jid") simp_all
  obtain dp where pub: "publish_archive now (retry_dispatch intent n now r) r d = Inr dp"
    using Inr jid read adm d
    by (cases "publish_archive now (retry_dispatch intent n now r) r d") (simp_all add: archive_attempt_def)
  have "read_job_record s j = read_job_record s jid"
    unfolding read_job_record_def jid safe_job_id_idem [OF jid] by simp
  moreover have "jid = strip j" using jid by (simp add: safe_job_id_Inr)
  ultimately have "jid = strip j" "read_job_record s j = Inr r" using read by simp_all
  then show ?thesis
    using prepare_retry_commits [OF _ adm _ pub] d run commits by auto
qed

end
