(* ===== verification/JobRetrySafety.thy ===== *)
theory JobRetrySafety
  imports JobArchive JobDemo
begin

text \<open>
  Properties of the retry transaction, of classification and backoff, and of the selection for
  garbage collection.
\<close>

section \<open>Evidence\<close>

definition holds_evidence :: "archive \<Rightarrow> job_dir \<Rightarrow> bool" where
  \<comment> \<open>the archive carries the ledgers and artifacts of the directory\<close>
  "holds_evidence ar d \<longleftrightarrow> ar_stdout ar = copy_file_if_present (jd_stdout d)
     \<and> ar_stderr ar = copy_file_if_present (jd_stderr d)
     \<and> ar_events ar = copy_file_if_present (jd_events d) \<and> ar_artifacts ar = jd_artifacts d"

lemma staged_holds_evidence [simp]: "holds_evidence (staged_archive now dispatch r d) d"
  by (simp add: holds_evidence_def staged_archive_def)

lemma reset_fields [simp]:
  "jd_attempts (reset_active_attempt_ledgers d) = jd_attempts d"
  "jd_job (reset_active_attempt_ledgers d) = jd_job d"
  "jd_prompt (reset_active_attempt_ledgers d) = jd_prompt d"
  by (simp_all add: reset_active_attempt_ledgers_def)


definition demo_failed :: job_record where
  "demo_failed = (demo_record FAILED JNull)\<lparr>j_retry_class := JStr ''manual_only''\<rparr>"

lemma demo_failed_facts [simp]:
  "job_inv demo_failed" "j_job_id demo_failed = JStr demo_id" "j_attempt demo_failed = 1"
  using job_inv_demo [of JNull FAILED]
  by (simp_all add: demo_failed_def job_inv_def job_ints_ok_def job_strs_ok_def job_objs_ok_def
      lease_ok_def null_or_def RETRY_CLASSES_def)

lemma demo_failed_admitted [simp]: "assert_retry_admission demo_failed 2 EXPLICIT now = Inr ()"
  by (simp add: assert_retry_admission_def demo_failed_def demo_record_def ACP_SESSION_PROVIDER_def
      RETRYABLE_TERMINAL_STATES_def RETRY_CLASSES_def)

lemma demo_archive_absent [simp]:
  "attempt_archive_complete (jd_attempts (demo_dir r) a) b = Inr False"
  by (simp add: demo_dir_def attempt_archive_complete_def)





section \<open>Automatic retry\<close>

text \<open>Only a failed attempt is ever classified for automatic retry, and only on strict
  evidence: an exit object whose \<open>timed_out\<close> and \<open>overflow\<close> are booleans or absent, whose class
  is none of the fail-closed ones, and which says timeout, overflow or an explicit retryable
  (by class or by a JSON \<open>true\<close>); every classification is one of the four known classes.\<close>

theorem automatic_only_on_evidence:
  "fst (classify_retry (Some st) e) \<in> RETRY_CLASSES
   \<and> (fst (classify_retry (Some st) e) = ''automatic'' \<longrightarrow>
       st \<notin> {SUCCEEDED, CANCELLED, LOST} \<and> (\<exists>d. e = JObj d
         \<and> null_or is_bool (dget d ''timed_out'') \<and> null_or is_bool (dget d ''overflow'')
         \<and> exit_class_of d \<notin> {[], ''success'', ''cancelled'', ''auth_blocked'', ''permission'',
             ''destructive_confirmation'', ''spawn_error'', ''malformed'', ''parse_error'', ''unknown''}
         \<and> (exit_class_of d \<in> {''timeout'', ''overflow'', ''retryable''}
            \<or> dget d ''timed_out'' = JBool True \<or> dget d ''overflow'' = JBool True
            \<or> dget d ''retryable'' = JBool True)))"
proof (intro conjI impI classify_retry_class)
  assume auto: "fst (classify_retry (Some st) e) = ''automatic''"
  note state = classify_retry_automatic [OF auto]
  then show "st \<notin> {SUCCEEDED, CANCELLED, LOST}" by blast
  from state obtain d where d: "e = JObj d" by auto
  then have "fst (classify_exit d) = ''automatic''"
    using auto state by (auto simp: classify_retry_def split: job_state.split_asm)
  from classify_exit_automatic [OF this] d
  show "\<exists>d. e = JObj d
         \<and> null_or is_bool (dget d ''timed_out'') \<and> null_or is_bool (dget d ''overflow'')
         \<and> exit_class_of d \<notin> {[], ''success'', ''cancelled'', ''auth_blocked'', ''permission'',
             ''destructive_confirmation'', ''spawn_error'', ''malformed'', ''parse_error'', ''unknown''}
         \<and> (exit_class_of d \<in> {''timeout'', ''overflow'', ''retryable''}
            \<or> dget d ''timed_out'' = JBool True \<or> dget d ''overflow'' = JBool True
            \<or> dget d ''retryable'' = JBool True)" by blast
qed

theorem automatic_only_on_evidence_witness:
  "fst (classify_retry (Some FAILED) (JObj [(''class'', JStr ''nonzero''), (''retryable'', JBool True)]))
     \<in> RETRY_CLASSES"
  using automatic_only_on_evidence by blast

text \<open>C39: The delay before the n-th automatic retry is ten seconds doubled n-1 times, capped at
  five minutes: the cap on the exponent that keeps the power small is not observable.  It never
  shrinks with the attempt number.\<close>

theorem backoff_is_capped_doubling:
  assumes "1 \<le> n" "n \<le> m"
  shows "auto_retry_delay n = min (10000000 * 2 ^ nat (n - 1)) 300000000
    \<and> auto_retry_delay n \<le> auto_retry_delay m \<and> auto_retry_delay m \<le> 300000000"
proof (cases "n \<le> 17")
  case True
  then have "max 0 (min MAX_BACKOFF_EXPONENT (n - 1)) = n - 1"
    using assms by (simp add: MAX_BACKOFF_EXPONENT_def)
  then have "auto_retry_delay n = min (10000000 * 2 ^ nat (n - 1)) 300000000"
    by (simp add: auto_retry_delay_def AUTO_RETRY_BASE_DELAY_def AUTO_RETRY_MAX_DELAY_def)
  then show ?thesis
    using auto_retry_delay_mono [OF assms(2)] auto_retry_delay_range(2) [of m]
    unfolding AUTO_RETRY_MAX_DELAY_def by blast
next
  case False
  then have "(2 :: int) ^ 16 \<le> 2 ^ nat (n - 1)" by (intro power_increasing) auto
  then have "min (10000000 * 2 ^ nat (n - 1)) 300000000 = (300000000 :: int)" by simp
  then show ?thesis
    using False auto_retry_delay_saturated [of n] auto_retry_delay_mono [OF assms(2)]
      auto_retry_delay_range [of m]
    by (simp add: AUTO_RETRY_MAX_DELAY_def)
qed

theorem backoff_is_capped_doubling_witness: "auto_retry_delay 3 = 40000000"
  using backoff_is_capped_doubling [of 3 4] by simp

text \<open>C38: The pure decision of the scheduler and the admission check that the retry repeats under
  the lock agree: the scheduler calls a record eligible (and its provider is not the internal
  one) exactly when the admission of the next attempt succeeds at the same clock reading; and a
  record once eligible stays eligible as the clock advances.\<close>

theorem scheduler_decision_is_admission:
  assumes "now \<le> later"
  shows "(assert_retry_admission r (j_attempt r + 1) AUTOMATIC now = Inr () \<longleftrightarrow>
       j_provider r \<noteq> JStr ACP_SESSION_PROVIDER \<and> d_action (evaluate_auto_retry r now) = ''eligible'')
    \<and> (d_action (evaluate_auto_retry r now) = ''eligible'' \<longrightarrow>
       d_action (evaluate_auto_retry r later) = ''eligible'')"
proof -
  have iff: "d_action (evaluate_auto_retry r t) = ''eligible'' \<longleftrightarrow>
      (\<exists>due. assert_automatic_retry_admission r (j_attempt r + 1) t = Inr due)" for t
    by (rule evaluate_action_eligible)
  have "assert_automatic_retry_admission r a now = Inr due \<Longrightarrow>
      assert_automatic_retry_admission r a later = Inr due" for a due
    using assms by (auto simp: automatic_admission_Inr split: prod.splits)
  then show ?thesis
    using iff by (auto simp: assert_retry_admission_def result_simps)
qed

theorem scheduler_decision_is_admission_witness:
  "assert_retry_admission demo_failed 2 AUTOMATIC 50 = Inr () \<longleftrightarrow>
     j_provider demo_failed \<noteq> JStr ACP_SESSION_PROVIDER
     \<and> d_action (evaluate_auto_retry demo_failed 50) = ''eligible''"
  using scheduler_decision_is_admission [of 50 60 demo_failed] by simp

section \<open>Garbage collection\<close>

lemma filterE_set: "filterE p xs = Inr ys \<Longrightarrow> y \<in> set ys \<longleftrightarrow> y \<in> set xs \<and> p y = Inr True"
  by (induction xs arbitrary: ys) (auto simp: result_simps split: if_split_asm)

lemma gc_eligible_True: "gc_eligible s cutoff jid = Inr True \<longleftrightarrow>
    (\<exists>r stamp. read_job_record s jid = Inr r
      \<and> j_state r \<in> TERMINAL_STATES \<and> retention_stamp r = Some stamp \<and> stamp \<le> cutoff)"
proof (cases "read_job_record s jid")
  case (Inl e)
  then show ?thesis by (cases e) (simp_all add: gc_eligible_def)
next
  case (Inr r)
  then show ?thesis by (cases "retention_stamp r") (simp_all add: gc_eligible_def)
qed

text \<open>The jobs offered to garbage collection are exactly the listed ones whose record is
  readable, in a terminal state, and stamped no later than the retention before the clock
  reading; a job that is queued, starting or running is never offered.\<close>

theorem gc_offers_only_old_terminal:
  assumes "gc_candidates s days now = Inr ids" "validate_retention_days days = Inr retention"
  shows "jid \<in> set ids \<longleftrightarrow> jid \<in> set (list_job_ids s) \<and> (\<exists>r stamp. read_job_record s jid = Inr r
      \<and> j_state r \<in> TERMINAL_STATES \<and> retention_stamp r = Some stamp \<and> stamp \<le> now - retention)"
proof -
  have "jid \<in> set ids \<longleftrightarrow> jid \<in> set (list_job_ids s) \<and> gc_eligible s (now - retention) jid = Inr True"
    using assms filterE_set by (fastforce simp: gc_candidates_def)
  also have "gc_eligible s (now - retention) jid = Inr True \<longleftrightarrow> (\<exists>r stamp. read_job_record s jid = Inr r
      \<and> j_state r \<in> TERMINAL_STATES \<and> retention_stamp r = Some stamp \<and> stamp \<le> now - retention)"
    by (rule gc_eligible_True)
  finally show ?thesis .
qed

theorem gc_offers_only_old_terminal_witness:
  "\<exists>ids. gc_candidates (demo_store demo_failed) (PFin CHR ''0'' ''.0'' 0 0) 100 = Inr ids \<and> demo_id \<in> set ids"
proof -
  have "JOB_ID_RE demo_id" by code_simp
  then have ids: "list_job_ids (demo_store demo_failed) = [demo_id]"
    by (simp add: list_job_ids_def demo_store_def demo_dir_def)
  have read: "read_job_record (demo_store demo_failed) demo_id = Inr demo_failed"
    by (simp add: read_demo)
  have stamp: "j_state demo_failed \<in> TERMINAL_STATES \<and> retention_stamp demo_failed = Some 0"
    by (simp add: demo_failed_def demo_record_def TERMINAL_STATES_def retention_stamp_def
        parse_iso_ts_def utc_now_def)
  then have "gc_eligible (demo_store demo_failed) 100 demo_id = Inr True"
    using read by (auto simp: gc_eligible_True)
  then have "gc_candidates (demo_store demo_failed) (PFin CHR ''0'' ''.0'' 0 0) 100 = Inr [demo_id]"
    by (simp add: gc_candidates_def validate_retention_days_def round_half_even_def ids)
  moreover have "validate_retention_days (PFin CHR ''0'' ''.0'' 0 0) = Inr 0" by (simp add: validate_retention_days_def round_half_even_def)
  ultimately show ?thesis
    using gc_offers_only_old_terminal [of "demo_store demo_failed" "PFin CHR ''0'' ''.0'' 0 0" 100 "[demo_id]" 0 demo_id]
    by auto
qed

end
