(* ===== verification/JobDocument.thy ===== *)
theory JobDocument
  imports JobArchive JobDemo
begin

text \<open>
  Properties of the documents of a job: \<open>job.json\<close> survives being written and read, the reader
  fails closed up to two exceptions that escape it, a lease is normalized once and for all,
  and the public view shows neither the owner token nor the binary of the provider.
\<close>

text \<open>C27: The records that survive being written to \<open>job.json\<close> and read back unchanged are exactly
  the well-formed ones, and the reader returns only such records.\<close>

theorem job_document_roundtrip:
  "(from_dict (JObj (to_dict r)) = Inr r \<longleftrightarrow> job_inv r)
   \<and> (\<forall>v r'. from_dict v = Inr r' \<longrightarrow> from_dict (JObj (to_dict r')) = Inr r')"
  using from_dict_inv from_dict_to_dict by blast

theorem job_document_roundtrip_witness:
  "from_dict (JObj (to_dict (demo_record QUEUED JNull))) = Inr (demo_record QUEUED JNull)"
  using job_document_roundtrip [of "demo_record QUEUED JNull"] job_inv_demo [of JNull QUEUED] by blast

lemma reader_raises [raises_intro]:
  "es = {job_malformed, lease_malformed, PyExc OverflowError, PyExc TypeError} \<Longrightarrow>
     raises_only es (job_int E_JOB_MALFORMED v)"
  "es = {job_malformed, lease_malformed, PyExc OverflowError, PyExc TypeError} \<Longrightarrow>
     raises_only es (read_artifacts d)"
  "es = {job_malformed, lease_malformed, PyExc OverflowError, PyExc TypeError} \<Longrightarrow>
     raises_only es (read_worker d)"
  "es = {job_malformed, lease_malformed, PyExc OverflowError, PyExc TypeError} \<Longrightarrow>
     raises_only es (read_request d)"
  "es = {job_malformed, lease_malformed, PyExc OverflowError, PyExc TypeError} \<Longrightarrow>
     raises_only es (read_provider_process d)"
  "es = {job_malformed, lease_malformed, PyExc OverflowError, PyExc TypeError} \<Longrightarrow>
     raises_only es (read_owner_lease d a)"
  "es = {job_malformed, lease_malformed, PyExc OverflowError, PyExc TypeError} \<Longrightarrow>
     raises_only es (validate_recovery_meta v)"
  by (auto simp: raises_only_def read_artifacts_def read_worker_def read_request_def
      read_provider_process_def read_owner_lease_def Let_def result_simps
      dest!: job_int_Inl validate_owner_lease_Inl validate_recovery_meta_Inl
      simp flip: job_malformed_def split: json.split_asm if_split_asm)

text \<open>Reading a \<open>job.json\<close> either returns a well-formed record or raises one of four
  exceptions: the two documented malformed codes, and two Python exceptions that are no
  \<open>JobStoreError\<close>, \<open>OverflowError\<close> and \<open>TypeError\<close>.\<close>

theorem job_reader_errors:
  "(\<forall>e. from_dict v = Inl e \<longrightarrow>
      e \<in> {JobErr E_JOB_MALFORMED, JobErr E_JOB_LEASE_MALFORMED, PyExc OverflowError, PyExc TypeError})
   \<and> (\<forall>r. from_dict v = Inr r \<longrightarrow> job_inv r)"
proof -
  let ?es = "{job_malformed, lease_malformed, PyExc OverflowError, PyExc TypeError}"
  have "raises_only ?es (from_dict v)"
    unfolding from_dict_def
    by (cases v) (simp_all only: json.case, (intro raises_intro refl; simp)+)
  then show ?thesis
    using from_dict_inv by (auto simp: raises_only_def job_malformed_def lease_malformed_def)
qed

definition infinite_attempt :: "job_record \<Rightarrow> json" where
  \<comment> \<open>the document of a record with \<open>"attempt": Infinity\<close>, which \<open>json.loads\<close> accepts\<close>
  "infinite_attempt r = JObj (dset (to_dict r) ''attempt'' (JFloat PInf))"

lemma from_dict_infinite_attempt:
  assumes "job_inv r"
  shows "from_dict (infinite_attempt r) = Inl (PyExc OverflowError)"
proof -
  have "j_schema r = 1" "required_str (to_dict r) ''job_id''" "required_str (to_dict r) ''created_at''"
      "required_str (to_dict r) ''provider''" "required_str (to_dict r) ''role''"
    using assms by (simp_all add: job_inv_def job_ints_ok_def job_strs_ok_def required_str_def)
  then show ?thesis
    by (simp add: from_dict_def infinite_attempt_def required_str_def job_int_def py_int_def
        nonempty_str_def)
qed

theorem job_reader_errors_witness:
  "from_dict (infinite_attempt (demo_record FAILED JNull)) = Inl (PyExc OverflowError)
   \<and> PyExc OverflowError \<in>
      {JobErr E_JOB_MALFORMED, JobErr E_JOB_LEASE_MALFORMED, PyExc OverflowError, PyExc TypeError}"
  using job_reader_errors [of "infinite_attempt (demo_record FAILED JNull)"]
    from_dict_infinite_attempt [of "demo_record FAILED JNull"] job_inv_demo [of JNull FAILED] by blast

lemma filterE_Inl: "x \<in> set xs \<Longrightarrow> p x = Inl e \<Longrightarrow> \<exists>y e'. y \<in> set xs \<and> p y = Inl e' \<and> filterE p xs = Inl e'"
proof (induction xs)
  case (Cons y xs)
  show ?case
  proof (cases "p y")
    case (Inl e')
    then show ?thesis by auto
  next
    case (Inr b)
    then obtain z e' where "z \<in> set xs" "p z = Inl e'" "filterE p xs = Inl e'"
      using Cons by auto
    then show ?thesis using Inr by auto
  qed
qed simp

lemma gc_eligible_Inl: "gc_eligible s cutoff jid = Inl e \<Longrightarrow> \<exists>x. e = PyExc x"
proof -
  assume a: "gc_eligible s cutoff jid = Inl e"
  show ?thesis
  proof (cases "read_job_record s jid")
    case (Inl e')
    then show ?thesis using a by (cases e') (auto simp: gc_eligible_def)
  next
    case (Inr r)
    then show ?thesis using a by (simp add: gc_eligible_def)
  qed
qed

text \<open>One job whose \<open>job.json\<close> makes the reader raise a Python exception that is no
  \<open>JobStoreError\<close> (an attempt of \<open>Infinity\<close> is one) stops the whole collection: no candidate
  at all is returned, although unreadable records are documented to be skipped.\<close>

theorem unreadable_job_stops_gc:
  assumes "jid \<in> set (list_job_ids s)" "read_job_record s jid = Inl (PyExc e)"
    and "validate_retention_days days = Inr retention"
  shows "\<exists>e'. gc_candidates s days now = Inl (PyExc e')"
proof -
  have "gc_eligible s (now - retention) jid = Inl (PyExc e)"
    using assms(2) by (simp add: gc_eligible_def)
  from filterE_Inl [OF assms(1), of "gc_eligible s (now - retention)", OF this] show ?thesis
    using assms(3) gc_eligible_Inl by (fastforce simp: gc_candidates_def)
qed

definition poisoned_store :: job_store where
  "poisoned_store = put_dir demo_id ((demo_dir (demo_record FAILED JNull))\<lparr>
     jd_job := Some (Doc (infinite_attempt (demo_record FAILED JNull)))\<rparr>) \<lparr>jobs = [], quarantine = []\<rparr>"

theorem unreadable_job_stops_gc_witness: "\<exists>e. gc_candidates poisoned_store (PFin CHR ''3'' ''0.0'' 30 0) 0 = Inl (PyExc e)"
proof (rule unreadable_job_stops_gc)
  have "JOB_ID_RE demo_id" by code_simp
  then show "demo_id \<in> set (list_job_ids poisoned_store)"
    by (simp add: poisoned_store_def list_job_ids_def put_dir_def)
  show "read_job_record poisoned_store demo_id = Inl (PyExc OverflowError)"
    using from_dict_infinite_attempt [of "demo_record FAILED JNull"] job_inv_demo [of JNull FAILED]
    by (simp add: poisoned_store_def read_job_record_def infinite_attempt_def)
  show "validate_retention_days (PFin CHR ''3'' ''0.0'' 30 0) = Inr 2592000000000"
    by (simp add: validate_retention_days_def round_half_even_def)
qed

text \<open>Validating a lease is a normalization: what it accepts satisfies the order
  \<open>acquired <= heartbeat < expires\<close> with at most a day between the last two, and the
  normalized dictionary validates again, under the same expectations, to the same lease.\<close>

theorem lease_normal_form:
  assumes "validate_owner_lease v expected_attempt require_active = Inr l"
  shows "validate_owner_lease (lease_obj l) expected_attempt require_active = Inr l
    \<and> acquired_at l \<le> heartbeat_at l \<and> heartbeat_at l < expires_at l
    \<and> expires_at l \<le> heartbeat_at l + 24 * 3600 * 1000000
    \<and> 1 \<le> lease_attempt l \<and> owner_token_re (owner_token l)"
  using validate_owner_lease_inv [OF assms]
  by (simp add: validate_owner_lease_obj lease_inv_def MAX_LEASE_TTL_def)

theorem lease_normal_form_witness:
  "validate_owner_lease (lease_obj demo_lease) (Some 1) True = Inr demo_lease"
proof -
  have "validate_owner_lease (lease_obj demo_lease) (Some 1) True = Inr demo_lease"
    by (simp add: validate_owner_lease_obj) (simp add: demo_lease_def)
  from lease_normal_form [OF this] show ?thesis by blast
qed

text \<open>The public status of a well-formed record always exists, and shows no owner token in
  the lease, no provider binary in the request, no start time or handle of the provider process
  and none of the worker knobs.\<close>

theorem public_status_redacted:
  assumes "job_inv r"
  shows "\<exists>d pp. public_status r = Inr d \<and> \<not> has_key d ''worker''
    \<and> (\<forall>o'. dget d ''owner_lease'' = JObj o' \<longrightarrow> \<not> has_key o' ''owner_token'')
    \<and> (\<forall>q. dget d ''request'' = JObj q \<longrightarrow> \<not> has_key q ''provider_binary'')
    \<and> dget d ''provider_process'' = JObj pp \<and> \<not> has_key pp ''pid_starttime'' \<and> \<not> has_key pp ''handle''"
proof -
  have "\<exists>v. public_lease (j_owner_lease r) = Inr v \<and> (\<forall>o'. v = JObj o' \<longrightarrow> \<not> has_key o' ''owner_token'')"
    using assms by (auto simp: job_inv_def lease_ok_def lease_fits_def public_lease_def
      public_lease_summary_def validate_owner_lease_obj)
  then obtain v where v: "public_lease (j_owner_lease r) = Inr v"
      "\<forall>o'. v = JObj o' \<longrightarrow> \<not> has_key o' ''owner_token''" by blast
  have "public_request_summary (j_request r) = JObj q \<Longrightarrow> \<not> has_key q ''provider_binary''" for q
    by (auto simp: public_request_summary_def split: if_split_asm)
  then show ?thesis
    using v by (simp add: public_status_def)
qed

theorem public_status_redacted_witness: "is_Inr (public_status (demo_record QUEUED JNull))"
  using public_status_redacted [OF job_inv_demo [of JNull QUEUED]] by (auto simp: is_Inr_def)

end
