(* ===== verification/StateSchemas.thy ===== *)
theory StateSchemas
  imports PyValues
begin

text \<open>
  The validation vocabulary of the contract modules (\<open>contracts/state_schemas.py\<close>): each
  \<open>require_*\<close> returns the value it accepts or raises \<open>ContractValidationError\<close>.  The other
  exception classes of the workflow packages are constructors of the same type, and a built-in
  exception of Python is \<open>Raised\<close>.
\<close>

datatype wf_exc =
    ContractValidationError
  | WorkflowSchemaError
  | WorkflowReplayError
  | WorkflowReviewError
  | WorkflowRegistryError
  | Raised py_exc

definition text_val :: "json \<Rightarrow> string option" where
  \<comment> \<open>the characters of a string value\<close>
  "text_val v = (if is_str v then Some (text_of v) else None)"

lemma text_val_simps [simp]:
  "text_val (JStr s) = Some s" "text_val (JTime t) = Some (iso_text t)" "text_val JNull = None"
  "text_val (JBool b) = None" "text_val (JInt i) = None" "text_val (JFloat f) = None"
  "text_val (JList xs) = None" "text_val (JObj d) = None"
  by (simp_all add: text_val_def text_of_def)

definition text_in :: "json \<Rightarrow> string list \<Rightarrow> bool" where
  \<comment> \<open>\<open>v in (a, b, ...)\<close> for strings \<open>a\<close>, \<open>b\<close>, ...\<close>
  "text_in v ss = (case text_val v of Some s \<Rightarrow> s \<in> set ss | None \<Rightarrow> False)"

lemma text_in_JStr [simp]: "text_in (JStr s) ss \<longleftrightarrow> s \<in> set ss"
  by (simp add: text_in_def)

fun split_on :: "char \<Rightarrow> string \<Rightarrow> string list" where
  \<comment> \<open>\<open>s.split(c)\<close>\<close>
  "split_on c [] = [[]]"
| "split_on c (x # xs) = (if x = c then [] # split_on c xs
     else (case split_on c xs of [] \<Rightarrow> [[x]] | y # ys \<Rightarrow> (x # y) # ys))"

definition posix_parts :: "string \<Rightarrow> string list" where
  \<comment> \<open>\<open>PurePosixPath(s).parts\<close> without the root\<close>
  "posix_parts s = filter (\<lambda>p. p \<noteq> [] \<and> p \<noteq> ''.'') (split_on CHR ''/'' s)"

definition posix_name :: "string \<Rightarrow> string" where
  \<comment> \<open>\<open>PurePosixPath(s).name\<close>\<close>
  "posix_name s = (case rev (posix_parts s) of [] \<Rightarrow> [] | p # _ \<Rightarrow> p)"

definition posix_normal :: "string \<Rightarrow> bool" where
  \<comment> \<open>\<open>str(PurePosixPath(s)) == s\<close> for a relative path\<close>
  "posix_normal s \<longleftrightarrow> (if posix_parts s = [] then ''.'' else join ''/'' (posix_parts s)) = s"

definition string_array :: "json \<Rightarrow> wf_exc + string list" where
  \<comment> \<open>\<open>isinstance(v, list) and all(isinstance(item, str) for item in v)\<close>\<close>
  "string_array v = (case v of
     JList xs \<Rightarrow> (case those (map text_val xs) of Some ss \<Rightarrow> Inr ss | None \<Rightarrow> Inl ContractValidationError)
   | _ \<Rightarrow> Inl ContractValidationError)"

definition strings :: "json \<Rightarrow> string list" where
  \<comment> \<open>the items of an array of strings\<close>
  "strings v = (case v of JList xs \<Rightarrow> map text_of (filter is_str xs) | _ \<Rightarrow> [])"

definition is_id_char :: "char \<Rightarrow> bool" where
  \<comment> \<open>\<open>[A-Za-z0-9._-]\<close>\<close>
  "is_id_char c \<longleftrightarrow> is_ascii_alnum c \<or> c = CHR ''.'' \<or> c = CHR ''_'' \<or> c = CHR ''-''"

definition SAFE_ID_RE :: "string \<Rightarrow> bool" where
  "SAFE_ID_RE s = (case s of [] \<Rightarrow> False
     | c # cs \<Rightarrow> is_ascii_alnum c \<and> list_all is_id_char cs \<and> length cs \<le> 127)"

definition SHA256_RE :: "string \<Rightarrow> bool" where
  "SHA256_RE s \<longleftrightarrow> length s = 64 \<and> list_all is_lower_hex s"

definition GIT_OID_RE :: "string \<Rightarrow> bool" where
  "GIT_OID_RE s \<longleftrightarrow> (length s = 40 \<or> length s = 64) \<and> list_all is_lower_hex s"

definition require_object :: "json \<Rightarrow> wf_exc + dict" where
  "require_object v = (case v of JObj d \<Rightarrow> Inr d | _ \<Rightarrow> Inl ContractValidationError)"

definition require_exact_keys :: "dict \<Rightarrow> string list \<Rightarrow> string list \<Rightarrow> wf_exc + unit" where
  \<comment> \<open>the required and the optional keys\<close>
  "require_exact_keys d required optional =
     check (list_all (has_key d) required
        \<and> list_all (\<lambda>k. k \<in> set required \<or> k \<in> set optional) (map fst d)) ContractValidationError"

definition printable :: "string \<Rightarrow> bool" where
  "printable s \<longleftrightarrow> list_all (\<lambda>c. 32 \<le> code_point c) s"

definition require_nonempty_string :: "json \<Rightarrow> wf_exc + string" where
  "require_nonempty_string v = (case text_val v of
     Some s \<Rightarrow> if s \<noteq> [] \<and> printable s then Inr s else Inl ContractValidationError
   | None \<Rightarrow> Inl ContractValidationError)"

definition require_safe_id :: "json \<Rightarrow> wf_exc + string" where
  "require_safe_id v = bindE (require_nonempty_string v) (\<lambda>s.
     bindE (check (SAFE_ID_RE s) ContractValidationError) (\<lambda>_. Inr s))"

definition require_sha256 :: "json \<Rightarrow> wf_exc + string" where
  "require_sha256 v = (case text_val v of
     Some s \<Rightarrow> if SHA256_RE s then Inr s else Inl ContractValidationError
   | None \<Rightarrow> Inl ContractValidationError)"

definition require_git_oid :: "json \<Rightarrow> wf_exc + string" where
  "require_git_oid v = (case text_val v of
     Some s \<Rightarrow> if GIT_OID_RE s then Inr s else Inl ContractValidationError
   | None \<Rightarrow> Inl ContractValidationError)"

definition require_integer :: "json \<Rightarrow> int option \<Rightarrow> wf_exc + int" where
  "require_integer v minimum = (case v of
     JInt i \<Rightarrow> if (case minimum of Some m \<Rightarrow> i < m | None \<Rightarrow> False)
               then Inl ContractValidationError else Inr i
   | _ \<Rightarrow> Inl ContractValidationError)"

definition require_string_list :: "json \<Rightarrow> bool \<Rightarrow> wf_exc + string list" where
  "require_string_list v unique = (case v of
     JList xs \<Rightarrow> bindE (mapE require_nonempty_string xs) (\<lambda>ss.
       bindE (check (unique \<longrightarrow> distinct ss) ContractValidationError) (\<lambda>_. Inr ss))
   | _ \<Rightarrow> Inl ContractValidationError)"

definition require_iso8601 :: "json \<Rightarrow> wf_exc + json" where
  "require_iso8601 v = bindE (require_nonempty_string v) (\<lambda>_.
     case v of JTime (Aware t) \<Rightarrow> Inr v | _ \<Rightarrow> Inl ContractValidationError)"

definition validate_store_header :: "dict \<Rightarrow> string \<Rightarrow> int \<Rightarrow> wf_exc + unit" where
  "validate_store_header d store_kind schema_version =
     bindE (check (text_in (dget d ''store_kind'') [store_kind]) ContractValidationError) (\<lambda>_.
     bindE (require_integer (dget d ''schema_version'') (Some 1)) (\<lambda>version.
     check (version = schema_version) ContractValidationError))"

section \<open>What the validators accept\<close>

named_theorems require_simps \<open>what a successful validator says of its argument\<close>

lemma require_object_Inr [require_simps]: "require_object v = Inr d \<longleftrightarrow> v = JObj d"
  by (auto simp: require_object_def split: json.splits)

lemma require_exact_keys_Inr [require_simps]:
  "require_exact_keys d req opt = Inr u \<longleftrightarrow>
     (\<forall>k \<in> set req. has_key d k) \<and> (\<forall>k. has_key d k \<longrightarrow> k \<in> set req \<union> set opt)"
  by (auto simp: require_exact_keys_def check_eq_Inr list_all_iff has_key_def)

lemma require_nonempty_string_Inr [require_simps]:
  "require_nonempty_string v = Inr s \<longleftrightarrow> text_val v = Some s \<and> s \<noteq> [] \<and> printable s"
  by (auto simp: require_nonempty_string_def split: option.splits)

lemma require_safe_id_Inr [require_simps]:
  "require_safe_id v = Inr s \<longleftrightarrow> text_val v = Some s \<and> s \<noteq> [] \<and> printable s \<and> SAFE_ID_RE s"
  by (auto simp: require_safe_id_def result_simps require_simps)

lemma require_sha256_Inr [require_simps]:
  "require_sha256 v = Inr s \<longleftrightarrow> text_val v = Some s \<and> SHA256_RE s"
  by (auto simp: require_sha256_def split: option.splits)

lemma require_integer_Inr [require_simps]:
  "require_integer v (Some m) = Inr i \<longleftrightarrow> v = JInt i \<and> m \<le> i"
  by (auto simp: require_integer_def split: json.splits)

lemma those_text_val: "those (map text_val xs) = Some ss \<longleftrightarrow> list_all is_str xs \<and> ss = map text_of xs"
  by (induction xs arbitrary: ss) (auto simp: text_val_def)

lemma string_array_Inr [require_simps]:
  "string_array v = Inr ss \<longleftrightarrow> (\<exists>xs. v = JList xs \<and> list_all is_str xs) \<and> ss = strings v"
proof (cases v)
  case (JList xs)
  show ?thesis
  proof (cases "list_all is_str xs")
    case True
    then have "those (map text_val xs) = Some (map text_of xs)" by (simp add: those_text_val)
    moreover have "filter is_str xs = xs" using True by (simp add: list_all_iff)
    ultimately show ?thesis using True by (auto simp: JList string_array_def strings_def)
  next
    case False
    then have "those (map text_val xs) = None"
      using those_text_val [of xs] by (cases "those (map text_val xs)") auto
    then show ?thesis using False by (simp add: JList string_array_def)
  qed
qed (simp_all add: string_array_def)

lemma require_raises [raises_intro]:
  "raises_only {ContractValidationError} (require_object v)"
  "raises_only {ContractValidationError} (require_exact_keys d req opt)"
  "raises_only {ContractValidationError} (require_nonempty_string v)"
  "raises_only {ContractValidationError} (require_safe_id v)"
  "raises_only {ContractValidationError} (require_sha256 v)"
  "raises_only {ContractValidationError} (require_integer v m)"
  "raises_only {ContractValidationError} (string_array v)"
  by (auto simp: string_array_def raises_only_def require_object_def require_exact_keys_def check_def
      require_nonempty_string_def require_safe_id_def require_sha256_def require_integer_def bindE_def
      split: json.splits option.splits sum.splits if_splits)

end
