(* ===== verification/CanonicalJson.thy ===== *)
theory CanonicalJson
  imports StateSchemas "HOL-Library.Word" "HOL-Library.List_Lexorder" "HOL-Library.Char_ord"
begin

text \<open>
  Canonical JSON v1 and its digest (\<open>contracts/writer_chain.py\<close>): the compact encoding with
  sorted keys that every digest of the program is taken of, its parser, and SHA-256 over the UTF-8
  bytes.  The bytes of the characters of the model are one or two each.  The parser is given the
  length of the text as fuel, which is enough because every call consumes a character.  In the
  modules that import this one a string is only used through its characters, so the parser
  returns every string as \<open>JStr\<close>.
\<close>

unbundle bit_operations_syntax

section \<open>The encoding\<close>

fun canonical_ok :: "json \<Rightarrow> bool" where
  \<comment> \<open>\<open>_validate_canonical_value\<close>: no floats\<close>
  "canonical_ok (JFloat f) = False"
| "canonical_ok (JList xs) = list_all canonical_ok xs"
| "canonical_ok (JObj d) = list_all (\<lambda>(k, v). canonical_ok v) d"
| "canonical_ok v = True"

definition escape_char :: "char \<Rightarrow> string" where
  \<comment> \<open>as \<open>json.dumps(..., ensure_ascii=False)\<close> writes a character\<close>
  "escape_char c = (let n = code_point c; bs = char_of (92 :: nat) in
     if n = 34 \<or> n = 92 then [bs, c]
     else if n = 8 then [bs, CHR ''b''] else if n = 9 then [bs, CHR ''t'']
     else if n = 10 then [bs, CHR ''n''] else if n = 12 then [bs, CHR ''f'']
     else if n = 13 then [bs, CHR ''r'']
     else if n < 32 then [bs, CHR ''u'', CHR ''0'', CHR ''0'', hex_digit (n div 16), hex_digit (n mod 16)]
     else [c])"

definition quote :: "string \<Rightarrow> string" where
  "quote s = char_of (34 :: nat) # concat (map escape_char s) @ [char_of (34 :: nat)]"

lemma size_json_sorted [termination_simp]:
  "(k, v) \<in> set (sort_key fst d) \<Longrightarrow> size v < Suc (size_list (size_prod (\<lambda>x. 0) size) d)"
  by (simp add: size_json_dict)

fun canonical_text :: "json \<Rightarrow> string" where
  "canonical_text JNull = ''null''"
| "canonical_text (JBool b) = (if b then ''true'' else ''false'')"
| "canonical_text (JInt i) = dec i"
| "canonical_text (JFloat f) = float_text f"
| "canonical_text (JStr s) = quote s"
| "canonical_text (JTime t) = quote (iso_text t)"
| "canonical_text (JList xs) = ''['' @ join '','' (map canonical_text xs) @ '']''"
| "canonical_text (JObj d) =
     ''{'' @ join '','' (map (\<lambda>(k, v). quote k @ '':'' @ canonical_text v) (sort_key fst d)) @ ''}''"

type_synonym bytes = "8 word list"

definition utf8_char :: "char \<Rightarrow> bytes" where
  "utf8_char c = (let n = code_point c in
     if n < 128 then [of_nat n] else [of_nat (192 + n div 64), of_nat (128 + n mod 64)])"

definition utf8 :: "string \<Rightarrow> bytes" where
  "utf8 s = concat (map utf8_char s)"

definition canonical_json_bytes :: "json \<Rightarrow> wf_exc + bytes" where
  "canonical_json_bytes v =
     (if canonical_ok v then Inr (utf8 (canonical_text v)) else Inl ContractValidationError)"

fun canonical_copy :: "json \<Rightarrow> json" where
  \<comment> \<open>the value with the keys of every object in order\<close>
  "canonical_copy (JList xs) = JList (map canonical_copy xs)"
| "canonical_copy (JObj d) = JObj (map (\<lambda>(k, v). (k, canonical_copy v)) (sort_key fst d))"
| "canonical_copy (JTime t) = JStr (iso_text t)"
| "canonical_copy v = v"

fun distinct_keys :: "json \<Rightarrow> bool" where
  \<comment> \<open>what every Python dictionary satisfies\<close>
  "distinct_keys (JList xs) = list_all distinct_keys xs"
| "distinct_keys (JObj d) \<longleftrightarrow> distinct (map fst d) \<and> list_all (\<lambda>(k, v). distinct_keys v) d"
| "distinct_keys v = True"

section \<open>The parser\<close>

definition hex_val :: "char \<Rightarrow> nat" where
  "hex_val c = (if is_digit c then code_point c - 48 else code_point c - 87)"

fun unescape :: "string \<Rightarrow> (char \<times> string) option" where
  \<comment> \<open>one character of a string literal and the rest of the text\<close>
  "unescape [] = None"
| "unescape (c # r) =
     (if code_point c < 32 then None
      else if code_point c \<noteq> 92 then Some (c, r)
      else (case r of
        [] \<Rightarrow> None
      | e # r1 \<Rightarrow>
          if code_point e = 34 \<or> code_point e = 92 then Some (e, r1)
          else if e = CHR ''b'' then Some (char_of (8 :: nat), r1)
          else if e = CHR ''t'' then Some (char_of (9 :: nat), r1)
          else if e = CHR ''n'' then Some (char_of (10 :: nat), r1)
          else if e = CHR ''f'' then Some (char_of (12 :: nat), r1)
          else if e = CHR ''r'' then Some (char_of (13 :: nat), r1)
          else if e = CHR ''u'' then (case r1 of
            z # z' # h # l # r2 \<Rightarrow>
              if z = CHR ''0'' \<and> z' = CHR ''0'' \<and> is_lower_hex h \<and> is_lower_hex l
              then Some (char_of (16 * hex_val h + hex_val l), r2) else None
          | _ \<Rightarrow> None)
          else None))"

lemma unescape_shorter: "unescape s = Some (c, r) \<Longrightarrow> length r < length s"
  by (induction s rule: unescape.induct) (auto split: if_splits list.splits)

declare unescape.simps [simp del]

function parse_string :: "string \<Rightarrow> (string \<times> string) option" where
  \<comment> \<open>a string literal after its opening quote\<close>
  "parse_string s = (case s of
     [] \<Rightarrow> None
   | c # r \<Rightarrow> if code_point c = 34 then Some ([], r)
       else (case unescape s of
         None \<Rightarrow> None
       | Some (d, r') \<Rightarrow> map_option (\<lambda>(t, r''). (d # t, r'')) (parse_string r')))"
  by auto
termination
  by (relation "measure length") (auto dest!: unescape_shorter)

declare parse_string.simps [simp del]

definition parse_int :: "string \<Rightarrow> (json \<times> string) option" where
  "parse_int s = (let (neg, t) = (case s of c # r \<Rightarrow> if c = CHR ''-'' then (True, r) else (False, s) | [] \<Rightarrow> (False, s));
       ds = takeWhile is_digit t; n = foldl (\<lambda>a c. 10 * a + digit_val c) 0 ds
     in if ds = [] then None else Some (JInt (if neg then - n else n), dropWhile is_digit t))"

fun parse_value :: "nat \<Rightarrow> string \<Rightarrow> (json \<times> string) option"
  and parse_items :: "nat \<Rightarrow> string \<Rightarrow> (json list \<times> string) option"
  and parse_members :: "nat \<Rightarrow> string \<Rightarrow> (dict \<times> string) option" where
  "parse_value 0 s = None"
| "parse_value (Suc n) s = (case s of
     [] \<Rightarrow> None
   | c # r \<Rightarrow>
       if c = CHR ''['' then
         (if starts_with r '']'' then Some (JList [], tl r)
          else map_option (\<lambda>(xs, r'). (JList xs, r')) (parse_items n r))
       else if c = CHR ''{'' then
         (if starts_with r ''}'' then Some (JObj [], tl r)
          else (case parse_members n r of
            Some (d, r') \<Rightarrow> if distinct (map fst d) then Some (JObj d, r') else None
          | None \<Rightarrow> None))
       else if code_point c = 34 then map_option (\<lambda>(t, r'). (JStr t, r')) (parse_string r)
       else if starts_with s ''null'' then Some (JNull, drop 4 s)
       else if starts_with s ''true'' then Some (JBool True, drop 4 s)
       else if starts_with s ''false'' then Some (JBool False, drop 5 s)
       else parse_int s)"
| "parse_items 0 s = None"
| "parse_items (Suc n) s = (case parse_value n s of
     Some (v, c # r) \<Rightarrow>
       if c = CHR '','' then map_option (\<lambda>(xs, r'). (v # xs, r')) (parse_items n r)
       else if c = CHR '']'' then Some ([v], r) else None
   | _ \<Rightarrow> None)"
| "parse_members 0 s = None"
| "parse_members (Suc n) s = (case s of
     [] \<Rightarrow> None
   | q # s1 \<Rightarrow> if code_point q \<noteq> 34 then None else (case parse_string s1 of
       Some (k, col # s2) \<Rightarrow> if col \<noteq> CHR '':'' then None else (case parse_value n s2 of
         Some (v, c # r) \<Rightarrow>
           if c = CHR '','' then map_option (\<lambda>(d, r'). ((k, v) # d, r')) (parse_members n r)
           else if c = CHR ''}'' then Some ([(k, v)], r) else None
       | _ \<Rightarrow> None)
     | _ \<Rightarrow> None))"

fun decode_utf8 :: "bytes \<Rightarrow> string option" where
  "decode_utf8 [] = Some []"
| "decode_utf8 (b # bs) =
     (if unat b < 128 then map_option (Cons (char_of (unat b))) (decode_utf8 bs)
      else (case bs of
        b' # bs' \<Rightarrow>
          if (unat b = 194 \<or> unat b = 195) \<and> unat b' div 64 = 2
          then map_option (Cons (char_of ((unat b - 192) * 64 + unat b' mod 64))) (decode_utf8 bs')
          else None
      | [] \<Rightarrow> None))"

definition parse_canonical_json_bytes :: "bytes \<Rightarrow> wf_exc + json" where
  \<comment> \<open>the parser reads what the encoder writes: any other text \<open>json.loads\<close> accepts encodes
      differently and fails the last check\<close>
  "parse_canonical_json_bytes body =
     (case decode_utf8 body of
       None \<Rightarrow> Inl ContractValidationError
     | Some t \<Rightarrow> (case parse_value (length t) t of
         Some (v, []) \<Rightarrow>
           if canonical_json_bytes v = Inr body then Inr v else Inl ContractValidationError
       | _ \<Rightarrow> Inl ContractValidationError))"

definition reload :: "json \<Rightarrow> wf_exc + json" where
  \<comment> \<open>\<open>parse_canonical_json_bytes(canonical_json_bytes(v))\<close>\<close>
  "reload v = bindE (canonical_json_bytes v) parse_canonical_json_bytes"

section \<open>SHA-256\<close>

definition K256 :: "32 word list" where
  \<comment> \<open>the round constants: 428a2f98 and so on, in decimal\<close>
  "K256 = [
     1116352408, 1899447441, 3049323471, 3921009573, 961987163, 1508970993, 2453635748, 2870763221,
     3624381080, 310598401, 607225278, 1426881987, 1925078388, 2162078206, 2614888103, 3248222580,
     3835390401, 4022224774, 264347078, 604807628, 770255983, 1249150122, 1555081692, 1996064986,
     2554220882, 2821834349, 2952996808, 3210313671, 3336571891, 3584528711, 113926993, 338241895,
     666307205, 773529912, 1294757372, 1396182291, 1695183700, 1986661051, 2177026350, 2456956037,
     2730485921, 2820302411, 3259730800, 3345764771, 3516065817, 3600352804, 4094571909, 275423344,
     430227734, 506948616, 659060556, 883997877, 958139571, 1322822218, 1537002063, 1747873779,
     1955562222, 2024104815, 2227730452, 2361852424, 2428436474, 2756734187, 3204031479, 3329325298]"

definition H256 :: "32 word list" where
  \<comment> \<open>the initial hash value: 6a09e667 and so on\<close>
  "H256 = [
     1779033703, 3144134277, 1013904242, 2773480762, 1359893119, 2600822924, 528734635, 1541459225]"

definition rotr :: "nat \<Rightarrow> 32 word \<Rightarrow> 32 word" where
  "rotr n w = drop_bit n w OR push_bit (32 - n) w"

primrec schedule :: "nat \<Rightarrow> 32 word list \<Rightarrow> 32 word list" where
  \<comment> \<open>extends the words, most recent first\<close>
  "schedule 0 ws = ws"
| "schedule (Suc n) ws =
     (let x = ws ! 1; y = ws ! 14;
          s1 = rotr 17 x XOR rotr 19 x XOR drop_bit 10 x;
          s0 = rotr 7 y XOR rotr 18 y XOR drop_bit 3 y
      in schedule n ((ws ! 15 + s0 + ws ! 6 + s1) # ws))"

definition sha_round :: "32 word list \<Rightarrow> 32 word \<times> 32 word \<Rightarrow> 32 word list" where
  "sha_round st kw = (case st of [a, b, c, d, e, f, g, h] \<Rightarrow>
       let s1 = rotr 6 e XOR rotr 11 e XOR rotr 25 e;
           ch = (e AND f) XOR (NOT e AND g);
           t1 = h + s1 + ch + fst kw + snd kw;
           s0 = rotr 2 a XOR rotr 13 a XOR rotr 22 a;
           maj = (a AND b) XOR (a AND c) XOR (b AND c)
       in [t1 + s0 + maj, a, b, c, d + t1, e, f, g]
   | _ \<Rightarrow> st)"

definition compress :: "32 word list \<Rightarrow> 32 word list \<Rightarrow> 32 word list" where
  "compress h block = map2 (+) h (foldl sha_round h (zip K256 (rev (schedule 48 (rev block)))))"

definition pad_message :: "bytes \<Rightarrow> bytes" where
  "pad_message m = (let n = length m; bits = 8 * n
     in m @ [0x80] @ replicate ((119 - n mod 64) mod 64) 0
        @ map (\<lambda>i. of_nat (bits div 256 ^ (7 - i))) [0..<8])"

fun big_endian :: "bytes \<Rightarrow> 32 word list" where
  "big_endian (a # b # c # d # rest) =
     (push_bit 24 (ucast a) OR push_bit 16 (ucast b) OR push_bit 8 (ucast c) OR ucast d) # big_endian rest"
| "big_endian _ = []"

function blocks16 :: "32 word list \<Rightarrow> 32 word list list" where
  "blocks16 ws = (if length ws < 16 then [] else take 16 ws # blocks16 (drop 16 ws))"
  by auto
termination by (relation "measure length") auto

declare blocks16.simps [simp del]

definition hex_word :: "32 word \<Rightarrow> string" where
  "hex_word w = map (\<lambda>i. hex_digit (unat (drop_bit (28 - 4 * i) w) mod 16)) [0..<8]"

definition sha256_hex :: "bytes \<Rightarrow> string" where
  "sha256_hex m = concat (map hex_word (foldl compress H256 (blocks16 (big_endian (pad_message m)))))"

definition digest_of :: "json \<Rightarrow> wf_exc + string" where
  \<comment> \<open>\<open>sha256_hex(canonical_json_bytes(v))\<close>\<close>
  "digest_of v = bindE (canonical_json_bytes v) (\<lambda>b. Inr (sha256_hex b))"

end
