(* ===== verification/CanonicalJsonFacts.thy ===== *)
theory CanonicalJsonFacts
  imports CanonicalJson
begin

text \<open>
  Round trips of \<open>CanonicalJson\<close>, from the leaves up: decimal digits, escaped characters,
  string literals, UTF-8, then whole values.  The result is that the canonical bytes of a value
  determine it up to the order of keys, and that the parser returns exactly the sorted copy.
\<close>

section \<open>Characters and digits\<close>

lemma code_point_char_of: "code_point (char_of n) = n mod 256"
  by (simp add: code_point_def)

lemma char_of_code_point [simp]: "char_of (code_point c) = c"
  by (simp add: code_point_def)

lemma code_point_less [simp]: "code_point c < 256"
  by (metis char_of_code_point code_point_char_of mod_less_divisor zero_less_numeral)

lemma code_point_eq: "code_point c = n \<Longrightarrow> c = char_of n"
  by auto

lemma digit_char: "n < 10 \<Longrightarrow> is_digit (char_of (48 + n)) \<and> digit_val (char_of (48 + n)) = int n"
  by (simp add: is_digit_def digit_val_def code_point_char_of)

lemma nat_digits_spec:
  "list_all is_digit (nat_digits n)
     \<and> foldl (\<lambda>a c. 10 * a + digit_val c) 0 (nat_digits n) = int n"
proof (induction n rule: less_induct)
  case (less n)
  show ?case
  proof (cases "n < 10")
    case True
    then show ?thesis using digit_char [of n] by (subst (1 2) nat_digits.simps) simp
  next
    case False
    moreover have "10 * int (n div 10) + int (n mod 10) = int n" by presburger
    ultimately show ?thesis
      using less.IH [of "n div 10"] digit_char [of "n mod 10"]
      by (subst (1 2) nat_digits.simps) simp
  qed
qed

lemma takeWhile_stop:
  "list_all p xs \<Longrightarrow> (\<forall>c r'. r = c # r' \<longrightarrow> \<not> p c) \<Longrightarrow>
     takeWhile p (xs @ r) = xs \<and> dropWhile p (xs @ r) = r"
  by (induction xs) (cases r, auto)

lemma parse_int_dec:
  assumes "\<And>c r'. r = c # r' \<Longrightarrow> \<not> is_digit c"
  shows "parse_int (dec i @ r) = Some (JInt i, r)"
proof -
  let ?n = "nat_digits (nat \<bar>i\<bar>)"
  note digits = nat_digits_spec [of "nat \<bar>i\<bar>"]
  have stop: "takeWhile is_digit (?n @ r) = ?n" "dropWhile is_digit (?n @ r) = r"
    using takeWhile_stop [of is_digit ?n r] digits assms by auto
  obtain c cs where n: "?n = c # cs" by (meson list.exhaust nat_digits_nonempty)
  then have c: "c \<noteq> CHR ''-''" using digits by (auto simp: is_digit_def code_point_def)
  show ?thesis
  proof (cases "i < 0")
    case True
    then show ?thesis
      using digits stop by (simp add: parse_int_def dec_def Let_def)
  next
    case False
    then have dec: "dec i = c # cs" using n by (simp add: dec_def)
    show ?thesis
      using digits [unfolded n] stop [unfolded n] c False unfolding parse_int_def dec
      by (simp del: takeWhile.simps dropWhile.simps)
  qed
qed

section \<open>String literals\<close>

lemma hex_digit_spec: "m < 16 \<Longrightarrow> is_lower_hex (hex_digit m) \<and> hex_val (hex_digit m) = m"
  by (simp add: hex_digit_def hex_val_def is_lower_hex_def is_digit_def code_point_char_of)

lemma char_eq_code: "c = d \<longleftrightarrow> code_point c = code_point d"
  by (metis char_of_code_point)

lemma unescape_escape: "unescape (escape_char c @ r) = Some (c, r)"
proof -
  let ?n = "code_point c"
  consider "?n = 34 \<or> ?n = 92" | "?n = 8" | "?n = 9" | "?n = 10" | "?n = 12" | "?n = 13"
    | "?n < 32" "?n \<notin> {8, 9, 10, 12, 13}" | "32 \<le> ?n" "?n \<noteq> 34" "?n \<noteq> 92"
    by fastforce
  then show ?thesis
  proof cases
    case 7
    then have "escape_char c = [char_of (92 :: nat), CHR ''u'', CHR ''0'', CHR ''0'',
        hex_digit (?n div 16), hex_digit (?n mod 16)]"
      by (simp add: escape_char_def Let_def)
    moreover have "hex_val (hex_digit (?n div 16)) = ?n div 16" "hex_val (hex_digit (?n mod 16)) = ?n mod 16"
      "is_lower_hex (hex_digit (?n div 16))" "is_lower_hex (hex_digit (?n mod 16))"
      using 7 hex_digit_spec by auto
    ultimately show ?thesis
      by (simp add: unescape.simps code_point_char_of) (simp add: code_point_def)
  next
    case 8
    then show ?thesis by (simp add: escape_char_def Let_def unescape.simps)
  next
    case 1
    then have "escape_char c = [char_of (92 :: nat), c]" by (auto simp: escape_char_def Let_def)
    with 1 show ?thesis by (simp add: unescape.simps code_point_char_of)
  qed (simp add: escape_char_def Let_def unescape.simps code_point_char_of,
      simp add: char_eq_code code_point_char_of, simp add: code_point_def)+
qed

lemma escape_not_quote: "\<exists>e es. escape_char c = e # es \<and> code_point e \<noteq> 34"
  by (auto simp: escape_char_def Let_def code_point_char_of)

lemma parse_string_quote:
  "parse_string (concat (map escape_char t) @ char_of (34 :: nat) # r) = Some (t, r)"
proof (induction t)
  case Nil
  show ?case by (subst parse_string.simps) (simp add: code_point_char_of)
next
  case (Cons c t)
  obtain e es where e: "escape_char c = e # es" "code_point e \<noteq> 34"
    using escape_not_quote by blast
  show ?case
    using Cons.IH e unescape_escape [of c "concat (map escape_char t) @ char_of (34 :: nat) # r"]
    by (subst parse_string.simps) simp
qed

section \<open>UTF-8\<close>

lemma two_byte_split:
  fixes n :: nat
  assumes "128 \<le> n" "n < 256"
  shows "(128 + n mod 64) mod 64 = n mod 64 \<and> (128 + n mod 64) div 64 = 2 \<and> n div 64 * 64 + n mod 64 = n"
    and "n div 64 = 2 \<or> n div 64 = 3"
proof -
  have "n div 64 < 4" using assms(2) by (intro less_mult_imp_div_less) simp
  moreover have "2 \<le> n div 64" using div_le_mono [OF assms(1), of 64] by simp
  ultimately show "n div 64 = 2 \<or> n div 64 = 3" by linarith
  have low: "(128 + m) mod 64 = m \<and> (128 + m) div 64 = 2" if "m < 64" for m :: nat
  proof -
    have "(128 + m) div 64 = 2" by (rule div_nat_eqI) (use that in simp_all)
    then show ?thesis by (simp add: minus_mult_div_eq_mod [symmetric])
  qed
  show "(128 + n mod 64) mod 64 = n mod 64 \<and> (128 + n mod 64) div 64 = 2 \<and> n div 64 * 64 + n mod 64 = n"
    using low [of "n mod 64"] by simp
qed

lemma decode_utf8_char: "decode_utf8 (utf8_char c @ bs) = map_option (Cons c) (decode_utf8 bs)"
proof (cases "code_point c < 128")
  case True
  then show ?thesis by (simp add: utf8_char_def unat_of_nat)
next
  case False
  let ?n = "code_point c"
  have n: "128 \<le> ?n" "?n < 256" using False by auto
  note split = two_byte_split [OF n]
  have hi: "?n div 64 = 2 \<or> ?n div 64 = 3" by (rule split(2))
  define b b' where "b = (of_nat (192 + ?n div 64) :: 8 word)" and "b' = (of_nat (128 + ?n mod 64) :: 8 word)"
  have b: "unat b = 192 + ?n div 64" "unat b' = 128 + ?n mod 64"
    unfolding b_def b'_def using hi by (simp only: unat_of_nat, fastforce simp del: of_nat_add)+
  have "utf8_char c = [b, b']"
    using False by (simp add: utf8_char_def b_def b'_def Let_def)
  moreover have "(unat b - 192) * 64 + unat b' mod 64 = ?n" "unat b' div 64 = 2"
    unfolding b using split(1) by (simp_all only: diff_add_inverse)
  moreover have "\<not> unat b < 128" "unat b = 194 \<or> unat b = 195"
    using b hi by auto
  ultimately show ?thesis by simp
qed

lemma decode_utf8_utf8: "decode_utf8 (utf8 s) = Some s"
  by (induction s) (simp_all add: utf8_def decode_utf8_char)

section \<open>Values\<close>

lemma dec_head: "\<exists>c cs. dec i = c # cs \<and> (c = CHR ''-'' \<or> is_digit c)"
proof -
  obtain c cs where n: "nat_digits (nat \<bar>i\<bar>) = c # cs" by (meson list.exhaust nat_digits_nonempty)
  then have "is_digit c" using nat_digits_spec [of "nat \<bar>i\<bar>"] by simp
  then show ?thesis using n by (cases "i < 0") (auto simp: dec_def)
qed

definition opens_value :: "char \<Rightarrow> bool" where
  "opens_value c \<longleftrightarrow> c \<noteq> CHR '']'' \<and> c \<noteq> CHR ''}''"

lemma opens_value_quote: "opens_value (char_of (34 :: nat))"
  by (simp add: opens_value_def char_eq_code code_point_char_of, simp add: code_point_def)

lemma text_head: "canonical_ok v \<Longrightarrow> \<exists>c cs. canonical_text v = c # cs \<and> opens_value c"
proof (cases v)
  case (JInt i)
  obtain c cs where "dec i = c # cs" "c = CHR ''-'' \<or> is_digit c" using dec_head by blast
  then show ?thesis by (auto simp: JInt opens_value_def is_digit_def code_point_def)
qed (simp_all add: quote_def opens_value_quote, simp_all add: opens_value_def)

definition no_digit :: "string \<Rightarrow> bool" where
  "no_digit r \<longleftrightarrow> (\<forall>c r'. r = c # r' \<longrightarrow> \<not> is_digit c)"

lemma no_digit_Cons [simp]: "no_digit (c # r) \<longleftrightarrow> \<not> is_digit c"
  by (simp add: no_digit_def)

lemma no_digit_delims [simp]: "\<not> is_digit CHR '',''" "\<not> is_digit CHR '']''" "\<not> is_digit CHR ''}''"
  by (simp_all add: is_digit_def code_point_def)

lemma join_Cons: "xs \<noteq> [] \<Longrightarrow> join sep (x # xs) = x @ sep @ join sep xs"
  by (cases xs) auto

definition reads :: "json \<Rightarrow> bool" where
  \<comment> \<open>the parser, with enough fuel, reads the text of the value back\<close>
  "reads v \<longleftrightarrow> (\<forall>n r. length (canonical_text v) \<le> n \<longrightarrow> no_digit r \<longrightarrow>
     parse_value n (canonical_text v @ r) = Some (canonical_copy v, r))"

lemma parse_items_text:
  assumes "xs \<noteq> []" "\<forall>x \<in> set xs. reads x"
    and "length (join '','' (map canonical_text xs)) < n"
  shows "parse_items n (join '','' (map canonical_text xs) @ CHR '']'' # r) = Some (map canonical_copy xs, r)"
  using assms
proof (induction xs arbitrary: n)
  case (Cons x xs)
  obtain m where n: "n = Suc m" using Cons.prems(3) by (cases n) auto
  show ?case
  proof (cases "xs = []")
    case True
    then show ?thesis using Cons.prems n by (simp add: reads_def)
  next
    case False
    let ?rest = "join '','' (map canonical_text xs) @ CHR '']'' # r"
    have len: "length (canonical_text x) + length (join '','' (map canonical_text xs)) < m"
      using Cons.prems(3) False n by (simp add: join_Cons)
    have "parse_value m (canonical_text x @ CHR '','' # ?rest) = Some (canonical_copy x, CHR '','' # ?rest)"
      using Cons.prems(2) len by (simp add: reads_def)
    moreover have "parse_items m ?rest = Some (map canonical_copy xs, r)"
      using Cons.IH [OF False] Cons.prems(2) len by simp
    ultimately show ?thesis using False n by (simp add: join_Cons)
  qed
qed simp

definition member_text :: "string \<times> json \<Rightarrow> string" where
  "member_text kv = quote (fst kv) @ '':'' @ canonical_text (snd kv)"

lemma parse_members_text:
  assumes "d \<noteq> []" "\<forall>(k, v) \<in> set d. reads v" "length (join '','' (map member_text d)) < n"
  shows "parse_members n (join '','' (map member_text d) @ CHR ''}'' # r)
    = Some (map (\<lambda>(k, v). (k, canonical_copy v)) d, r)"
  using assms
proof (induction d arbitrary: n)
  case (Cons x d)
  obtain k v where x: "x = (k, v)" by (cases x)
  obtain m where n: "n = Suc m" using Cons.prems(3) by (cases n) auto
  have shape: "member_text (k, v) @ s = char_of (34 :: nat) #
      concat (map escape_char k) @ char_of (34 :: nat) # CHR '':'' # canonical_text v @ s" for s
    by (simp add: member_text_def x quote_def)
  have len: "length (canonical_text v) < length (member_text x)"
    by (simp add: member_text_def x quote_def)
  show ?case
  proof (cases "d = []")
    case True
    then show ?thesis
      using Cons.prems n len x parse_string_quote by (simp add: reads_def shape code_point_char_of)
  next
    case False
    let ?rest = "join '','' (map member_text d) @ CHR ''}'' # r"
    have lens: "length (member_text x) + length (join '','' (map member_text d)) < m"
      using Cons.prems(3) False n by (simp add: join_Cons)
    have "parse_value m (canonical_text v @ CHR '','' # ?rest) = Some (canonical_copy v, CHR '','' # ?rest)"
      using Cons.prems(2) lens len x by (simp add: reads_def)
    moreover have "parse_members m ?rest = Some (map (\<lambda>(k, v). (k, canonical_copy v)) d, r)"
      using Cons.IH [OF False] Cons.prems(2) lens by simp
    ultimately show ?thesis
      using False n x parse_string_quote by (simp add: join_Cons shape code_point_char_of)
  qed
qed simp

lemma not_literal: "c = CHR ''-'' \<or> is_digit c \<Longrightarrow>
    c \<noteq> CHR ''['' \<and> c \<noteq> CHR ''{'' \<and> c \<noteq> CHR ''n'' \<and> c \<noteq> CHR ''t'' \<and> c \<noteq> CHR ''f'' \<and> code_point c \<noteq> 34"
  by (auto simp: is_digit_def code_point_def)

lemma readsI:
  assumes "canonical_text v \<noteq> []"
    and "\<And>m r. no_digit r \<Longrightarrow> parse_value (Suc m) (canonical_text v @ r) = Some (canonical_copy v, r)"
  shows "reads v"
  unfolding reads_def
proof (intro allI impI)
  fix n r assume "length (canonical_text v) \<le> n" "no_digit r"
  then show "parse_value n (canonical_text v @ r) = Some (canonical_copy v, r)"
    using assms by (cases n) auto
qed

lemma parse_value_literals:
  "parse_value (Suc m) (''null'' @ r) = Some (JNull, r)"
  "parse_value (Suc m) (''true'' @ r) = Some (JBool True, r)"
  "parse_value (Suc m) (''false'' @ r) = Some (JBool False, r)"
  "parse_value (Suc m) (quote t @ r) = Some (JStr t, r)"
proof -
  have "char_of (34 :: nat) \<noteq> CHR ''[''" "char_of (34 :: nat) \<noteq> CHR ''{''"
    unfolding char_eq_code code_point_char_of by (simp_all add: code_point_def)
  then show "parse_value (Suc m) (quote t @ r) = Some (JStr t, r)"
    by (simp add: quote_def code_point_char_of parse_string_quote)
qed (simp_all add: code_point_def)

lemma quote_nonempty [simp]: "quote t \<noteq> []"
  by (simp add: quote_def)

lemma reads_value: "canonical_ok v \<Longrightarrow> distinct_keys v \<Longrightarrow> reads v"
proof (induction v rule: canonical_text.induct)
  case (3 i)
  obtain c cs where dec: "dec i = c # cs" "c = CHR ''-'' \<or> is_digit c" using dec_head by blast
  show ?case unfolding reads_def
  proof (intro allI impI)
    fix n r assume n: "length (canonical_text (JInt i)) \<le> n" and r: "no_digit r"
    have "parse_int (c # cs @ r) = Some (JInt i, r)"
      using parse_int_dec [of r i] r dec by (auto simp: no_digit_def)
    then show "parse_value n (canonical_text (JInt i) @ r) = Some (canonical_copy (JInt i), r)"
      using n dec not_literal [OF dec(2)] by (cases n) auto
  qed
next
  case (7 xs)
  have all: "\<forall>x \<in> set xs. reads x" using 7 by (auto simp: list_all_iff)
  show ?case unfolding reads_def
  proof (intro allI impI)
    fix n r assume n: "length (canonical_text (JList xs)) \<le> n"
    then obtain m where m: "n = Suc m" by (cases n) auto
    show "parse_value n (canonical_text (JList xs) @ r) = Some (canonical_copy (JList xs), r)"
    proof (cases xs)
      case (Cons y ys)
      obtain c cs where "canonical_text y = c # cs" "opens_value c"
        using text_head [of y] 7 Cons by auto
      then have "join '','' (map canonical_text xs) = c # tl (join '','' (map canonical_text xs))"
        and "c \<noteq> CHR '']''"
        using Cons by (cases ys; simp add: opens_value_def)+
      then have "\<not> starts_with (join '','' (map canonical_text xs) @ CHR '']'' # r) '']''"
        by (metis append_Cons starts_with.simps(3))
      then show ?thesis
        using parse_items_text [OF _ all, of m r] n m Cons by simp
    qed (use m in simp)
  qed
next
  case (8 d)
  let ?d = "sort_key fst d"
  have "reads v" if "(k, v) \<in> set d" for k v
    using that 8(2,3) by (intro 8(1) [of "(k, v)" k v]) (auto simp: list_all_iff)
  then have all: "\<forall>(k, v) \<in> set ?d. reads v" by auto
  define J e where "J = join '','' (map member_text ?d)" and "e = map (\<lambda>(k, v). (k, canonical_copy v)) ?d"
  have fields: "(\<lambda>(k, v). quote k @ '':'' @ canonical_text v) = member_text"
    by (simp add: member_text_def fun_eq_iff)
  have shape: "canonical_text (JObj d) = CHR ''{'' # J @ ''}''" "canonical_copy (JObj d) = JObj e"
    unfolding canonical_text.simps(8) fields J_def by (simp_all add: e_def)
  have "distinct (map fst ?d)" using 8 by (simp add: distinct_map)
  then have keys: "distinct (map fst e)" by (simp add: e_def comp_def split_beta)
  show ?case unfolding reads_def shape
  proof (intro allI impI)
    fix n r assume n: "length (CHR ''{'' # J @ ''}'') \<le> n"
    then obtain m where m: "n = Suc m" by (cases n) auto
    show "parse_value n ((CHR ''{'' # J @ ''}'') @ r) = Some (JObj e, r)"
    proof (cases "?d")
      case Nil
      then show ?thesis using m by (simp add: J_def e_def)
    next
      case (Cons y ys)
      have "J = char_of (34 :: nat) # tl J"
        using Cons by (cases ys) (simp_all add: J_def member_text_def quote_def)
      moreover have "char_of (34 :: nat) \<noteq> CHR ''}''" using opens_value_quote by (simp add: opens_value_def)
      ultimately have "\<not> starts_with (J @ CHR ''}'' # r) ''}''"
        by (metis append_Cons starts_with.simps(3))
      moreover have "parse_members m (J @ CHR ''}'' # r) = Some (e, r)"
        using parse_members_text [OF _ all, of m r] n m Cons unfolding J_def e_def by simp
      ultimately show ?thesis using m keys by simp
    qed
  qed
qed (auto intro!: readsI simp: parse_value_literals [unfolded append.simps] quote_nonempty
    simp del: parse_value.simps split: if_splits)

section \<open>The sorted copy\<close>

lemma sort_copied:
  fixes d :: "dict"
  shows "sort_key fst (map (\<lambda>x. (fst x, f (snd x))) (sort_key fst d)) = map (\<lambda>x. (fst x, f (snd x))) (sort_key fst d)"
  by (intro sort_key_id_if_sorted) (simp add: comp_def)

lemma canonical_ok_copy [simp]: "canonical_ok (canonical_copy v) = canonical_ok v"
  by (induction v rule: canonical_copy.induct) (auto simp: list_all_iff)

lemma canonical_copy_idem [simp]: "canonical_copy (canonical_copy v) = canonical_copy v"
proof (induction v rule: canonical_copy.induct)
  case (2 d)
  have "canonical_copy (canonical_copy (snd x)) = canonical_copy (snd x)" if "x \<in> set d" for x
    using 2 [of x "fst x" "snd x"] that by simp
  then show ?case by (simp add: sort_copied case_prod_unfold)
qed auto

lemma canonical_text_copy [simp]: "canonical_text (canonical_copy v) = canonical_text v"
proof (induction v rule: canonical_copy.induct)
  case (1 xs)
  then show ?case by (simp add: comp_def cong: map_cong)
next
  case (2 d)
  have "canonical_text (canonical_copy (snd x)) = canonical_text (snd x)" if "x \<in> set (sort_key fst d)" for x
    using 2 [of x "fst x" "snd x"] that by simp
  then show ?case
    by (simp add: sort_copied comp_def case_prod_unfold)
      (intro arg_cong [where f = "join '',''"] map_cong refl, simp)
qed auto

lemma canonical_json_bytes_copy [simp]: "canonical_json_bytes (canonical_copy v) = canonical_json_bytes v"
  by (simp add: canonical_json_bytes_def)

lemma digest_of_copy [simp]: "digest_of (canonical_copy v) = digest_of v"
  by (simp add: digest_of_def)

lemma parse_encoded:
  assumes "distinct_keys v" "canonical_json_bytes v = Inr b"
  shows "parse_canonical_json_bytes b = Inr (canonical_copy v)"
proof -
  have ok: "canonical_ok v" and b: "b = utf8 (canonical_text v)"
    using assms(2) by (auto simp: canonical_json_bytes_def split: if_splits)
  have "parse_value (length (canonical_text v)) (canonical_text v) = Some (canonical_copy v, [])"
    using reads_value [OF ok assms(1)] unfolding reads_def no_digit_def by force
  then show ?thesis
    using assms(2) by (simp add: parse_canonical_json_bytes_def b decode_utf8_utf8)
qed

lemma reload_Inr: "distinct_keys v \<Longrightarrow> reload v = Inr w \<longleftrightarrow> canonical_ok v \<and> w = canonical_copy v"
proof -
  assume d: "distinct_keys v"
  show ?thesis
  proof (cases "canonical_ok v")
    case True
    then have "canonical_json_bytes v = Inr (utf8 (canonical_text v))" by (simp add: canonical_json_bytes_def)
    then show ?thesis using True parse_encoded [OF d] by (auto simp: reload_def)
  qed (simp add: reload_def canonical_json_bytes_def)
qed

section \<open>Digests\<close>

lemma hex_digit_lower [simp]: "is_lower_hex (hex_digit (n mod 16))"
  using hex_digit_spec by simp

lemma sha_round_length: "length st = 8 \<Longrightarrow> length (sha_round st kw) = 8"
  by (auto simp: sha_round_def Let_def length_Suc_conv numeral_eq_Suc)

lemma foldl_sha_round_length: "length st = 8 \<Longrightarrow> length (foldl sha_round st kws) = 8"
  by (induction kws arbitrary: st) (simp_all add: sha_round_length)

lemma foldl_compress_length: "length h = 8 \<Longrightarrow> length (foldl compress h bs) = 8"
  by (induction bs arbitrary: h) (simp_all add: compress_def foldl_sha_round_length)

lemma sha256_hex_form: "SHA256_RE (sha256_hex m)"
proof -
  have "length (concat (map hex_word ws)) = 8 * length ws \<and> list_all is_lower_hex (concat (map hex_word ws))" for ws
    by (induction ws) (auto simp: hex_word_def list_all_iff)
  moreover have "length (foldl compress H256 bs) = 8" for bs
    by (rule foldl_compress_length) (simp add: H256_def)
  ultimately show ?thesis by (simp add: SHA256_RE_def sha256_hex_def)
qed

lemma digest_of_form: "digest_of v = Inr s \<Longrightarrow> SHA256_RE s"
  by (auto simp: digest_of_def result_simps sha256_hex_form)

end
