(* ===== verification/TopoOrder.thy ===== *)
theory TopoOrder
  imports Prelude "HOL-Library.Product_Lexorder" "HOL-Library.List_Lexorder" "HOL-Library.Char_ord" "HOL-Library.Multiset"
begin

text \<open>
  The order in which the stages of a workflow are planned: Kahn's algorithm over the
  dependency graph with a heap of pairs (declaration index, identifier), as
  \<open>deterministic_topological_order\<close> of \<open>contracts/workflow_contract.py\<close> runs it.  A \<open>node\<close> is
  what that function reads of one stage.  The heap of \<open>heapq\<close> is an interface (the locale
  \<open>ready_queue\<close>: what a push and a pop do to the set of entries); one round of the loop keeps
  the invariant for every implementation of it, and the sorted list used here is one.
\<close>

section \<open>The graph\<close>

record node =
  n_id :: string
  n_index :: int
  n_deps :: "string list"

type_synonym entry = "int \<times> string"

definition lookup :: "node list \<Rightarrow> string \<Rightarrow> node option" where
  \<comment> \<open>\<open>stage_by_id[v]\<close>\<close>
  "lookup ns v = map_of (map (\<lambda>n. (n_id n, n)) ns) v"

definition deps_of :: "node list \<Rightarrow> string \<Rightarrow> string list" where
  "deps_of ns v = (case lookup ns v of Some n \<Rightarrow> n_deps n | None \<Rightarrow> [])"

definition index_of :: "node list \<Rightarrow> string \<Rightarrow> int" where
  "index_of ns v = (case lookup ns v of Some n \<Rightarrow> n_index n | None \<Rightarrow> 0)"

definition children :: "node list \<Rightarrow> string \<Rightarrow> string list" where
  \<comment> \<open>\<open>children[u]\<close> after the loop that fills it\<close>
  "children ns u = concat (map (\<lambda>n. map (\<lambda>_. n_id n) (filter (\<lambda>d. d = u) (n_deps n))) ns)"

definition indegree :: "node list \<Rightarrow> (string \<times> int) list" where
  "indegree ns = map (\<lambda>n. (n_id n, int (length (n_deps n)))) ns"

definition decr :: "string \<Rightarrow> (string \<times> int) list \<Rightarrow> (string \<times> int) list" where
  \<comment> \<open>\<open>indegree[c] -= 1\<close>\<close>
  "decr c ind = map (\<lambda>(k, n). (k, if k = c then n - 1 else n)) ind"

section \<open>The loop\<close>

definition heappush :: "entry \<Rightarrow> entry list \<Rightarrow> entry list" where
  "heappush x h = insort x h"

definition heappop :: "entry list \<Rightarrow> (entry \<times> entry list) option" where
  "heappop h = (case h of [] \<Rightarrow> None | x # h' \<Rightarrow> Some (x, h'))"

fun relax :: "(entry \<Rightarrow> 'q \<Rightarrow> 'q) \<Rightarrow> (string \<Rightarrow> int) \<Rightarrow> string list \<Rightarrow> (string \<times> int) list \<Rightarrow> 'q \<Rightarrow>
    (string \<times> int) list \<times> 'q" where
  \<comment> \<open>\<open>for child in children[stage_id]: ...\<close>\<close>
  "relax push idx [] ind h = (ind, h)"
| "relax push idx (c # cs) ind h =
     (let ind' = decr c ind
      in relax push idx cs ind' (if map_of ind' c = Some 0 then push (idx c, c) h else h))"

definition pending :: "(string \<times> int) list \<Rightarrow> nat" where
  "pending ind = sum_list (map (nat \<circ> snd) ind)"

lemma pending_decr:
  "pending (decr c ind) \<le> pending ind"
  "map_of (decr c ind) c = Some 0 \<Longrightarrow> pending (decr c ind) < pending ind"
proof -
  show le: "pending (decr c ind) \<le> pending ind" for ind
    by (induction ind) (auto simp: pending_def decr_def)
  show "map_of (decr c ind) c = Some 0 \<Longrightarrow> pending (decr c ind) < pending ind"
  proof (induction ind)
    case (Cons x ind)
    then show ?case using le [of ind] by (cases x) (auto simp: pending_def decr_def split: if_splits)
  qed (simp add: decr_def)
qed

lemma relax_measure:
  "relax heappush idx cs ind h = (ind', h') \<Longrightarrow> pending ind' + length h' \<le> pending ind + length h"
proof (induction cs arbitrary: ind h)
  case (Cons c cs)
  let ?h1 = "if map_of (decr c ind) c = Some 0 then heappush (idx c, c) h else h"
  have "pending ind' + length h' \<le> pending (decr c ind) + length ?h1"
    using Cons.prems by (intro Cons.IH) (simp add: Let_def)
  moreover have "pending (decr c ind) + length ?h1 \<le> pending ind + length h"
    using pending_decr [of c ind] by (auto simp: heappush_def)
  ultimately show ?case by simp
qed simp

function topo_loop :: "(string \<Rightarrow> int) \<Rightarrow> (string \<Rightarrow> string list) \<Rightarrow> (string \<times> int) list \<Rightarrow> entry list \<Rightarrow>
    string list \<Rightarrow> string list" where
  "topo_loop idx ch ind h order = (case heappop h of
     None \<Rightarrow> order
   | Some ((_, u), h1) \<Rightarrow>
       topo_loop idx ch (fst (relax heappush idx (ch u) ind h1)) (snd (relax heappush idx (ch u) ind h1))
         (order @ [u]))"
  by pat_completeness auto
termination
proof (relation "measure (\<lambda>(idx, ch, ind, h, order). pending ind + length h)", goal_cases)
  case (2 idx ch ind h order x2 x y v u)
  then show ?case
    using relax_measure [of idx "ch u" ind y]
    by (cases "relax heappush idx (ch u) ind y") (auto simp: heappop_def split: list.splits)
qed simp

declare topo_loop.simps [simp del]

definition topo_order :: "node list \<Rightarrow> string list" where
  "topo_order ns = topo_loop (index_of ns) (children ns) (indegree ns)
     (foldl (\<lambda>h (k, n). if n = 0 then heappush (index_of ns k, k) h else h) [] (indegree ns)) []"

section \<open>What the order promises\<close>

definition ids :: "node list \<Rightarrow> string set" where
  "ids ns = n_id ` set ns"

definition ready :: "node list \<Rightarrow> string set \<Rightarrow> entry set" where
  \<comment> \<open>the stages not yet ordered whose dependencies all are\<close>
  "ready ns P = {(index_of ns v, v) | v. v \<in> ids ns - P \<and> set (deps_of ns v) \<subseteq> P}"

definition chosen_first :: "node list \<Rightarrow> string list \<Rightarrow> bool" where
  \<comment> \<open>every element is the least of those that were ready when it was chosen\<close>
  "chosen_first ns order \<longleftrightarrow> (\<forall>pre u post. order = pre @ u # post \<longrightarrow>
     (index_of ns u, u) \<in> ready ns (set pre) \<and> (\<forall>e \<in> ready ns (set pre). (index_of ns u, u) \<le> e))"

definition graph_ok :: "node list \<Rightarrow> bool" where
  "graph_ok ns \<longleftrightarrow> distinct (map n_id ns) \<and> (\<forall>n \<in> set ns. set (n_deps n) \<subseteq> ids ns)"

definition dependency :: "node list \<Rightarrow> (string \<times> string) set" where
  "dependency ns = {(d, v). v \<in> ids ns \<and> d \<in> set (deps_of ns v)}"

lemma ready_iff: "e \<in> ready ns P \<longleftrightarrow>
    snd e \<in> ids ns \<and> snd e \<notin> P \<and> set (deps_of ns (snd e)) \<subseteq> P \<and> fst e = index_of ns (snd e)"
  by (cases e) (auto simp: ready_def)

lemma chosen_first_Nil [simp]: "chosen_first ns []"
  by (simp add: chosen_first_def)

lemma chosen_first_snoc: "chosen_first ns (order @ [u]) \<longleftrightarrow> chosen_first ns order
    \<and> (index_of ns u, u) \<in> ready ns (set order) \<and> (\<forall>e \<in> ready ns (set order). (index_of ns u, u) \<le> e)"
proof -
  have eq: "order @ [u] = pre @ x # post \<longleftrightarrow>
      (pre = order \<and> x = u \<and> post = []) \<or> (\<exists>post'. post = post' @ [u] \<and> order = pre @ x # post')"
    for pre x post
    by (cases post rule: rev_cases) auto
  show ?thesis
    unfolding chosen_first_def eq by blast
qed

lemma chosen_first_prefix: "chosen_first ns (xs @ ys) \<Longrightarrow> chosen_first ns xs"
  by (induction ys rule: rev_induct) (simp_all add: chosen_first_snoc flip: append_assoc)

lemma chosen_first_facts:
  "chosen_first ns order \<Longrightarrow> distinct order \<and> set order \<subseteq> ids ns
     \<and> (\<forall>v \<in> set order. set (deps_of ns v) \<subseteq> set order)"
  by (induction order rule: rev_induct) (auto simp: chosen_first_snoc ready_iff)

lemma chosen_first_unique:
  "chosen_first ns xs \<Longrightarrow> chosen_first ns ys \<Longrightarrow> (\<exists>zs. ys = xs @ zs) \<or> (\<exists>zs. xs = ys @ zs)"
proof (induction xs rule: rev_induct)
  case (snoc u xs)
  then consider (long) zs where "ys = xs @ zs" | (short) zs where "xs = ys @ zs"
    by (auto simp: chosen_first_snoc)
  then show ?case
  proof cases
    case long
    show ?thesis
    proof (cases zs)
      case (Cons w ws)
      then have "chosen_first ns (xs @ [w])"
        using snoc.prems(2) long chosen_first_prefix [of ns "xs @ [w]" ws] by simp
      then have "(index_of ns w, w) = (index_of ns u, u)"
        using snoc.prems(1) unfolding chosen_first_snoc by (meson order_antisym)
      then show ?thesis using long Cons by auto
    qed (use long in auto)
  qed auto
qed simp

lemma lookup_Some:
  "distinct (map n_id ns) \<Longrightarrow> lookup ns v = Some n \<longleftrightarrow> n \<in> set ns \<and> n_id n = v"
  unfolding lookup_def
  by (subst map_of_eq_Some_iff) (auto simp: comp_def image_iff)

lemma deps_of_node: "distinct (map n_id ns) \<Longrightarrow> n \<in> set ns \<Longrightarrow> deps_of ns (n_id n) = n_deps n"
  using lookup_Some [of ns "n_id n" n] by (simp add: deps_of_def)

lemma lookup_perm:
  assumes "distinct (map n_id ns)" "mset ms = mset ns"
  shows "lookup ms v = lookup ns v"
proof -
  have ms: "distinct (map n_id ms)"
    using assms by (metis mset_eq_imp_distinct_iff mset_map)
  have "set ms = set ns" using assms(2) by (rule mset_eq_setD)
  then have "lookup ms v = Some n \<longleftrightarrow> lookup ns v = Some n" for n
    by (simp add: lookup_Some [OF ms] lookup_Some [OF assms(1)])
  then show ?thesis by (metis not_Some_eq)
qed

section \<open>One round of the loop\<close>

lemma map_of_decr: "map_of (decr c ind) v = map_option (\<lambda>n. if v = c then n - 1 else n) (map_of ind v)"
  by (induction ind) (auto simp: decr_def)

lemma keys_decr [simp]: "map fst (decr c ind) = map fst ind"
  by (auto simp: decr_def)

lemma count_children:
  assumes "distinct (map n_id ns)"
  shows "count_list (children ns u) v = count_list (deps_of ns v) u"
proof -
  have none: "v \<notin> n_id ` set ns \<Longrightarrow> count_list (children ns u) v = 0" for ns
    by (auto simp: children_def count_list_0_iff)
  have "count_list (map (\<lambda>_. v) (filter (\<lambda>d. d = u) ds)) v = count_list ds u" for ds
    by (induction ds) auto
  then show ?thesis using assms
  proof (induction ns)
    case (Cons n ns)
    then show ?case
      using none [of ns]
      by (auto simp: children_def deps_of_def lookup_def count_list_0_iff split: option.splits)
  qed (simp add: children_def deps_of_def lookup_def)
qed

lemma set_children:
  assumes "distinct (map n_id ns)"
  shows "v \<in> set (children ns u) \<longleftrightarrow> v \<in> ids ns \<and> u \<in> set (deps_of ns v)"
proof -
  have "v \<in> set (children ns u) \<longleftrightarrow> u \<in> set (deps_of ns v)"
    using count_children [OF assms, of u v] by (metis count_list_0_iff)
  moreover have "u \<in> set (deps_of ns v) \<Longrightarrow> v \<in> ids ns"
    using lookup_Some [OF assms, of v]
    by (cases "lookup ns v") (simp_all add: deps_of_def ids_def, metis imageI)
  ultimately show ?thesis by blast
qed

definition topo_inv :: "node list \<Rightarrow> string list \<Rightarrow> (string \<times> int) list \<Rightarrow> entry set \<Rightarrow> bool" where
  "topo_inv ns order ind M \<longleftrightarrow> chosen_first ns order \<and> map fst ind = map n_id ns
     \<and> (\<forall>v \<in> ids ns. map_of ind v = Some (int (length (filter (\<lambda>d. d \<notin> set order) (deps_of ns v)))))
     \<and> M = ready ns (set order)"

lemma open_deps_insert:
  "u \<notin> P \<Longrightarrow> length (filter (\<lambda>d. d \<notin> P) ds) = length (filter (\<lambda>d. d \<notin> insert u P) ds) + count_list ds u"
  by (induction ds) auto

lemma no_open_deps: "length (filter (\<lambda>d. d \<notin> P) ds) = 0 \<longleftrightarrow> set ds \<subseteq> P"
  by (auto simp: filter_empty_conv)

locale ready_queue =
  fixes push :: "entry \<Rightarrow> 'q \<Rightarrow> 'q" and pop :: "'q \<Rightarrow> (entry \<times> 'q) option"
    and members :: "'q \<Rightarrow> entry set" and valid :: "'q \<Rightarrow> bool"
  assumes push_fresh: "valid q \<Longrightarrow> x \<notin> members q \<Longrightarrow> valid (push x q) \<and> members (push x q) = insert x (members q)"
    and pop_empty: "valid q \<Longrightarrow> pop q = None \<longleftrightarrow> members q = {}"
    and pop_least: "valid q \<Longrightarrow> pop q = Some (x, q') \<Longrightarrow>
      x \<in> members q \<and> valid q' \<and> members q' = members q - {x} \<and> (\<forall>y \<in> members q. x \<le> y)"
begin

lemma relax_effect:
  assumes "valid q" "\<And>c. c \<in> set cs \<Longrightarrow> (idx c, c) \<notin> members q"
    and "\<And>c. c \<in> set cs \<Longrightarrow> \<exists>n. map_of ind c = Some n \<and> int (count_list cs c) \<le> n"
    and "relax push idx cs ind q = (ind', q')"
  shows "valid q' \<and> map fst ind' = map fst ind
    \<and> (\<forall>v. map_of ind' v = map_option (\<lambda>n. n - int (count_list cs v)) (map_of ind v))
    \<and> members q' = members q \<union> {(idx c, c) | c. c \<in> set cs \<and> map_of ind c = Some (int (count_list cs c))}"
  using assms
proof (induction cs arbitrary: ind q)
  case Nil
  then show ?case by (auto simp: option.map_id[unfolded id_def])
next
  case (Cons c cs)
  let ?ind = "decr c ind" and ?zero = "map_of (decr c ind) c = Some 0"
  let ?q = "if ?zero then push (idx c, c) q else q"
  obtain n where n: "map_of ind c = Some n" "int (Suc (count_list cs c)) \<le> n"
    using Cons.prems(3) [of c] by auto
  have q: "valid ?q \<and> members ?q = members q \<union> (if ?zero then {(idx c, c)} else {})"
    using push_fresh [of q "(idx c, c)"] Cons.prems(1) Cons.prems(2) [of c] by auto
  have once: "c \<notin> set cs" if ?zero
    using that n count_list_0_iff [of cs c] by (auto simp: map_of_decr)
  have fresh: "\<And>d. d \<in> set cs \<Longrightarrow> (idx d, d) \<notin> members ?q"
    using q once Cons.prems(2) by auto
  have enough: "\<And>d. d \<in> set cs \<Longrightarrow> \<exists>m. map_of ?ind d = Some m \<and> int (count_list cs d) \<le> m"
    using Cons.prems(3) n by (fastforce simp: map_of_decr)
  have run: "relax push idx cs ?ind ?q = (ind', q')"
    using Cons.prems(4) by (simp add: Let_def)
  note ih = Cons.IH [OF conjunct1 [OF q] fresh enough run]
  have "d \<in> set (c # cs) \<and> map_of ind d = Some (int (count_list (c # cs) d)) \<longleftrightarrow>
      (?zero \<and> d = c) \<or> (d \<in> set cs \<and> map_of ?ind d = Some (int (count_list cs d)))" for d
  proof (cases "d = c")
    case True
    then show ?thesis using n once count_list_0_iff [of cs c] by (auto simp: map_of_decr)
  next
    case False
    then show ?thesis by (cases "map_of ind d") (simp_all add: map_of_decr)
  qed
  then have new: "{(idx d, d) | d. d \<in> set (c # cs) \<and> map_of ind d = Some (int (count_list (c # cs) d))} =
      (if ?zero then {(idx c, c)} else {})
      \<union> {(idx d, d) | d. d \<in> set cs \<and> map_of ?ind d = Some (int (count_list cs d))}"
    by (simp only:) auto
  have "members q' = members q \<union>
      {(idx d, d) | d. d \<in> set (c # cs) \<and> map_of ind d = Some (int (count_list (c # cs) d))}"
    unfolding new using ih q by blast
  moreover have "map_of ind' v = map_option (\<lambda>n. n - int (count_list (c # cs) v)) (map_of ind v)" for v
    using ih by (cases "map_of ind v") (simp_all add: map_of_decr)
  ultimately show ?case using ih by simp
qed

lemma round_keeps:
  assumes ok: "graph_ok ns" and q: "valid q" and inv: "topo_inv ns order ind (members q)"
    and pop: "pop q = Some ((i, u), q1)"
    and run: "relax push (index_of ns) (children ns u) ind q1 = (ind', q')"
  shows "valid q' \<and> topo_inv ns (order @ [u]) ind' (members q')"
proof -
  let ?P = "set order" and ?idx = "index_of ns"
  have dist: "distinct (map n_id ns)" using ok by (simp add: graph_ok_def)
  have first: "chosen_first ns order" and keys: "map fst ind = map n_id ns"
    and ind: "\<And>v. v \<in> ids ns \<Longrightarrow> map_of ind v = Some (int (length (filter (\<lambda>d. d \<notin> ?P) (deps_of ns v))))"
    and mem: "members q = ready ns ?P"
    using inv by (auto simp: topo_inv_def)
  have least: "(i, u) \<in> ready ns ?P" "\<forall>e \<in> ready ns ?P. (i, u) \<le> e"
    and q1: "valid q1" "members q1 = ready ns ?P - {(i, u)}"
    using pop_least [OF q pop] mem by auto
  then have u: "u \<in> ids ns" "u \<notin> ?P" "set (deps_of ns u) \<subseteq> ?P" "i = ?idx u"
    by (auto simp: ready_iff)
  have count: "map_of ind v = Some (int (length (filter (\<lambda>d. d \<notin> insert u ?P) (deps_of ns v))
      + count_list (deps_of ns v) u))" if "v \<in> ids ns" for v
    using ind [OF that] open_deps_insert [OF u(2), of "deps_of ns v"] by simp
  note child = set_children [OF dist] and cnt = count_children [OF dist]
  have "valid q' \<and> map fst ind' = map fst ind
    \<and> (\<forall>v. map_of ind' v = map_option (\<lambda>n. n - int (count_list (children ns u) v)) (map_of ind v))
    \<and> members q' = members q1 \<union>
        {(?idx c, c) | c. c \<in> set (children ns u) \<and> map_of ind c = Some (int (count_list (children ns u) c))}"
    by (rule relax_effect [OF q1(1) _ _ run]) (use u(2) count child cnt in \<open>auto simp: q1(2) ready_iff\<close>)
  moreover have "members q1 \<union>
      {(?idx c, c) | c. c \<in> set (children ns u) \<and> map_of ind c = Some (int (count_list (children ns u) c))}
      = ready ns (insert u ?P)"
  proof -
    have "c \<in> set (children ns u) \<and> map_of ind c = Some (int (count_list (children ns u) c)) \<longleftrightarrow>
        c \<in> ids ns \<and> u \<in> set (deps_of ns c) \<and> set (deps_of ns c) \<subseteq> insert u ?P" for c
      using count [of c] no_open_deps [of "insert u ?P" "deps_of ns c"] by (auto simp: child cnt)
    then show ?thesis
      using u chosen_first_facts [OF first] by (auto simp: q1(2) ready_def) (meson subsetD)+
  qed
  ultimately show ?thesis
    using least u(4) first keys count by (simp add: topo_inv_def chosen_first_snoc cnt)
qed

end

interpretation hq: ready_queue heappush heappop set "\<lambda>h. sorted h \<and> distinct h"
  by unfold_locales
    (auto simp: heappush_def heappop_def set_insort_key distinct_insort sorted_insort split: list.splits)

lemma topo_loop_inv:
  "graph_ok ns \<Longrightarrow> sorted h \<and> distinct h \<Longrightarrow> topo_inv ns order ind (set h) \<Longrightarrow>
     \<exists>ind'. topo_inv ns (topo_loop (index_of ns) (children ns) ind h order) ind' {}"
proof (induction "index_of ns" "children ns" ind h order rule: topo_loop.induct)
  case (1 ind h order)
  show ?case
  proof (cases "heappop h")
    case None
    then show ?thesis
      using 1 hq.pop_empty [of h] by (subst topo_loop.simps) auto
  next
    case (Some p)
    then obtain i u h1 where p: "heappop h = Some ((i, u), h1)" by (cases p) auto
    obtain ind' h' where run: "relax heappush (index_of ns) (children ns u) ind h1 = (ind', h')"
      by (cases "relax heappush (index_of ns) (children ns u) ind h1")
    show ?thesis
      using 1(1) [OF p refl refl] hq.round_keeps [OF 1(2,3,4) p run] 1(2) run
      by (subst topo_loop.simps) (simp add: p)
  qed
qed

section \<open>The whole order\<close>

lemma initial_heap:
  fixes ind :: "(string \<times> int) list"
  defines "add \<equiv> \<lambda>idx h (k, n). if n = (0::int) then heappush (idx k, k) h else h"
  assumes "sorted h0 \<and> distinct h0" "distinct (map fst ind)" "\<And>k n. (k, n) \<in> set ind \<Longrightarrow> (idx k, k) \<notin> set h0"
  shows "sorted (foldl (add idx) h0 ind) \<and> distinct (foldl (add idx) h0 ind)
    \<and> set (foldl (add idx) h0 ind) = set h0 \<union> {(idx k, k) | k. (k, 0) \<in> set ind}"
  using assms(2-)
proof (induction ind arbitrary: h0)
  case (Cons x ind)
  obtain k n where x: "x = (k, n)" by (cases x)
  let ?h1 = "add idx h0 x"
  have h1: "sorted ?h1 \<and> distinct ?h1 \<and> set ?h1 = set h0 \<union> (if n = 0 then {(idx k, k)} else {})"
    using hq.push_fresh [OF Cons.prems(1), of "(idx k, k)"] Cons.prems(1,3) by (auto simp: x add_def)
  have set1: "set ?h1 = set h0 \<union> (if n = 0 then {(idx k, k)} else {})" using h1 by blast
  have valid1: "sorted ?h1 \<and> distinct ?h1" using h1 by blast
  have keys: "distinct (map fst ind)" and k: "k \<notin> fst ` set ind"
    using Cons.prems(2) x by auto
  have fresh: "(idx l, l) \<notin> set ?h1" if "(l, m) \<in> set ind" for l m
    using Cons.prems(3) [of l m] that k unfolding set1 by (cases "n = 0") force+
  note ih = Cons.IH [OF valid1 keys fresh]
  have "set ?h1 \<union> {(idx k, k) | k. (k, 0) \<in> set ind} =
      set h0 \<union> {(idx k, k) | k. (k, 0) \<in> set (x # ind)}"
    unfolding set1 by (cases "n = 0") (auto simp: x)
  then show ?case using ih by simp
qed simp

lemma topo_order_inv:
  assumes "graph_ok ns"
  shows "chosen_first ns (topo_order ns) \<and> ready ns (set (topo_order ns)) = {}"
proof -
  have dist: "distinct (map n_id ns)" using assms by (simp add: graph_ok_def)
  let ?h = "foldl (\<lambda>h (k, n). if n = 0 then heappush (index_of ns k, k) h else h) [] (indegree ns)"
  have keys: "map fst (indegree ns) = map n_id ns" by (simp add: indegree_def)
  have h: "sorted ?h \<and> distinct ?h \<and> set ?h = {(index_of ns k, k) | k. (k, 0) \<in> set (indegree ns)}"
    using initial_heap [of "[]" "indegree ns" "index_of ns"] dist keys by simp
  have "(k, 0) \<in> set (indegree ns) \<longleftrightarrow> k \<in> ids ns \<and> deps_of ns k = []" for k
    using deps_of_node [OF dist] by (force simp: indegree_def ids_def)
  then have "set ?h = ready ns (set [])"
    using h by (auto simp: ready_def)
  moreover have "map_of (indegree ns) v = Some (int (length (deps_of ns v)))" if "v \<in> ids ns" for v
    using that dist deps_of_node [OF dist] keys
    by (intro map_of_is_SomeI) (auto simp: indegree_def ids_def comp_def)
  ultimately have "topo_inv ns [] (indegree ns) (set ?h)"
    by (simp add: topo_inv_def keys)
  from topo_loop_inv [OF assms _ this] h show ?thesis
    by (auto simp: topo_order_def topo_inv_def)
qed

lemma finite_ids [simp]: "finite (ids ns)"
  by (simp add: ids_def)

lemma before_position: "d \<in> set pre \<Longrightarrow> length (takeWhile (\<lambda>x. x \<noteq> d) (pre @ zs)) < length pre"
  by (induction pre) auto

lemma ordered_acyclic:
  assumes "chosen_first ns order" "set order = ids ns"
  shows "acyclic (dependency ns)"
proof -
  let ?pos = "\<lambda>v. length (takeWhile (\<lambda>x. x \<noteq> v) order)"
  have "?pos d < ?pos v" if "(d, v) \<in> dependency ns" for d v
  proof -
    have "v \<in> set order" and d: "d \<in> set (deps_of ns v)"
      using that assms(2) by (auto simp: dependency_def)
    then obtain pre post where o: "order = pre @ v # post" by (meson split_list)
    then have "d \<in> set pre" "v \<notin> set pre"
      using assms(1) d chosen_first_facts [OF assms(1)]
      by (auto simp: chosen_first_def ready_def)
    moreover from this have "takeWhile (\<lambda>x. x \<noteq> v) order = pre"
      unfolding o by (subst takeWhile_append2) auto
    ultimately show ?thesis using before_position [of d pre "v # post"] o by simp
  qed
  then have "dependency ns \<subseteq> measure ?pos" by auto
  then show ?thesis using wf_subset wf_acyclic wf_measure by metis
qed

lemma acyclic_ordered:
  assumes ok: "graph_ok ns" and acyc: "acyclic (dependency ns)"
    and order: "chosen_first ns order" "ready ns (set order) = {}"
  shows "set order = ids ns"
proof (rule ccontr)
  assume "set order \<noteq> ids ns"
  then obtain v where v: "v \<in> ids ns - set order" using chosen_first_facts [OF order(1)] by blast
  have sub: "dependency ns \<subseteq> ids ns \<times> ids ns"
    using ok deps_of_node [of ns] by (auto simp: dependency_def graph_ok_def ids_def) (meson subsetD)
  then have fin: "finite (dependency ns)"
    by (rule finite_subset) simp
  have "wf (dependency ns)" by (rule finite_acyclic_wf [OF fin acyc])
  then obtain m where m: "m \<in> ids ns - set order"
    and least: "\<And>d. (d, m) \<in> dependency ns \<Longrightarrow> d \<notin> ids ns - set order"
    using wfE_min [OF _ v] by metis
  have "set (deps_of ns m) \<subseteq> set order"
  proof
    fix d assume "d \<in> set (deps_of ns m)"
    then have dep: "(d, m) \<in> dependency ns" using m by (simp add: dependency_def)
    then have "d \<in> ids ns" using sub by blast
    with least [OF dep] show "d \<in> set order" by blast
  qed
  then have "(index_of ns m, m) \<in> ready ns (set order)" using m by (simp add: ready_def)
  then show False using order(2) by simp
qed

lemma topo_order_complete:
  assumes ok: "graph_ok ns"
  shows "length (topo_order ns) = length ns \<longleftrightarrow> acyclic (dependency ns)"
    and "length (topo_order ns) = length ns \<longleftrightarrow> set (topo_order ns) = ids ns"
proof -
  note inv = topo_order_inv [OF ok]
  have facts: "distinct (topo_order ns)" "set (topo_order ns) \<subseteq> ids ns"
    using chosen_first_facts inv by auto
  have "card (ids ns) = length ns"
    using ok by (simp add: ids_def graph_ok_def distinct_map card_image distinct_card)
  then have "length (topo_order ns) = length ns \<longleftrightarrow> card (set (topo_order ns)) = card (ids ns)"
    using facts(1) by (simp add: distinct_card)
  then show len: "length (topo_order ns) = length ns \<longleftrightarrow> set (topo_order ns) = ids ns"
    using card_subset_eq [OF finite_ids facts(2)] by auto
  show "length (topo_order ns) = length ns \<longleftrightarrow> acyclic (dependency ns)"
    unfolding len using ordered_acyclic acyclic_ordered [OF ok] inv by blast
qed

lemma topo_order_perm:
  assumes ok: "graph_ok ns" and perm: "mset ms = mset ns"
  shows "topo_order ms = topo_order ns"
proof -
  have set: "set ms = set ns" using perm by (rule mset_eq_setD)
  have dist: "distinct (map n_id ns)" using ok by (simp add: graph_ok_def)
  have ms: "graph_ok ms"
    using ok perm set by (metis graph_ok_def ids_def mset_eq_imp_distinct_iff mset_map)
  have look: "lookup ms = lookup ns" using lookup_perm [OF dist perm] by blast
  have same: "index_of ms = index_of ns" "deps_of ms = deps_of ns" "ids ms = ids ns"
    by (simp_all add: index_of_def deps_of_def ids_def look set fun_eq_iff)
  have ready: "ready ms = ready ns" by (simp add: ready_def same fun_eq_iff)
  have cf: "chosen_first ms = chosen_first ns" by (simp add: chosen_first_def ready same fun_eq_iff)
  note a = topo_order_inv [OF ok] and b = topo_order_inv [OF ms, unfolded cf ready]
  have stuck: "zs = []" if "chosen_first ns (xs @ zs)" "ready ns (set xs) = {}" for xs zs
  proof (cases zs)
    case (Cons z zs')
    then have "chosen_first ns (xs @ [z])" using that(1) chosen_first_prefix [of ns "xs @ [z]" zs'] by simp
    then show ?thesis using that(2) by (simp add: chosen_first_snoc)
  qed
  show ?thesis
    using chosen_first_unique [of ns "topo_order ns" "topo_order ms"] a b stuck by (metis append_Nil2)
qed

end
