(* ===== verification/WorkflowContract.thy ===== *)
theory WorkflowContract
  imports CanonicalJsonFacts TopoOrder "HOL-Library.AList"
begin

text \<open>
  The contract \<open>repository-workflow/v1\<close> (\<open>contracts/workflow_contract.py\<close>): the validators of a
  stage and of a whole definition, in the order of the source so that the first failing check is
  the one that raises, the deterministic order of the stages, permissions, identifiers and the
  terminal decision.  The long validators are cut into one definition per group of fields.
  \<open>stage["id"]\<close> and the other required keys are present whenever these functions are called (the
  exact-key check comes first), so a missing key is read as null.
\<close>

section \<open>Constants\<close>

definition WORKFLOW_CONTRACT :: string where
  "WORKFLOW_CONTRACT = ''repository-workflow/v1''"

definition STAGE_KINDS :: "string list" where
  "STAGE_KINDS = [''author'', ''check'', ''verifier'', ''skeptic'']"

definition CAPABILITY_MODES :: "string list" where
  "CAPABILITY_MODES = [''read-only'', ''read-write'']"

definition ALLOWED_PERMISSIONS :: "string list" where
  "ALLOWED_PERMISSIONS = [''read_repository'', ''write_declared_paths'', ''invoke_declared_mcp'',
     ''emit_declared_artifact'', ''run_declared_verification'', ''request_cli_transition'',
     ''reconcile_declared_effect'']"

definition SIDE_EFFECT_PERMISSIONS :: "string list" where
  "SIDE_EFFECT_PERMISSIONS = removeAll ''read_repository'' ALLOWED_PERMISSIONS"

definition FORBIDDEN_PERMISSIONS :: "string list" where
  "FORBIDDEN_PERMISSIONS = [''spawn_nested_agent'', ''run_nested_workflow'', ''supervise_workflow'',
     ''write_verified'', ''write_release_state'', ''publish_release'', ''unrestricted_shell'']"

definition MAX_WORKFLOW_AGENTS :: int where "MAX_WORKFLOW_AGENTS = 16"
definition MAX_PARALLELISM :: int where "MAX_PARALLELISM = 8"
definition MAX_STAGES :: nat where "MAX_STAGES = 128"
definition MAX_MATRIX_ROWS :: nat where "MAX_MATRIX_ROWS = 256"

definition semver_number :: "string \<Rightarrow> bool" where
  \<comment> \<open>\<open>0|[1-9][0-9]*\<close>\<close>
  "semver_number s \<longleftrightarrow> s \<noteq> [] \<and> list_all is_digit s \<and> (hd s = CHR ''0'' \<longrightarrow> length s = 1)"

definition semver_idents :: "string \<Rightarrow> bool" where
  \<comment> \<open>\<open>[0-9A-Za-z-]+(\.[0-9A-Za-z-]+)*\<close>\<close>
  "semver_idents s \<longleftrightarrow> list_all (\<lambda>p. p \<noteq> [] \<and> list_all (\<lambda>c. is_ascii_alnum c \<or> c = CHR ''-'') p)
     (split_on CHR ''.'' s)"

definition SEMVER_RE :: "string \<Rightarrow> bool" where
  "SEMVER_RE s =
     (let head = takeWhile (\<lambda>c. c \<noteq> CHR ''+'') s; build = dropWhile (\<lambda>c. c \<noteq> CHR ''+'') s;
          core = takeWhile (\<lambda>c. c \<noteq> CHR ''-'') head; pre = dropWhile (\<lambda>c. c \<noteq> CHR ''-'') head
      in length (split_on CHR ''.'' core) = 3 \<and> list_all semver_number (split_on CHR ''.'' core)
         \<and> (pre = [] \<or> semver_idents (tl pre)) \<and> (build = [] \<or> semver_idents (tl build)))"

definition is_lower_alnum :: "char \<Rightarrow> bool" where
  "is_lower_alnum c \<longleftrightarrow> is_digit c \<or> (97 \<le> code_point c \<and> code_point c \<le> 122)"

definition WORKFLOW_NAME_RE :: "string \<Rightarrow> bool" where
  "WORKFLOW_NAME_RE s \<longleftrightarrow> s \<noteq> [] \<and> \<not> is_digit (hd s)
     \<and> list_all (\<lambda>p. p \<noteq> [] \<and> list_all is_lower_alnum p) (split_on CHR ''-'' s)"

section \<open>Paths, arguments and executors\<close>

definition has_side_effect_permission :: "dict \<Rightarrow> bool" where
  "has_side_effect_permission task \<longleftrightarrow>
     (\<exists>p \<in> set (strings (dget task ''permissions'')). p \<in> set SIDE_EFFECT_PERMISSIONS)"

definition task_requires_terminable_executor :: "dict \<Rightarrow> bool" where
  "task_requires_terminable_executor task \<longleftrightarrow> dget task ''effect_type'' \<noteq> JNull
     \<or> truthy (dget task ''write_paths'') \<or> truthy (dget task ''mcp_allowlist'')
     \<or> has_side_effect_permission task"

definition AUTHORITY_ROOTS :: "string list" where
  "AUTHORITY_ROOTS = [''.omg/state/'', ''.agy/state/'', ''.omg/artifacts/dual-parity/'',
     ''.agy/artifacts/dual-parity/'']"

definition in_authority_root :: "string \<Rightarrow> bool" where
  \<comment> \<open>\<open>text == prefix.rstrip("/") or text.startswith(prefix)\<close> for one of the roots\<close>
  "in_authority_root s \<longleftrightarrow> list_ex (\<lambda>p. s = butlast p \<or> starts_with s p) AUTHORITY_ROOTS"

definition safe_repo_path :: "json \<Rightarrow> wf_exc + string" where
  "safe_repo_path v = bindE (require_nonempty_string v) (\<lambda>s.
     bindE (check (\<not> starts_with s ''/'' \<and> ''..'' \<notin> set (posix_parts s) \<and> posix_normal s)
       ContractValidationError) (\<lambda>_.
     bindE (check (posix_name s \<noteq> ''AGENTS.md'') ContractValidationError) (\<lambda>_.
     bindE (check (\<not> in_authority_root s) ContractValidationError) (\<lambda>_. Inr s))))"

definition SHELL_NAMES :: "string list" where
  "SHELL_NAMES = [''sh'', ''bash'', ''zsh'', ''fish'', ''dash'', ''cmd'', ''powershell'', ''pwsh'']"

definition SHELL_MARKERS :: "string list" where
  \<comment> \<open>the last but one is a back quote, the last a line feed\<close>
  "SHELL_MARKERS = [''$('', ''${'', ''&&'', ''||'', '';'', [char_of (96 :: nat)], [char_of (10 :: nat)]]"

definition validate_argv :: "json \<Rightarrow> wf_exc + string list" where
  "validate_argv v = bindE (string_array v) (\<lambda>argv.
     bindE (check (argv \<noteq> []) ContractValidationError) (\<lambda>_.
     bindE (check (posix_name (hd argv) \<notin> set SHELL_NAMES) ContractValidationError) (\<lambda>_.
     bindE (check (\<not> list_ex (\<lambda>a. list_ex (contains a) SHELL_MARKERS) argv) ContractValidationError)
       (\<lambda>_. Inr argv))))"

section \<open>One stage\<close>

definition STAGE_KEYS :: "string list" where
  "STAGE_KEYS = [''id'', ''declaration_index'', ''depends_on'', ''kind'', ''role'', ''actor_identity'',
     ''capability_mode'', ''agent_count'', ''matrix'', ''mcp_allowlist'', ''write_paths'',
     ''permissions'', ''output_schema'', ''verification_argv'', ''timeout_seconds'', ''retry_budget'',
     ''artifact_contract'', ''effect_type'']"

definition require :: "bool \<Rightarrow> wf_exc + unit" where
  "require b = check b ContractValidationError"

definition validate_stage_identity :: "dict \<Rightarrow> wf_exc + unit" where
  "validate_stage_identity stage =
     bindE (require_safe_id (dget stage ''id'')) (\<lambda>_.
     bindE (require_integer (dget stage ''declaration_index'') (Some 0)) (\<lambda>_.
     bindE (string_array (dget stage ''depends_on'')) (\<lambda>deps.
     bindE (require (distinct deps)) (\<lambda>_.
     bindE (require (text_in (dget stage ''kind'') STAGE_KINDS)) (\<lambda>_.
     bindE (require_safe_id (dget stage ''role'')) (\<lambda>role.
     bindE (require (\<not> contains role ''supervisor'' \<and> \<not> contains role ''workflow'')) (\<lambda>_.
     bindE (require_safe_id (dget stage ''actor_identity'')) (\<lambda>_.
     require (text_in (dget stage ''capability_mode'') CAPABILITY_MODES)))))))))"

definition rows_of :: "json \<Rightarrow> json list" where
  "rows_of v = (case v of JList rows \<Rightarrow> rows | _ \<Rightarrow> [])"

definition validate_stage_matrix :: "dict \<Rightarrow> wf_exc + unit" where
  "validate_stage_matrix stage =
     bindE (require_integer (dget stage ''agent_count'') (Some 1)) (\<lambda>count.
     bindE (require (count \<le> MAX_WORKFLOW_AGENTS)) (\<lambda>_.
     let matrix = dget stage ''matrix'' in
     bindE (require (is_list matrix \<and> rows_of matrix \<noteq> [] \<and> length (rows_of matrix) \<le> MAX_MATRIX_ROWS)) (\<lambda>_.
     bindE (mapE require_object (rows_of matrix)) (\<lambda>_.
     require (count = int (length (rows_of matrix)))))))"

definition validate_stage_targets :: "dict \<Rightarrow> wf_exc + string list" where
  \<comment> \<open>the MCP allow-list and the write paths, which are returned\<close>
  "validate_stage_targets stage =
     bindE (string_array (dget stage ''mcp_allowlist'')) (\<lambda>mcp.
     bindE (require ([] \<notin> set mcp)) (\<lambda>_.
     bindE (require (distinct mcp)) (\<lambda>_.
     bindE (require (is_list (dget stage ''write_paths''))) (\<lambda>_.
     bindE (mapE safe_repo_path (rows_of (dget stage ''write_paths''))) (\<lambda>write_paths.
     bindE (require (distinct write_paths)) (\<lambda>_. Inr write_paths))))))"

definition validate_stage_permissions :: "dict \<Rightarrow> string list \<Rightarrow> wf_exc + unit" where
  "validate_stage_permissions stage write_paths =
     bindE (string_array (dget stage ''permissions'')) (\<lambda>permissions.
     bindE (require (distinct permissions)) (\<lambda>_.
     bindE (require (list_all (\<lambda>p. p \<in> set ALLOWED_PERMISSIONS) permissions
        \<and> \<not> list_ex (\<lambda>p. p \<in> set FORBIDDEN_PERMISSIONS) permissions)) (\<lambda>_.
     bindE (if text_in (dget stage ''capability_mode'') [''read-only'']
            then require (\<not> (write_paths \<noteq> [] \<or> ''write_declared_paths'' \<in> set permissions))
            else require (\<not> (write_paths = [] \<or> ''write_declared_paths'' \<notin> set permissions))) (\<lambda>_.
     require (\<not> (truthy (dget stage ''mcp_allowlist'') \<and> ''invoke_declared_mcp'' \<notin> set permissions))))))"

definition validate_stage_artifact :: "dict \<Rightarrow> wf_exc + unit" where
  "validate_stage_artifact stage =
     bindE (require_object (dget stage ''artifact_contract'')) (\<lambda>artifact.
     bindE (require_exact_keys artifact [''paths'', ''schema'', ''required''] []) (\<lambda>_.
     bindE (require (is_list (dget artifact ''paths''))) (\<lambda>_.
     bindE (mapE safe_repo_path (rows_of (dget artifact ''paths''))) (\<lambda>_.
     bindE (require_object (dget artifact ''schema'')) (\<lambda>_.
     require (is_bool (dget artifact ''required'')))))))"

definition validate_stage_effect :: "dict \<Rightarrow> wf_exc + unit" where
  "validate_stage_effect stage =
     (if dget stage ''effect_type'' = JNull then Inr ()
      else bindE (require_safe_id (dget stage ''effect_type'')) (\<lambda>effect.
        bindE (require (\<not> contains effect ''release'' \<and> \<not> contains effect ''publish'')) (\<lambda>_.
        require (''reconcile_declared_effect'' \<in> set (strings (dget stage ''permissions''))))))"

definition validate_stage :: "json \<Rightarrow> wf_exc + dict" where
  "validate_stage v =
     bindE (require_object v) (\<lambda>stage.
     bindE (require_exact_keys stage STAGE_KEYS []) (\<lambda>_.
     bindE (validate_stage_identity stage) (\<lambda>_.
     bindE (validate_stage_matrix stage) (\<lambda>_.
     bindE (validate_stage_targets stage) (\<lambda>write_paths.
     bindE (validate_stage_permissions stage write_paths) (\<lambda>_.
     bindE (require_object (dget stage ''output_schema'')) (\<lambda>_.
     bindE (require (is_list (dget stage ''verification_argv''))) (\<lambda>_.
     bindE (mapE validate_argv (rows_of (dget stage ''verification_argv''))) (\<lambda>_.
     bindE (require_integer (dget stage ''timeout_seconds'') (Some 1)) (\<lambda>_.
     bindE (require_integer (dget stage ''retry_budget'') (Some 0)) (\<lambda>retry.
     bindE (require (retry \<le> 10)) (\<lambda>_.
     bindE (validate_stage_artifact stage) (\<lambda>_.
     bindE (validate_stage_effect stage) (\<lambda>_. Inr stage))))))))))))))"

section \<open>The order of the stages\<close>

definition stage_id :: "dict \<Rightarrow> string" where
  \<comment> \<open>\<open>str(stage["id"])\<close>\<close>
  "stage_id stage = text_of (dget stage ''id'')"

definition stage_by_id :: "dict list \<Rightarrow> (string \<times> dict) list" where
  "stage_by_id stages = foldl (\<lambda>m stage. AList.update (stage_id stage) stage m) [] stages"

definition read_dependency :: "string list \<Rightarrow> json \<Rightarrow> wf_exc + string" where
  "read_dependency known v = (case text_val v of
     Some s \<Rightarrow> if s \<in> set known then Inr s else Inl ContractValidationError
   | None \<Rightarrow> if is_list v \<or> is_obj v then Inl (Raised TypeError) else Inl ContractValidationError)"

definition read_node :: "string list \<Rightarrow> string \<times> dict \<Rightarrow> wf_exc + node" where
  \<comment> \<open>\<open>int()\<close> of the declaration index is taken here for every stage, in the source when the stage
      is pushed; on a validated stage it cannot fail\<close>
  "read_node known entry = (case entry of (sid, stage) \<Rightarrow>
     (case dget stage ''depends_on'' of
       JList deps \<Rightarrow>
         bindE (mapE (read_dependency known) deps) (\<lambda>ds.
         (case py_int (dget stage ''declaration_index'') of
           Inl e \<Rightarrow> Inl (Raised e)
         | Inr i \<Rightarrow> Inr \<lparr>n_id = sid, n_index = i, n_deps = ds\<rparr>))
     | _ \<Rightarrow> Inl ContractValidationError))"

definition stage_nodes :: "dict list \<Rightarrow> wf_exc + node list" where
  "stage_nodes stages = (let m = stage_by_id stages in mapE (read_node (map fst m)) m)"

definition deterministic_topological_order :: "dict list \<Rightarrow> wf_exc + string list" where
  "deterministic_topological_order stages =
     bindE (stage_nodes stages) (\<lambda>ns. let order = topo_order ns in
     bindE (require (length order = length ns)) (\<lambda>_. Inr order))"

section \<open>A definition\<close>

definition DEFINITION_KEYS :: "string list" where
  "DEFINITION_KEYS = [''contract'', ''name'', ''workflow_version'', ''definition_digest'', ''input_schema'',
     ''stages'', ''max_parallelism'', ''ship_rule'', ''migration'', ''native_projection'']"

definition workflow_definition_digest :: "dict \<Rightarrow> wf_exc + string" where
  "workflow_definition_digest d = digest_of (JObj (ddel d ''definition_digest''))"

definition validate_header :: "dict \<Rightarrow> wf_exc + unit" where
  "validate_header d =
     bindE (require (text_in (dget d ''contract'') [WORKFLOW_CONTRACT])) (\<lambda>_.
     bindE (require_nonempty_string (dget d ''name'')) (\<lambda>name.
     bindE (require (WORKFLOW_NAME_RE name)) (\<lambda>_.
     bindE (require_nonempty_string (dget d ''workflow_version'')) (\<lambda>version.
     bindE (require (SEMVER_RE version)) (\<lambda>_.
     bindE (workflow_definition_digest d) (\<lambda>expected.
     bindE (require (text_in (dget d ''definition_digest'') [expected])) (\<lambda>_.
     bindE (require_object (dget d ''input_schema'')) (\<lambda>_. Inr ()))))))))"

definition depends_on :: "dict \<Rightarrow> string list" where
  "depends_on stage = strings (dget stage ''depends_on'')"

definition declaration_index :: "dict \<Rightarrow> int" where
  "declaration_index stage = (case dget stage ''declaration_index'' of JInt i \<Rightarrow> i | _ \<Rightarrow> 0)"

definition agent_count :: "dict \<Rightarrow> int" where
  "agent_count stage = (case dget stage ''agent_count'' of JInt i \<Rightarrow> i | _ \<Rightarrow> 0)"

definition validate_stage_graph :: "dict list \<Rightarrow> wf_exc + unit" where
  "validate_stage_graph stages =
     bindE (require (distinct (map stage_id stages))) (\<lambda>_.
     bindE (require (sort (map declaration_index stages) = map int [0..<length stages])) (\<lambda>_.
     require (list_all (\<lambda>stage. stage_id stage \<notin> set (depends_on stage)
        \<and> set (depends_on stage) \<subseteq> set (map stage_id stages)) stages)))"

definition validate_stages :: "dict \<Rightarrow> wf_exc + dict list" where
  "validate_stages d =
     (let raw = dget d ''stages'' in
      bindE (require (is_list raw \<and> rows_of raw \<noteq> [] \<and> length (rows_of raw) \<le> MAX_STAGES)) (\<lambda>_.
      bindE (mapE validate_stage (rows_of raw)) (\<lambda>stages.
      bindE (validate_stage_graph stages) (\<lambda>_.
      bindE (require_integer (dget d ''max_parallelism'') (Some 1)) (\<lambda>max_parallel.
      bindE (require (max_parallel \<le> MAX_PARALLELISM)) (\<lambda>_.
      bindE (require (sum_list (map agent_count stages) \<le> MAX_WORKFLOW_AGENTS)) (\<lambda>_.
      bindE (deterministic_topological_order stages) (\<lambda>order.
      bindE (require (length order = length stages)) (\<lambda>_. Inr stages)))))))))"

definition actors :: "dict list \<Rightarrow> string \<Rightarrow> string list" where
  \<comment> \<open>\<open>actors_by_kind[kind]\<close>\<close>
  "actors stages kind = map (\<lambda>stage. text_of (dget stage ''actor_identity''))
     (filter (\<lambda>stage. text_in (dget stage ''kind'') [kind]) stages)"

definition validate_actors :: "dict list \<Rightarrow> wf_exc + unit" where
  "validate_actors stages =
     bindE (require (actors stages ''author'' \<noteq> [] \<and> actors stages ''verifier'' \<noteq> []
        \<and> actors stages ''skeptic'' \<noteq> [])) (\<lambda>_.
     bindE (require (set (actors stages ''author'')
        \<inter> (set (actors stages ''verifier'') \<union> set (actors stages ''skeptic'')) = {})) (\<lambda>_.
     require (set (actors stages ''verifier'') \<inter> set (actors stages ''skeptic'') = {})))"

definition unhashable_json :: "json \<Rightarrow> bool" where
  "unhashable_json v \<longleftrightarrow> is_list v \<or> is_obj v"

definition stage_of_kind :: "dict list \<Rightarrow> json \<Rightarrow> string \<Rightarrow> wf_exc + unit" where
  \<comment> \<open>\<open>v not in stage_by_id or stage_by_id[v]["kind"] != kind\<close>\<close>
  "stage_of_kind stages v kind =
     (if unhashable_json v then Inl (Raised TypeError)
      else require (list_ex (\<lambda>stage. text_in v [stage_id stage] \<and> text_in (dget stage ''kind'') [kind]) stages))"

definition SHIP_PREDICATE :: string where
  "SHIP_PREDICATE = ''all_required_pass_and_independent_verifier_skeptic_approve''"

definition validate_ship_rule :: "dict \<Rightarrow> dict list \<Rightarrow> wf_exc + unit" where
  "validate_ship_rule d stages =
     bindE (require_object (dget d ''ship_rule'')) (\<lambda>ship.
     bindE (require_exact_keys ship [''required_stages'', ''verifier_stage'', ''skeptic_stage'', ''predicate''] []) (\<lambda>_.
     bindE (case dget ship ''required_stages'' of
         JList xs \<Rightarrow> if list_ex unhashable_json xs then Inl (Raised TypeError)
           else require (list_all is_str xs \<and> set (map text_of xs) = set (map stage_id stages))
       | _ \<Rightarrow> Inl ContractValidationError) (\<lambda>_.
     bindE (stage_of_kind stages (dget ship ''verifier_stage'') ''verifier'') (\<lambda>_.
     bindE (stage_of_kind stages (dget ship ''skeptic_stage'') ''skeptic'') (\<lambda>_.
     require (text_in (dget ship ''predicate'') [SHIP_PREDICATE]))))))"

definition validate_migration :: "dict \<Rightarrow> wf_exc + unit" where
  "validate_migration d =
     bindE (require_object (dget d ''migration'')) (\<lambda>migration.
     bindE (require_exact_keys migration [''supersedes_version'', ''supersedes_digest'', ''review_digest''] []) (\<lambda>_.
     bindE (if dget migration ''review_digest'' \<noteq> JNull
            then require_sha256 (dget migration ''review_digest'') else Inr []) (\<lambda>_.
     if dget migration ''supersedes_version'' = JNull
     then require (dget migration ''supersedes_digest'' = JNull)
     else bindE (require (SEMVER_RE (text_of (dget migration ''supersedes_version'')))) (\<lambda>_.
          bindE (require_sha256 (dget migration ''supersedes_digest'')) (\<lambda>_.
          require (dget migration ''review_digest'' \<noteq> JNull))))))"

definition validate_projection :: "dict \<Rightarrow> wf_exc + unit" where
  \<comment> \<open>a claimed projection is refused in every case\<close>
  "validate_projection d =
     bindE (require_object (dget d ''native_projection'')) (\<lambda>projection.
     bindE (require_exact_keys projection
       [''provider'', ''status'', ''syntax'', ''probe_evidence'', ''fresh_invocation_evidence''] []) (\<lambda>_.
     bindE (require (text_in (dget projection ''provider'') [''grok''])) (\<lambda>_.
     if text_in (dget projection ''status'') [''optional_unclaimed'']
     then require (dget projection ''syntax'' = JNull)
     else Inl ContractValidationError)))"

definition validate_workflow_definition :: "json \<Rightarrow> wf_exc + dict" where
  "validate_workflow_definition v =
     bindE (require_object v) (\<lambda>d.
     bindE (require_exact_keys d DEFINITION_KEYS []) (\<lambda>_.
     bindE (validate_header d) (\<lambda>_.
     bindE (validate_stages d) (\<lambda>stages.
     bindE (validate_actors stages) (\<lambda>_.
     bindE (validate_ship_rule d stages) (\<lambda>_.
     bindE (validate_migration d) (\<lambda>_.
     bindE (validate_projection d) (\<lambda>_. Inr d))))))))"

section \<open>Versions, permissions, identifiers and the decision\<close>

definition same_text :: "json \<Rightarrow> json \<Rightarrow> bool" where
  \<comment> \<open>equality with a string\<close>
  "same_text v w \<longleftrightarrow> text_val v = text_val w"

definition ensure_immutable_same_version :: "json \<Rightarrow> json \<Rightarrow> wf_exc + unit" where
  "ensure_immutable_same_version installed candidate =
     bindE (validate_workflow_definition installed) (\<lambda>old.
     bindE (validate_workflow_definition candidate) (\<lambda>new.
     bindE (require (same_text (dget old ''name'') (dget new ''name''))) (\<lambda>_.
     if same_text (dget old ''workflow_version'') (dget new ''workflow_version'')
     then require (same_text (dget old ''definition_digest'') (dget new ''definition_digest''))
     else (case dget new ''migration'' of
         JObj m \<Rightarrow> require (same_text (dget m ''supersedes_version'') (dget old ''workflow_version'')
           \<and> same_text (dget m ''supersedes_digest'') (dget old ''definition_digest''))
       | _ \<Rightarrow> Inl ContractValidationError))))"

definition effective_permissions ::
    "string list \<Rightarrow> string list \<Rightarrow> string list \<Rightarrow> string list \<Rightarrow> wf_exc + string list" where
  "effective_permissions declared repository_policy host_capabilities launch_receipt =
     bindE (require (set declared \<subseteq> set ALLOWED_PERMISSIONS)) (\<lambda>_.
     Inr (filter (\<lambda>p. p \<in> set repository_policy \<and> p \<in> set host_capabilities \<and> p \<in> set launch_receipt) declared))"

definition workflow_task_id ::
    "string \<Rightarrow> string \<Rightarrow> string \<Rightarrow> string \<Rightarrow> string \<Rightarrow> string \<Rightarrow> int \<Rightarrow> int \<Rightarrow> wf_exc + string" where
  "workflow_task_id repository_id workflow_name workflow_version definition_digest input_digest sid
       matrix_index run_generation =
     bindE (require (repository_id = ''OMG'' \<or> repository_id = ''OMA'')) (\<lambda>_.
     bindE (require_sha256 (JStr definition_digest)) (\<lambda>_.
     bindE (require_sha256 (JStr input_digest)) (\<lambda>_.
     bindE (require_integer (JInt matrix_index) (Some 0)) (\<lambda>_.
     bindE (require_integer (JInt run_generation) (Some 0)) (\<lambda>_.
     digest_of (JList [JStr repository_id, JStr workflow_name, JStr workflow_version,
       JStr definition_digest, JStr input_digest, JStr sid, JInt matrix_index, JInt run_generation]))))))"

definition workflow_replay_id :: "string \<Rightarrow> string option \<Rightarrow> wf_exc + string" where
  "workflow_replay_id task_id receipt =
     bindE (require_sha256 (JStr task_id)) (\<lambda>_.
     bindE (case receipt of None \<Rightarrow> Inr [] | Some h \<Rightarrow> require_sha256 (JStr h)) (\<lambda>_.
     digest_of (JList [JStr task_id, case receipt of None \<Rightarrow> JNull | Some h \<Rightarrow> JStr h])))"

definition decide_terminal ::
    "(string \<times> string) list \<Rightarrow> bool \<Rightarrow> bool \<Rightarrow> bool \<Rightarrow> bool \<Rightarrow> bool \<Rightarrow> string" where
  \<comment> \<open>results per required stage, verifier and skeptic approval, permission denied, ambiguous
      receipt, external effect without receipt\<close>
  "decide_terminal results verifier skeptic denied ambiguous unreceipted =
     (if unreceipted then ''effect_unknown''
      else if denied \<or> ambiguous then ''blocked''
      else if results = [] \<or> list_ex (\<lambda>(k, r). r \<noteq> ''passed'' \<and> r \<noteq> ''approved'') results then ''no_ship''
      else if \<not> verifier \<or> \<not> skeptic then ''no_ship''
      else ''ship'')"

end
