(* ===== verification/WorkflowFacts.thy ===== *)
theory WorkflowFacts
  imports WorkflowContract
begin

text \<open>
  What an accepted stage and an accepted definition satisfy, one group of fields after the other,
  and the order of the stages seen through \<open>TopoOrder\<close>: the properties of the contract are read
  off these lemmas.
\<close>

section \<open>Inversion\<close>

lemma require_eq_Inr [result_simps]: "require b = Inr u \<longleftrightarrow> b"
  by (simp add: require_def check_eq_Inr)

lemma require_eq_Inl [result_simps]: "require b = Inl e \<longleftrightarrow> \<not> b \<and> e = ContractValidationError"
  by (simp add: require_def check_eq_Inl)

lemma require_simps' [simp]: "require True = Inr ()" "require False = Inl ContractValidationError"
  by (simp_all add: require_def)

lemma raises_require [raises_intro]: "raises_only {ContractValidationError} (require b)"
  by (simp add: require_def raises_intro)

lemma text_in_iff: "text_in v ss \<longleftrightarrow> (\<exists>s \<in> set ss. text_val v = Some s)"
  by (auto simp: text_in_def split: option.splits)

lemma text_val_Some: "text_val v = Some s \<longleftrightarrow> is_str v \<and> text_of v = s"
  by (auto simp: text_val_def)

lemma mapE_same: "(\<And>x y. x \<in> set xs \<Longrightarrow> f x = Inr y \<Longrightarrow> g x = y) \<Longrightarrow> mapE f xs = Inr ys \<Longrightarrow> ys = map g xs"
  by (induction xs arbitrary: ys) (auto simp: result_simps)

section \<open>Paths\<close>

definition authority_parts :: "string list list" where
  \<comment> \<open>the components of the roots only the runtime itself may write\<close>
  "authority_parts = [[''.omg'', ''state''], [''.agy'', ''state''],
     [''.omg'', ''artifacts'', ''dual-parity''], [''.agy'', ''artifacts'', ''dual-parity'']]"

lemma join_append: "xs \<noteq> [] \<Longrightarrow> ys \<noteq> [] \<Longrightarrow> join sep (xs @ ys) = join sep xs @ sep @ join sep ys"
proof (induction xs)
  case (Cons x xs)
  then show ?case by (cases "xs = []") (simp_all add: join_Cons)
qed simp

lemma authority_text:
  "r \<in> set authority_parts \<Longrightarrow> in_authority_root (join ''/'' (r @ rest))"
  by (cases rest) (auto simp: authority_parts_def in_authority_root_def AUTHORITY_ROOTS_def)

definition path_confined :: "string \<Rightarrow> bool" where
  \<comment> \<open>relative, without a parent step, not an \<open>AGENTS.md\<close> and outside the authority roots\<close>
  "path_confined s \<longleftrightarrow> \<not> starts_with s ''/'' \<and> ''..'' \<notin> set (posix_parts s)
     \<and> posix_name s \<noteq> ''AGENTS.md'' \<and> (\<forall>r \<in> set authority_parts. \<forall>rest. posix_parts s \<noteq> r @ rest)"

lemma safe_repo_path_confined: "safe_repo_path v = Inr s \<Longrightarrow> text_val v = Some s \<and> path_confined s"
proof -
  assume ok: "safe_repo_path v = Inr s"
  then have v: "text_val v = Some s" and rel: "\<not> starts_with s ''/''" "''..'' \<notin> set (posix_parts s)"
    and norm: "posix_normal s" and name: "posix_name s \<noteq> ''AGENTS.md''" and out: "\<not> in_authority_root s"
    by (auto simp: safe_repo_path_def result_simps require_simps)
  have "posix_parts s \<noteq> r @ rest" if "r \<in> set authority_parts" for r rest
  proof
    assume parts: "posix_parts s = r @ rest"
    moreover have "r @ rest \<noteq> []" using that by (auto simp: authority_parts_def)
    ultimately have "s = join ''/'' (r @ rest)" using norm by (metis posix_normal_def)
    then show False using out authority_text [OF that] by auto
  qed
  with v rel name show ?thesis by (simp add: path_confined_def)
qed

lemma strings_texts:
  "(\<And>x y. x \<in> set xs \<Longrightarrow> f x = Inr y \<Longrightarrow> text_val x = Some y) \<Longrightarrow> mapE f xs = Inr ys
     \<Longrightarrow> strings (JList xs) = ys \<and> list_all is_str xs"
  by (induction xs arbitrary: ys) (auto simp: result_simps strings_def text_val_Some)

lemma repo_paths:
  assumes "mapE safe_repo_path xs = Inr ps"
  shows "strings (JList xs) = ps \<and> list_all path_confined ps"
proof -
  have "list_all path_confined ps"
    using mapE_set [OF assms] safe_repo_path_confined by (auto simp: list_all_iff)
  moreover have "strings (JList xs) = ps"
    using strings_texts [OF _ assms] safe_repo_path_confined by blast
  ultimately show ?thesis by simp
qed

section \<open>An accepted stage\<close>

definition stage_permissions :: "dict \<Rightarrow> string list" where
  "stage_permissions stage = strings (dget stage ''permissions'')"

definition write_paths :: "dict \<Rightarrow> string list" where
  "write_paths stage = strings (dget stage ''write_paths'')"

definition matrix_rows :: "dict \<Rightarrow> json list" where
  "matrix_rows stage = rows_of (dget stage ''matrix'')"

lemma validate_stage_parts:
  "validate_stage v = Inr stage \<Longrightarrow> v = JObj stage \<and> require_exact_keys stage STAGE_KEYS [] = Inr ()
     \<and> validate_stage_identity stage = Inr () \<and> validate_stage_matrix stage = Inr ()
     \<and> (\<exists>w. validate_stage_targets stage = Inr w \<and> validate_stage_permissions stage w = Inr ())
     \<and> validate_stage_artifact stage = Inr () \<and> validate_stage_effect stage = Inr ()"
  unfolding validate_stage_def by (auto simp: bindE_eq_Inr require_object_Inr)

lemma validate_stage_identity_Inr:
  assumes "validate_stage_identity stage = Inr u"
  shows "text_val (dget stage ''id'') = Some (stage_id stage)" "SAFE_ID_RE (stage_id stage)"
    "dget stage ''declaration_index'' = JInt (declaration_index stage)" "0 \<le> declaration_index stage"
    "\<exists>xs. dget stage ''depends_on'' = JList xs \<and> list_all is_str xs" "distinct (depends_on stage)"
    "text_in (dget stage ''kind'') STAGE_KINDS" "is_str (dget stage ''actor_identity'')"
    "text_in (dget stage ''capability_mode'') CAPABILITY_MODES"
  using assms by (auto simp: validate_stage_identity_def result_simps require_simps text_val_Some
      stage_id_def declaration_index_def depends_on_def)

lemma validate_stage_matrix_Inr:
  assumes "validate_stage_matrix stage = Inr u"
  shows "dget stage ''matrix'' = JList (matrix_rows stage)" "matrix_rows stage \<noteq> []"
    "agent_count stage = int (length (matrix_rows stage))" "agent_count stage \<le> 16"
  using assms by (auto simp: validate_stage_matrix_def result_simps require_simps Let_def
      matrix_rows_def rows_of_def agent_count_def MAX_WORKFLOW_AGENTS_def)

lemma validate_stage_targets_Inr:
  assumes "validate_stage_targets stage = Inr w"
  shows "w = write_paths stage" "list_all path_confined w" "distinct w"
proof -
  obtain xs where "dget stage ''write_paths'' = JList xs" "mapE safe_repo_path xs = Inr w" "distinct w"
    using assms by (auto simp: validate_stage_targets_def result_simps rows_of_def)
  then show "w = write_paths stage" "list_all path_confined w" "distinct w"
    using repo_paths by (auto simp: write_paths_def)
qed

lemma validate_stage_permissions_Inr:
  assumes "validate_stage_permissions stage w = Inr u"
  shows "set (stage_permissions stage) \<subseteq> set ALLOWED_PERMISSIONS"
    "set (stage_permissions stage) \<inter> set FORBIDDEN_PERMISSIONS = {}"
    "distinct (stage_permissions stage)"
    "text_in (dget stage ''capability_mode'') [''read-only''] \<Longrightarrow>
       w = [] \<and> ''write_declared_paths'' \<notin> set (stage_permissions stage)"
    "\<not> text_in (dget stage ''capability_mode'') [''read-only''] \<Longrightarrow>
       w \<noteq> [] \<and> ''write_declared_paths'' \<in> set (stage_permissions stage)"
  using assms unfolding validate_stage_permissions_def
  by (auto simp: result_simps require_simps stage_permissions_def list_all_iff list_ex_iff
      split: if_splits)

lemma validate_stage_effect_Inr:
  "validate_stage_effect stage = Inr u \<Longrightarrow> dget stage ''effect_type'' \<noteq> JNull \<Longrightarrow>
     \<exists>e. text_val (dget stage ''effect_type'') = Some e \<and> \<not> contains e ''release'' \<and> \<not> contains e ''publish''
       \<and> ''reconcile_declared_effect'' \<in> set (stage_permissions stage)"
  by (auto simp: validate_stage_effect_def result_simps require_simps stage_permissions_def)

section \<open>The graph of the stages\<close>

definition readable_stage :: "dict \<Rightarrow> bool" where
  \<comment> \<open>the fields the order is computed from have the types \<open>validate_stage\<close> checks\<close>
  "readable_stage stage \<longleftrightarrow> (case dget stage ''depends_on'' of JList xs \<Rightarrow> list_all is_str xs | _ \<Rightarrow> False)
     \<and> is_json_int (dget stage ''declaration_index'')"

definition readable_stages :: "dict list \<Rightarrow> bool" where
  "readable_stages stages \<longleftrightarrow> distinct (map stage_id stages) \<and> list_all readable_stage stages"

definition stale_dependency :: "dict list \<Rightarrow> bool" where
  "stale_dependency stages \<longleftrightarrow> (\<exists>stage \<in> set stages. \<not> set (depends_on stage) \<subseteq> set (map stage_id stages))"

definition stage_dependency :: "dict list \<Rightarrow> (string \<times> string) set" where
  \<comment> \<open>a dependency with the stage that needs it\<close>
  "stage_dependency stages = {(d, stage_id stage) | d stage. stage \<in> set stages \<and> d \<in> set (depends_on stage)}"

definition startable :: "dict \<Rightarrow> string list \<Rightarrow> bool" where
  "startable stage before \<longleftrightarrow> stage_id stage \<notin> set before \<and> set (depends_on stage) \<subseteq> set before"

definition stage_rank :: "dict \<Rightarrow> int \<times> string" where
  "stage_rank stage = (declaration_index stage, stage_id stage)"

definition node_of :: "dict \<Rightarrow> node" where
  "node_of stage = \<lparr>n_id = stage_id stage, n_index = declaration_index stage, n_deps = depends_on stage\<rparr>"

lemma node_of_simps [simp]:
  "n_id (node_of stage) = stage_id stage" "n_index (node_of stage) = declaration_index stage"
  "n_deps (node_of stage) = depends_on stage"
  by (simp_all add: node_of_def)

lemma AList_update_fresh: "k \<notin> set (map fst m) \<Longrightarrow> AList.update k v m = m @ [(k, v)]"
  by (induction m) auto

lemma stage_by_id_map:
  assumes "distinct (map stage_id stages)"
  shows "stage_by_id stages = map (\<lambda>stage. (stage_id stage, stage)) stages"
proof -
  have "distinct (map fst m @ map stage_id stages) \<Longrightarrow>
      foldl (\<lambda>m stage. AList.update (stage_id stage) stage m) m stages
        = m @ map (\<lambda>stage. (stage_id stage, stage)) stages" for m
  proof (induction stages arbitrary: m)
    case (Cons s stages)
    then have "s' \<notin> set (map fst m)" if "s' = stage_id s" for s' using that by auto
    then show ?case using Cons by (simp add: AList_update_fresh)
  qed simp
  from this [of "[]"] assms show ?thesis by (simp add: stage_by_id_def)
qed

lemma readable_stage_fields:
  assumes "readable_stage stage"
  obtains xs where "dget stage ''depends_on'' = JList xs" "list_all is_str xs"
    "depends_on stage = map text_of xs" "dget stage ''declaration_index'' = JInt (declaration_index stage)"
proof -
  obtain xs where xs: "dget stage ''depends_on'' = JList xs" "list_all is_str xs"
    using assms by (auto simp: readable_stage_def split: json.splits)
  moreover have "filter is_str xs = xs" using xs by (simp add: list_all_iff)
  moreover have "dget stage ''declaration_index'' = JInt (declaration_index stage)"
    using assms by (auto simp: readable_stage_def declaration_index_def)
  ultimately show ?thesis using that by (simp add: depends_on_def strings_def)
qed

lemma read_dependencies:
  "list_all is_str xs \<Longrightarrow> mapE (read_dependency known) xs =
     (if set (map text_of xs) \<subseteq> set known then Inr (map text_of xs) else Inl ContractValidationError)"
  by (induction xs) (auto simp: read_dependency_def text_val_def)

lemma read_node_readable:
  assumes "readable_stage stage"
  shows "read_node known (stage_id stage, stage) =
    (if set (depends_on stage) \<subseteq> set known then Inr (node_of stage) else Inl ContractValidationError)"
  using assms by (rule readable_stage_fields) (simp add: read_node_def read_dependencies node_of_def)

lemma mapE_cases:
  "(\<And>x. x \<in> set xs \<Longrightarrow> f x = (if P x then Inr (g x) else Inl e)) \<Longrightarrow>
     mapE f xs = (if list_all P xs then Inr (map g xs) else Inl e)"
  by (induction xs) auto

lemma stage_nodes_readable:
  assumes "readable_stages stages"
  shows "stage_nodes stages =
    (if stale_dependency stages then Inl ContractValidationError else Inr (map node_of stages))"
proof -
  let ?known = "map fst (stage_by_id stages)"
  have m: "stage_by_id stages = map (\<lambda>stage. (stage_id stage, stage)) stages"
    using assms stage_by_id_map by (simp add: readable_stages_def)
  have "mapE (read_node ?known) (stage_by_id stages) =
      (if list_all (\<lambda>(k, stage). set (depends_on stage) \<subseteq> set ?known) (stage_by_id stages)
       then Inr (map (\<lambda>(k, stage). node_of stage) (stage_by_id stages)) else Inl ContractValidationError)"
    by (rule mapE_cases)
      (use assms in \<open>auto simp: m readable_stages_def list_all_iff read_node_readable split: if_splits\<close>)
  then show ?thesis
    by (auto simp: stage_nodes_def m stale_dependency_def list_all_iff comp_def)
qed

lemma graph_ok_nodes:
  "readable_stages stages \<Longrightarrow> \<not> stale_dependency stages \<Longrightarrow> graph_ok (map node_of stages)"
  by (auto simp: graph_ok_def readable_stages_def stale_dependency_def ids_def comp_def image_image)

lemma node_fields:
  assumes "readable_stages stages" "stage \<in> set stages"
  shows "deps_of (map node_of stages) (stage_id stage) = depends_on stage"
    and "index_of (map node_of stages) (stage_id stage) = declaration_index stage"
proof -
  have "distinct (map n_id (map node_of stages))"
    using assms(1) by (simp add: readable_stages_def comp_def)
  then have "lookup (map node_of stages) (stage_id stage) = Some (node_of stage)"
    using assms(2) by (subst lookup_Some) auto
  then show "deps_of (map node_of stages) (stage_id stage) = depends_on stage"
    "index_of (map node_of stages) (stage_id stage) = declaration_index stage"
    by (simp_all add: deps_of_def index_of_def)
qed

lemma ids_nodes: "ids (map node_of stages) = set (map stage_id stages)"
  by (force simp: ids_def)

lemma dependency_nodes:
  "readable_stages stages \<Longrightarrow> dependency (map node_of stages) = stage_dependency stages"
  by (auto simp: dependency_def stage_dependency_def ids_nodes node_fields)

lemma ready_nodes:
  "readable_stages stages \<Longrightarrow> ready (map node_of stages) (set pre) =
     stage_rank ` {stage \<in> set stages. startable stage pre}"
  by (force simp: ready_def ids_nodes startable_def stage_rank_def node_fields)

text \<open>The order of readable stages: all of them or, when a dependency is stale or the graph has a
  cycle, the error; and what is chosen is always the first declared of the stages that could start.\<close>

lemma topological_order_cases:
  assumes "readable_stages stages"
  shows "deterministic_topological_order stages =
    (if stale_dependency stages \<or> \<not> acyclic (stage_dependency stages) then Inl ContractValidationError
     else Inr (topo_order (map node_of stages)))"
  using topo_order_complete(1) [OF graph_ok_nodes [OF assms]] stage_nodes_readable [OF assms]
  by (auto simp: deterministic_topological_order_def dependency_nodes [OF assms] Let_def)

definition first_startable :: "dict list \<Rightarrow> string list \<Rightarrow> bool" where
  "first_startable stages order \<longleftrightarrow> (\<forall>pre sid post. order = pre @ sid # post \<longrightarrow>
     (\<exists>stage \<in> set stages. stage_id stage = sid \<and> startable stage pre
        \<and> (\<forall>other \<in> set stages. startable other pre \<longrightarrow> stage_rank stage \<le> stage_rank other)))"

lemma topological_order_Inr:
  assumes "readable_stages stages" "deterministic_topological_order stages = Inr order"
  shows "distinct order" "set order = set (map stage_id stages)" "first_startable stages order"
proof -
  have ok: "graph_ok (map node_of stages)" and acyc: "acyclic (stage_dependency stages)"
    and order: "order = topo_order (map node_of stages)"
    using assms graph_ok_nodes by (auto simp: topological_order_cases split: if_splits)
  note inv = topo_order_inv [OF ok, folded order]
  show "distinct order" using chosen_first_facts inv by blast
  show "set order = set (map stage_id stages)"
    using topo_order_complete [OF ok] acyc unfolding order dependency_nodes [OF assms(1)] ids_nodes by blast
  have "\<exists>stage \<in> set stages. stage_id stage = sid \<and> startable stage pre
        \<and> (\<forall>other \<in> set stages. startable other pre \<longrightarrow> stage_rank stage \<le> stage_rank other)"
    if split: "order = pre @ sid # post" for pre sid post
  proof -
    let ?e = "(index_of (map node_of stages) sid, sid)"
    have e: "?e \<in> stage_rank ` {stage \<in> set stages. startable stage pre}"
      and least: "\<forall>r \<in> stage_rank ` {stage \<in> set stages. startable stage pre}. ?e \<le> r"
      using inv split unfolding chosen_first_def ready_nodes [OF assms(1)] by blast+
    obtain stage where stage: "stage \<in> set stages" "startable stage pre" "?e = stage_rank stage"
      using e by blast
    moreover have "stage_id stage = sid" using stage(3) by (simp add: stage_rank_def)
    ultimately show ?thesis using least by auto
  qed
  then show "first_startable stages order" by (auto simp: first_startable_def)
qed

section \<open>An accepted definition\<close>

definition dict_of :: "json \<Rightarrow> dict" where
  "dict_of v = (case v of JObj d \<Rightarrow> d | _ \<Rightarrow> [])"

definition stages_of :: "dict \<Rightarrow> dict list" where
  \<comment> \<open>\<open>definition["stages"]\<close>\<close>
  "stages_of d = map dict_of (rows_of (dget d ''stages''))"

definition max_parallelism :: "dict \<Rightarrow> int" where
  "max_parallelism d = (case dget d ''max_parallelism'' of JInt i \<Rightarrow> i | _ \<Rightarrow> 0)"

lemma dict_of_JObj [simp]: "dict_of (JObj d) = d"
  by (simp add: dict_of_def)

lemma validated_parts:
  "validate_workflow_definition v = Inr d \<Longrightarrow> v = JObj d \<and> require_exact_keys d DEFINITION_KEYS [] = Inr ()
     \<and> validate_header d = Inr () \<and> (\<exists>stages. validate_stages d = Inr stages \<and> validate_actors stages = Inr ()
       \<and> validate_ship_rule d stages = Inr ()) \<and> validate_migration d = Inr () \<and> validate_projection d = Inr ()"
  unfolding validate_workflow_definition_def by (auto simp: bindE_eq_Inr require_object_Inr)

lemma validate_stages_Inr:
  assumes "validate_stages d = Inr stages"
  shows "stages = stages_of d" "dget d ''stages'' = JList (map JObj stages)"
    "stages \<noteq> []" "length stages \<le> 128" "\<forall>stage \<in> set stages. validate_stage (JObj stage) = Inr stage"
    "validate_stage_graph stages = Inr ()" "1 \<le> max_parallelism d" "max_parallelism d \<le> 8"
    "sum_list (map agent_count stages) \<le> 16"
    "\<exists>order. deterministic_topological_order stages = Inr order"
proof -
  obtain rows where rows: "dget d ''stages'' = JList rows" "rows \<noteq> []" "length rows \<le> 128"
    and each: "mapE validate_stage rows = Inr stages"
    and rest: "validate_stage_graph stages = Inr ()" "1 \<le> max_parallelism d" "max_parallelism d \<le> 8"
      "sum_list (map agent_count stages) \<le> 16" "\<exists>order. deterministic_topological_order stages = Inr order"
    using assms by (auto simp: validate_stages_def Let_def result_simps require_simps rows_of_def
        MAX_STAGES_def MAX_PARALLELISM_def MAX_WORKFLOW_AGENTS_def max_parallelism_def)
  have obj: "x = JObj y" if "validate_stage x = Inr y" for x y
    using validate_stage_parts [OF that] by simp
  have stages: "stages = map dict_of rows" by (rule mapE_same [OF _ each]) (auto dest: obj)
  have "JObj (dict_of x) = x" if "x \<in> set rows" for x
    using mapE_all [OF each that] by (auto dest: obj)
  then have rows_eq: "rows = map JObj stages" unfolding stages by (simp add: comp_def map_idI)
  show "stages = stages_of d" by (simp add: stages_of_def rows stages rows_of_def)
  show "dget d ''stages'' = JList (map JObj stages)" using rows rows_eq by simp
  show "stages \<noteq> []" "length stages \<le> 128" using rows rows_eq by auto
  show "\<forall>stage \<in> set stages. validate_stage (JObj stage) = Inr stage"
    using mapE_set [OF each] obj by metis
  show "validate_stage_graph stages = Inr ()" "1 \<le> max_parallelism d" "max_parallelism d \<le> 8"
    "sum_list (map agent_count stages) \<le> 16" "\<exists>order. deterministic_topological_order stages = Inr order"
    by (fact rest)+
qed

lemma validated_stages:
  assumes "validate_workflow_definition v = Inr d"
  shows "validate_stages d = Inr (stages_of d)" "validate_actors (stages_of d) = Inr ()"
    "validate_ship_rule d (stages_of d) = Inr ()"
  using validated_parts [OF assms] validate_stages_Inr(1) by auto

lemmas validated_facts = validate_stages_Inr(2-10) [OF validated_stages(1)]

lemma validated_stage:
  assumes "validate_workflow_definition v = Inr d" "stage \<in> set (stages_of d)"
  shows "validate_stage_identity stage = Inr ()" "validate_stage_matrix stage = Inr ()"
    "validate_stage_targets stage = Inr (write_paths stage)"
    "validate_stage_permissions stage (write_paths stage) = Inr ()"
    "validate_stage_artifact stage = Inr ()" "validate_stage_effect stage = Inr ()"
  using validate_stage_parts [of "JObj stage" stage] validated_facts(4) [OF assms(1)] assms(2)
    validate_stage_targets_Inr(1) by auto

lemma validated_graph:
  assumes "validate_workflow_definition v = Inr d"
  shows "readable_stages (stages_of d)" "\<not> stale_dependency (stages_of d)"
    "sort (map declaration_index (stages_of d)) = map int [0..<length (stages_of d)]"
proof -
  have graph: "distinct (map stage_id (stages_of d))"
    "sort (map declaration_index (stages_of d)) = map int [0..<length (stages_of d)]"
    "\<not> stale_dependency (stages_of d)"
    using validated_facts(5) [OF assms]
    by (auto simp: validate_stage_graph_def result_simps stale_dependency_def list_all_iff)
  have "readable_stage stage" if "stage \<in> set (stages_of d)" for stage
    using validate_stage_identity_Inr [OF validated_stage(1) [OF assms that]]
    by (auto simp: readable_stage_def)
  with graph(1) show "readable_stages (stages_of d)" by (simp add: readable_stages_def list_all_iff)
  show "\<not> stale_dependency (stages_of d)"
    "sort (map declaration_index (stages_of d)) = map int [0..<length (stages_of d)]"
    by (fact graph)+
qed

lemma validated_order:
  assumes "validate_workflow_definition v = Inr d"
  obtains order where "deterministic_topological_order (stages_of d) = Inr order" "distinct order"
    "set order = set (map stage_id (stages_of d))" "first_startable (stages_of d) order"
  using validated_facts(9) [OF assms] topological_order_Inr [OF validated_graph(1) [OF assms]] that by blast

end
