(* ===== verification/WorkflowSchema.thy ===== *)
theory WorkflowSchema
  imports WorkflowFacts
begin

text \<open>
  The bounded JSON Schema of the workflows (\<open>workflows/schema.py\<close>): the shape check of a schema,
  the validation of a value, the compiler of a definition given as a mapping, and the validators
  of inputs and outputs.  A definition given as a path, a text or bytes is loaded outside the model.
\<close>

section \<open>Schemas\<close>

definition JSON_SCHEMA_TYPES :: "string list" where
  "JSON_SCHEMA_TYPES = [''object'', ''array'', ''string'', ''integer'', ''number'', ''boolean'', ''null'']"

lemma size_map_of [termination_simp]:
  fixes d :: dict
  shows "map_of d k = Some v \<Longrightarrow> size v < Suc (size_list (size_prod (\<lambda>x. 0) size) d)"
  by (drule map_of_SomeD) (rule size_json_dict)

definition subschemas :: "dict \<Rightarrow> wf_exc + json list" where
  \<comment> \<open>the schemas of the properties and of the items\<close>
  "subschemas schema =
     (let items = (case map_of schema ''items'' of None \<Rightarrow> [] | Some s \<Rightarrow> [s])
      in case map_of schema ''properties'' of
        None \<Rightarrow> Inr items
      | Some (JObj ps) \<Rightarrow> Inr (map snd ps @ items)
      | Some _ \<Rightarrow> Inl WorkflowSchemaError)"

lemma size_subschemas:
  assumes "subschemas schema = Inr subs" "s \<in> set subs"
  shows "size s < size (JObj schema)"
proof -
  consider "map_of schema ''items'' = Some s"
    | ps k where "map_of schema ''properties'' = Some (JObj ps)" "(k, s) \<in> set ps"
    using assms by (auto simp: subschemas_def Let_def split: option.splits json.splits)
  then show ?thesis
  proof cases
    case 2
    then have "size s < size (JObj ps)" using size_json_dict [of k s ps] by simp
    with size_map_of [OF 2(1)] show ?thesis by simp
  qed (use size_map_of in simp)
qed

function (sequential) validate_schema_shape :: "json \<Rightarrow> wf_exc + unit" where
  "validate_schema_shape (JObj schema) =
     bindE (check (dget schema ''type'' = JNull \<or> text_in (dget schema ''type'') JSON_SCHEMA_TYPES)
       WorkflowSchemaError) (\<lambda>_.
     bindE (case map_of schema ''required'' of
         None \<Rightarrow> Inr ()
       | Some (JList xs) \<Rightarrow> check (list_all is_str xs) WorkflowSchemaError
       | Some _ \<Rightarrow> Inl WorkflowSchemaError) (\<lambda>_.
     bindE (subschemas schema) (\<lambda>subs.
     bindE (mapE validate_schema_shape subs) (\<lambda>_. Inr ()))))"
| "validate_schema_shape v = Inl WorkflowSchemaError"
  by pat_completeness auto
termination
  by (relation "measure size") (simp_all only: wf_measure in_measure, rule size_subschemas)

definition has_type :: "json \<Rightarrow> json \<Rightarrow> bool" where
  \<comment> \<open>the test by \<open>type_map\<close>; any other \<open>expected\<close> is not tested\<close>
  "has_type expected v \<longleftrightarrow>
     (text_in expected [''object''] \<longrightarrow> is_obj v) \<and> (text_in expected [''array''] \<longrightarrow> is_list v)
     \<and> (text_in expected [''string''] \<longrightarrow> is_str v) \<and> (text_in expected [''integer''] \<longrightarrow> is_json_int v)
     \<and> (text_in expected [''number''] \<longrightarrow> is_json_int v \<or> (case v of JFloat f \<Rightarrow> True | _ \<Rightarrow> False))
     \<and> (text_in expected [''boolean''] \<longrightarrow> is_bool v) \<and> (text_in expected [''null''] \<longrightarrow> v = JNull)"

fun validate_json_schema :: "json \<Rightarrow> json \<Rightarrow> wf_exc + unit" where
  "validate_json_schema value schema =
     bindE (validate_schema_shape schema) (\<lambda>_. let s = dict_of schema in
     bindE (check (has_type (dget s ''type'') value) WorkflowSchemaError) (\<lambda>_.
     case value of
       JObj d \<Rightarrow>
         bindE (check (set (strings (dget s ''required'')) \<subseteq> set (map fst d)) WorkflowSchemaError) (\<lambda>_.
         bindE (mapE (\<lambda>(k, item). case map_of (dict_of (dget s ''properties'')) k of
             Some sub \<Rightarrow> validate_json_schema item sub
           | None \<Rightarrow> check (dget s ''additionalProperties'' \<noteq> JBool False) WorkflowSchemaError) d)
         (\<lambda>_. Inr ()))
     | JList xs \<Rightarrow>
         if is_obj (dget s ''items'')
         then bindE (mapE (\<lambda>item. validate_json_schema item (dget s ''items'')) xs) (\<lambda>_. Inr ())
         else Inr ()
     | _ \<Rightarrow> Inr ()))"

declare validate_json_schema.simps [simp del]

section \<open>The compiler and the validators\<close>

definition as_schema_error :: "wf_exc + 'a \<Rightarrow> wf_exc + 'a" where
  \<comment> \<open>\<open>except ContractValidationError as exc: raise WorkflowSchemaError(...)\<close>\<close>
  "as_schema_error m = (case m of Inl ContractValidationError \<Rightarrow> Inl WorkflowSchemaError | _ \<Rightarrow> m)"

definition check_stage_schemas :: "dict \<Rightarrow> wf_exc + unit" where
  "check_stage_schemas stage =
     bindE (validate_schema_shape (dget stage ''output_schema'')) (\<lambda>_.
     validate_schema_shape (dget (dict_of (dget stage ''artifact_contract'')) ''schema''))"

definition compile_workflow :: "dict \<Rightarrow> wf_exc + dict" where
  \<comment> \<open>the source is a mapping; its canonical copy is an object, so the type test after
      \<open>_load_source\<close> cannot fail\<close>
  "compile_workflow source =
     bindE (reload (JObj source)) (\<lambda>parsed.
     bindE (as_schema_error (validate_workflow_definition parsed)) (\<lambda>validated.
     bindE (reload (JObj validated)) (\<lambda>v. let compiled = dict_of v in
     bindE (validate_schema_shape (dget compiled ''input_schema'')) (\<lambda>_.
     bindE (mapE check_stage_schemas (stages_of compiled)) (\<lambda>_. Inr compiled)))))"

definition validate_workflow_input :: "dict \<Rightarrow> json \<Rightarrow> wf_exc + json" where
  "validate_workflow_input definition workflow_input =
     bindE (compile_workflow definition) (\<lambda>compiled.
     bindE (check (is_obj workflow_input) WorkflowSchemaError) (\<lambda>_.
     bindE (reload workflow_input) (\<lambda>canonical.
     bindE (validate_json_schema canonical (dget compiled ''input_schema'')) (\<lambda>_. Inr canonical))))"

definition validate_json_value :: "json \<Rightarrow> json \<Rightarrow> wf_exc + json" where
  "validate_json_value value schema =
     bindE (reload value) (\<lambda>canonical.
     bindE (validate_json_schema canonical schema) (\<lambda>_. Inr canonical))"

definition validate_stage_output :: "dict \<Rightarrow> json \<Rightarrow> wf_exc + json" where
  "validate_stage_output stage output =
     bindE (check (is_obj (dget stage ''output_schema'')) WorkflowSchemaError) (\<lambda>_.
     validate_json_value output (dget stage ''output_schema''))"

definition input_digest :: "json \<Rightarrow> wf_exc + string" where
  "input_digest workflow_input = digest_of workflow_input"

section \<open>Facts\<close>

lemma validate_schema_shape_obj: "validate_schema_shape s = Inr u \<Longrightarrow> \<exists>d. s = JObj d"
  by (cases s) auto

lemma raises_mapE [raises_intro]:
  "(\<And>x. x \<in> set xs \<Longrightarrow> raises_only es (f x)) \<Longrightarrow> raises_only es (mapE f xs)"
proof (induction xs)
  case (Cons x xs)
  then have "raises_only es (f x)" "raises_only es (mapE f xs)" by simp_all
  then show ?case by (auto simp: raises_only_def result_simps)
qed (simp add: raises_intro)

lemma raises_only_bindE': "raises_only es m \<Longrightarrow> (\<And>x. m = Inr x \<Longrightarrow> raises_only es (f x)) \<Longrightarrow> raises_only es (bindE m f)"
  by (cases m) (auto simp: raises_only_def)

lemma schema_shape_raises [raises_intro]: "raises_only {WorkflowSchemaError} (validate_schema_shape s)"
proof (induction s rule: measure_induct_rule [of size])
  case (less s)
  show ?case
  proof (cases s)
    case (JObj schema)
    have "raises_only {WorkflowSchemaError} (mapE validate_schema_shape subs)" if "subschemas schema = Inr subs" for subs
      using less size_subschemas [OF that] JObj by (intro raises_mapE) auto
    moreover have "raises_only {WorkflowSchemaError} (subschemas schema)"
      by (simp add: subschemas_def Let_def raises_intro split: option.split json.split)
    moreover have "raises_only {WorkflowSchemaError} (case map_of schema ''required'' of None \<Rightarrow> Inr ()
         | Some (JList xs) \<Rightarrow> check (list_all is_str xs) WorkflowSchemaError | Some _ \<Rightarrow> Inl WorkflowSchemaError)"
      by (simp add: raises_intro split: option.split json.split)
    ultimately show ?thesis
      unfolding JObj validate_schema_shape.simps
      by (intro raises_only_bindE') (auto simp: raises_intro)
  qed (simp_all add: raises_intro)
qed

text \<open>The recursion reaches every part of the value for which the schema has a part, and nothing
  else: \<open>visits\<close> says which parts are compared, \<open>locally_valid\<close> what each comparison asks.\<close>

inductive visits :: "json \<Rightarrow> json \<Rightarrow> json \<Rightarrow> json \<Rightarrow> bool" where
  here: "visits v s v s"
| field: "(k, item) \<in> set d \<Longrightarrow> map_of (dict_of (dget (dict_of s) ''properties'')) k = Some sub \<Longrightarrow>
    visits item sub v' s' \<Longrightarrow> visits (JObj d) s v' s'"
| item: "x \<in> set xs \<Longrightarrow> dget (dict_of s) ''items'' = JObj sub \<Longrightarrow> visits x (JObj sub) v' s' \<Longrightarrow>
    visits (JList xs) s v' s'"

definition locally_valid :: "json \<Rightarrow> json \<Rightarrow> bool" where
  "locally_valid v s \<longleftrightarrow> validate_schema_shape s = Inr () \<and> has_type (dget (dict_of s) ''type'') v
     \<and> (case v of JObj d \<Rightarrow>
          set (strings (dget (dict_of s) ''required'')) \<subseteq> set (map fst d)
          \<and> (dget (dict_of s) ''additionalProperties'' = JBool False \<longrightarrow>
               set (map fst d) \<subseteq> set (map fst (dict_of (dget (dict_of s) ''properties''))))
        | _ \<Rightarrow> True)"

inductive_cases visits_objE: "visits (JObj d) s v' s'"
inductive_cases visits_listE: "visits (JList xs) s v' s'"

lemma mapE_Inr_iff: "(\<exists>ys. mapE f xs = Inr ys) \<longleftrightarrow> (\<forall>x \<in> set xs. \<exists>y. f x = Inr y)"
  by (induction xs) (auto simp: result_simps)

lemma visits_leaf: "visits v s v' s' \<Longrightarrow> \<not> is_obj v \<Longrightarrow> \<not> is_list v \<Longrightarrow> v' = v \<and> s' = s"
  by (induction rule: visits.induct) auto

definition valid_all :: "json \<Rightarrow> json \<Rightarrow> bool" where
  "valid_all v s \<longleftrightarrow> (\<forall>v' s'. visits v s v' s' \<longrightarrow> locally_valid v' s')"

lemma valid_all_obj: "valid_all (JObj d) s \<longleftrightarrow> locally_valid (JObj d) s
    \<and> (\<forall>(k, item) \<in> set d. \<forall>sub. map_of (dict_of (dget (dict_of s) ''properties'')) k = Some sub \<longrightarrow> valid_all item sub)"
  unfolding valid_all_def by (auto elim!: visits_objE intro: visits.intros)

lemma valid_all_list: "valid_all (JList xs) s \<longleftrightarrow> locally_valid (JList xs) s
    \<and> (\<forall>sub. dget (dict_of s) ''items'' = JObj sub \<longrightarrow> (\<forall>x \<in> set xs. valid_all x (JObj sub)))"
  unfolding valid_all_def by (auto elim!: visits_listE intro: visits.intros)

lemma valid_all_leaf: "\<not> is_obj v \<Longrightarrow> \<not> is_list v \<Longrightarrow> valid_all v s \<longleftrightarrow> locally_valid v s"
  unfolding valid_all_def using visits_leaf [of v s] visits.here [of v s] by metis

lemma field_step:
  "(case map_of ps k of None \<Rightarrow> check b WorkflowSchemaError | Some sub \<Rightarrow> validate_json_schema item sub) = Inr ()
     \<longleftrightarrow> (k \<notin> fst ` set ps \<longrightarrow> b) \<and> (\<forall>sub. map_of ps k = Some sub \<longrightarrow> validate_json_schema item sub = Inr ())"
proof (cases "map_of ps k")
  case None
  then show ?thesis by (simp add: map_of_eq_None_iff [symmetric] check_eq_Inr)
next
  case (Some sub)
  then have "k \<in> fst ` set ps" by (force dest: map_of_SomeD)
  with Some show ?thesis by simp
qed

lemma validate_json_schema_step: "validate_json_schema v s = Inr () \<longleftrightarrow> locally_valid v s \<and> (case v of
    JObj d \<Rightarrow> \<forall>(k, item) \<in> set d. \<forall>sub. map_of (dict_of (dget (dict_of s) ''properties'')) k = Some sub \<longrightarrow>
      validate_json_schema item sub = Inr ()
  | JList xs \<Rightarrow> \<forall>sub. dget (dict_of s) ''items'' = JObj sub \<longrightarrow> (\<forall>x \<in> set xs. validate_json_schema x (JObj sub) = Inr ())
  | _ \<Rightarrow> True)"
proof (cases v)
  case (JObj d)
  have "(set (map fst d) \<subseteq> P) \<longleftrightarrow> (\<forall>x \<in> set d. fst x \<in> P)" for P by auto
  then show ?thesis
    by (simp add: JObj validate_json_schema.simps [of "JObj d"] Let_def result_simps mapE_Inr_iff
        locally_valid_def case_prod_unfold field_step) blast
next
  case (JList xs)
  show ?thesis
    by (auto simp: JList validate_json_schema.simps [of "JList xs"] Let_def result_simps mapE_Inr_iff
        locally_valid_def)
qed (subst validate_json_schema.simps, simp add: Let_def result_simps locally_valid_def)+

lemma validate_json_schema_iff: "validate_json_schema v s = Inr () \<longleftrightarrow> valid_all v s"
proof (induction v arbitrary: s rule: measure_induct_rule [of size])
  case (less v)
  show ?case
  proof (cases v)
    case (JObj d)
    have "size item < size v" if "(k, item) \<in> set d" for k item
      using size_json_dict [OF that] JObj by simp
    then show ?thesis
      using less by (subst validate_json_schema_step) (auto simp: JObj valid_all_obj)
  next
    case (JList xs)
    have "size x < size v" if "x \<in> set xs" for x
      using size_list_estimation' [OF that, of "size x" size] JList by simp
    then show ?thesis
      using less by (subst validate_json_schema_step) (auto simp: JList valid_all_list)
  qed (subst validate_json_schema_step, simp add: valid_all_leaf)+
qed

lemma json_schema_raises: "raises_only {WorkflowSchemaError} (validate_json_schema v s)"
proof (induction v arbitrary: s rule: measure_induct_rule [of size])
  case (less v)
  have fields: "raises_only {WorkflowSchemaError} (mapE (\<lambda>(k, item).
      case map_of ps k of Some sub \<Rightarrow> validate_json_schema item sub | None \<Rightarrow> check b WorkflowSchemaError) d)"
    if "v = JObj d" for ps b d
  proof (rule raises_mapE, clarify)
    fix k item assume "(k, item) \<in> set d"
    then have "size item < size v" using size_json_dict [of k item d] that by simp
    then show "raises_only {WorkflowSchemaError} (case map_of ps k of
        Some sub \<Rightarrow> validate_json_schema item sub | None \<Rightarrow> check b WorkflowSchemaError)"
      using less by (auto simp: raises_intro split: option.split)
  qed
  have items: "raises_only {WorkflowSchemaError} (mapE (\<lambda>item. validate_json_schema item sub) xs)"
    if "v = JList xs" for sub xs
  proof (rule raises_mapE)
    fix x assume "x \<in> set xs"
    then have "size x < size v" using size_list_estimation' [of x xs "size x" size] that by simp
    then show "raises_only {WorkflowSchemaError} (validate_json_schema x sub)" by (rule less)
  qed
  show ?case
    using fields items
    by (subst validate_json_schema.simps)
      (auto simp: Let_def raises_intro split: json.split intro!: raises_only_bindE)
qed

lemma distinct_keys_copy [simp]: "distinct_keys (canonical_copy v) = distinct_keys v"
proof (induction v rule: canonical_copy.induct)
  case (1 xs)
  then show ?case by (auto simp: list_all_iff)
next
  case (2 d)
  have "distinct_keys (canonical_copy (snd x)) = distinct_keys (snd x)" if "x \<in> set d" for x
    using 2 [of x "fst x" "snd x"] that by simp
  moreover have "distinct (map fst (sort_key fst d)) = distinct (map fst d)"
    by (metis mset_eq_imp_distinct_iff mset_map mset_sort)
  ultimately show ?case by (auto simp: list_all_iff comp_def case_prod_unfold)
qed auto

lemma as_schema_error_Inr: "as_schema_error m = Inr x \<longleftrightarrow> m = Inr x"
  by (cases m) (auto simp: as_schema_error_def split: wf_exc.split)

lemma compile_workflow_Inr:
  assumes "distinct_keys (JObj source)"
  shows "compile_workflow source = Inr c \<longleftrightarrow>
    canonical_ok (JObj source) \<and> JObj c = canonical_copy (JObj source)
    \<and> validate_workflow_definition (JObj c) = Inr c
    \<and> validate_schema_shape (dget c ''input_schema'') = Inr ()
    \<and> (\<forall>stage \<in> set (stages_of c). check_stage_schemas stage = Inr ())"
proof -
  define cc where "cc = dict_of (canonical_copy (JObj source))"
  have cc: "canonical_copy (JObj source) = JObj cc" by (simp add: cc_def)
  have dist: "distinct_keys (JObj cc)" using assms distinct_keys_copy [of "JObj source"] by (simp only: cc)
  have ok: "canonical_ok (JObj cc) = canonical_ok (JObj source)"
    using canonical_ok_copy [of "JObj source"] by (simp only: cc)
  have copy: "canonical_copy (JObj cc) = JObj cc"
    using canonical_copy_idem [of "JObj source"] by (simp only: cc)
  have load: "reload (JObj source) = Inr w \<longleftrightarrow> canonical_ok (JObj source) \<and> w = JObj cc" for w
    unfolding reload_Inr [OF assms] cc by blast
  have again: "reload (JObj cc) = Inr w \<longleftrightarrow> canonical_ok (JObj source) \<and> w = JObj cc" for w
    unfolding reload_Inr [OF dist] copy ok by blast
  have stages: "(\<exists>ys. mapE check_stage_schemas (stages_of c) = Inr ys) \<longleftrightarrow>
      (\<forall>stage \<in> set (stages_of c). check_stage_schemas stage = Inr ())"
    by (simp add: mapE_Inr_iff)
  show ?thesis
  proof
    assume "compile_workflow source = Inr c"
    then obtain d v where "canonical_ok (JObj source)" "validate_workflow_definition (JObj cc) = Inr d"
      and v: "reload (JObj d) = Inr v" "c = dict_of v"
      and "validate_schema_shape (dget c ''input_schema'') = Inr ()"
      and "\<exists>ys. mapE check_stage_schemas (stages_of c) = Inr ys"
      unfolding compile_workflow_def bindE_eq_Inr as_schema_error_Inr load Let_def by (elim exE conjE) simp
    moreover have "d = cc" using validated_parts [OF \<open>validate_workflow_definition (JObj cc) = Inr d\<close>] by simp
    moreover from v have "c = cc" unfolding \<open>d = cc\<close> again by simp
    ultimately show "canonical_ok (JObj source) \<and> JObj c = canonical_copy (JObj source)
        \<and> validate_workflow_definition (JObj c) = Inr c
        \<and> validate_schema_shape (dget c ''input_schema'') = Inr ()
        \<and> (\<forall>stage \<in> set (stages_of c). check_stage_schemas stage = Inr ())"
      unfolding cc stages by blast
  next
    assume asm: "canonical_ok (JObj source) \<and> JObj c = canonical_copy (JObj source)
        \<and> validate_workflow_definition (JObj c) = Inr c
        \<and> validate_schema_shape (dget c ''input_schema'') = Inr ()
        \<and> (\<forall>stage \<in> set (stages_of c). check_stage_schemas stage = Inr ())"
    then have "c = cc" unfolding cc by simp
    with asm obtain ys where "mapE check_stage_schemas (stages_of cc) = Inr ys" unfolding stages [symmetric] by blast
    moreover have "reload (JObj source) = Inr (JObj cc)" "reload (JObj cc) = Inr (JObj cc)"
      using asm load again by blast+
    moreover have "validate_workflow_definition (JObj cc) = Inr cc"
      "validate_schema_shape (dget cc ''input_schema'') = Inr ()"
      using asm unfolding \<open>c = cc\<close> by blast+
    ultimately show "compile_workflow source = Inr c"
      unfolding compile_workflow_def \<open>c = cc\<close> by (simp add: as_schema_error_def)
  qed
qed

end
