(* ===== verification/WorkflowPlan.thy ===== *)
theory WorkflowPlan
  imports WorkflowSchema
begin

text \<open>
  Admission (\<open>workflows/permissions.py\<close>) and planning (\<open>workflows/planner.py\<close>): the tasks of a
  definition, one per stage and matrix row in the order of the stages, and the waves that may run
  together.  A task and a plan are the objects the code builds; \<open>task_id\<close>, \<open>tasks_of\<close> and
  \<open>waves_of\<close> read them.  A dictionary filled by a loop is a list with the newest entry first.
\<close>

section \<open>Admission\<close>

record admission =
  a_stage_id :: string
  a_allowed :: bool
  a_declared :: "string list"
  a_effective :: "string list"
  a_missing :: "string list"
  a_mcp_denied :: "string list"
  a_paths_denied :: "string list"
  a_code :: "string option"

definition denied :: "json \<Rightarrow> string list option \<Rightarrow> string list" where
  \<comment> \<open>\<open>[item for item in values if item not in set(allowed)]\<close>\<close>
  "denied vs allowed = (case allowed of None \<Rightarrow> [] | Some xs \<Rightarrow> filter (\<lambda>v. v \<notin> set xs) (strings vs))"

definition admit_stage :: "dict \<Rightarrow> string list \<Rightarrow> string list \<Rightarrow> string list \<Rightarrow> string list option \<Rightarrow>
    string list option \<Rightarrow> wf_exc + admission" where
  "admit_stage stage repository_policy host_capabilities launch_receipt allowed_mcp allowed_write_paths =
     (let declared = strings (dget stage ''permissions'') in
      bindE (effective_permissions declared repository_policy host_capabilities launch_receipt) (\<lambda>effective.
      let missing = filter (\<lambda>p. p \<notin> set effective) declared;
          mcp_denied = denied (dget stage ''mcp_allowlist'') allowed_mcp;
          paths_denied = denied (dget stage ''write_paths'') allowed_write_paths;
          allowed = (missing = [] \<and> mcp_denied = [] \<and> paths_denied = [])
      in Inr \<lparr>a_stage_id = stage_id stage, a_allowed = allowed, a_declared = declared,
        a_effective = effective, a_missing = missing, a_mcp_denied = mcp_denied,
        a_paths_denied = paths_denied,
        a_code = (if allowed then None else Some ''E_WORKFLOW_PERMISSION_DENIED'')\<rparr>))"

definition admit_definition :: "dict \<Rightarrow> string list \<Rightarrow> string list \<Rightarrow> string list \<Rightarrow> string list option \<Rightarrow>
    string list option \<Rightarrow> wf_exc + bool \<times> admission list" where
  "admit_definition d repository_policy host_capabilities launch_receipt allowed_mcp allowed_write_paths =
     bindE (mapE (\<lambda>stage. admit_stage stage repository_policy host_capabilities launch_receipt
         allowed_mcp allowed_write_paths) (stages_of d)) (\<lambda>stages.
     Inr (list_all a_allowed stages, stages))"

section \<open>Tasks\<close>

definition PLAN_CONTRACT :: string where
  "PLAN_CONTRACT = ''repository-workflow-plan/v1''"

definition task_id :: "dict \<Rightarrow> string" where
  "task_id task = text_of (dget task ''task_id'')"

definition task_stage :: "dict \<Rightarrow> string" where
  "task_stage task = text_of (dget task ''stage_id'')"

definition planned_task :: "dict \<Rightarrow> string \<Rightarrow> string \<Rightarrow> nat \<Rightarrow> json \<Rightarrow> string list \<Rightarrow> dict" where
  "planned_task stage sid tid i row deps =
     [(''task_id'', JStr tid), (''stage_id'', JStr sid), (''matrix_index'', JInt (int i)), (''matrix'', row),
      (''dependencies'', JList (map JStr deps)), (''kind'', dget stage ''kind''), (''role'', dget stage ''role''),
      (''actor_identity'', dget stage ''actor_identity''), (''capability_mode'', dget stage ''capability_mode''),
      (''permissions'', dget stage ''permissions''), (''mcp_allowlist'', dget stage ''mcp_allowlist''),
      (''write_paths'', dget stage ''write_paths''), (''timeout_seconds'', dget stage ''timeout_seconds''),
      (''retry_budget'', dget stage ''retry_budget''), (''effect_type'', dget stage ''effect_type'')]"

definition stage_tasks :: "dict \<Rightarrow> string \<Rightarrow> int \<Rightarrow> string \<Rightarrow> dict \<Rightarrow> string \<Rightarrow> string list \<Rightarrow> wf_exc + dict list" where
  \<comment> \<open>the loop over the matrix rows of a stage\<close>
  "stage_tasks compiled repository_id run_generation digest stage sid deps =
     mapE (\<lambda>(i, row).
         bindE (workflow_task_id repository_id (text_of (dget compiled ''name''))
           (text_of (dget compiled ''workflow_version'')) (text_of (dget compiled ''definition_digest''))
           digest sid (int i) run_generation) (\<lambda>tid.
         Inr (planned_task stage sid tid i row deps)))
       (enumerate 0 (matrix_rows stage))"

definition lookup_key :: "(string \<times> 'a) list \<Rightarrow> string \<Rightarrow> wf_exc + 'a" where
  "lookup_key m k = (case map_of m k of None \<Rightarrow> Inl (Raised KeyError) | Some v \<Rightarrow> Inr v)"

fun expand_stages :: "(dict \<Rightarrow> string \<Rightarrow> string list \<Rightarrow> wf_exc + dict list) \<Rightarrow> (string \<times> dict) list \<Rightarrow>
    string list \<Rightarrow> dict list \<Rightarrow> (string \<times> string list) list \<Rightarrow> wf_exc + dict list" where
  \<comment> \<open>the loop over the stages; the last argument is \<open>task_ids_by_stage\<close>\<close>
  "expand_stages build by_stage [] tasks known = Inr tasks"
| "expand_stages build by_stage (sid # order) tasks known =
     bindE (lookup_key by_stage sid) (\<lambda>stage.
     bindE (mapE (lookup_key known) (depends_on stage)) (\<lambda>dependency_ids.
     bindE (build stage sid (concat dependency_ids)) (\<lambda>new.
     expand_stages build by_stage order (tasks @ new) ((sid, map task_id new) # known))))"

section \<open>Waves\<close>

fun stage_levels :: "(string \<times> dict) list \<Rightarrow> string list \<Rightarrow> (string \<times> nat) list \<Rightarrow> wf_exc + (string \<times> nat) list" where
  "stage_levels by_stage [] levels = Inr levels"
| "stage_levels by_stage (sid # order) levels =
     bindE (lookup_key by_stage sid) (\<lambda>stage.
     bindE (mapE (lookup_key levels) (depends_on stage)) (\<lambda>ls.
     stage_levels by_stage order ((sid, if ls = [] then 0 else Max (set ls) + 1) # levels)))"

definition level_count :: "(string \<times> nat) list \<Rightarrow> nat" where
  \<comment> \<open>\<open>max(level_by_stage.values(), default=-1) + 1\<close>\<close>
  "level_count levels = foldr (\<lambda>(s, l) m. max (l + 1) m) levels 0"

definition plan_waves :: "dict list \<Rightarrow> (string \<times> nat) list \<Rightarrow> wf_exc + string list list" where
  "plan_waves tasks levels =
     bindE (mapE (\<lambda>task. bindE (lookup_key levels (task_stage task)) (\<lambda>l. Inr (task_id task, l))) tasks) (\<lambda>leveled.
     Inr (filter (\<lambda>wave. wave \<noteq> [])
       (map (\<lambda>level. map fst (filter (\<lambda>(t, l). l = level) leveled)) [0..<level_count levels])))"

definition plan_body :: "dict \<Rightarrow> string \<Rightarrow> int \<Rightarrow> json \<Rightarrow> string \<Rightarrow> string list \<Rightarrow> dict list \<Rightarrow> string list list \<Rightarrow> dict" where
  "plan_body compiled repository_id run_generation input digest order tasks waves =
     [(''contract'', JStr PLAN_CONTRACT), (''repository_id'', JStr repository_id),
      (''workflow_name'', dget compiled ''name''), (''workflow_version'', dget compiled ''workflow_version''),
      (''definition_digest'', dget compiled ''definition_digest''), (''input'', input),
      (''input_digest'', JStr digest), (''run_generation'', JInt run_generation),
      (''max_parallelism'', dget compiled ''max_parallelism''), (''stage_order'', JList (map JStr order)),
      (''tasks'', JList (map JObj tasks)), (''waves'', JList (map (\<lambda>wave. JList (map JStr wave)) waves))]"

definition build_plan :: "dict \<Rightarrow> json \<Rightarrow> string \<Rightarrow> int \<Rightarrow> wf_exc + dict" where
  "build_plan d workflow_input repository_id run_generation =
     bindE (compile_workflow d) (\<lambda>compiled.
     bindE (validate_workflow_input compiled workflow_input) (\<lambda>input.
     bindE (input_digest input) (\<lambda>digest.
     bindE (deterministic_topological_order (stages_of compiled)) (\<lambda>order.
     let by_stage = stage_by_id (stages_of compiled) in
     bindE (expand_stages (stage_tasks compiled repository_id run_generation digest) by_stage order [] []) (\<lambda>tasks.
     bindE (stage_levels by_stage order []) (\<lambda>levels.
     bindE (plan_waves tasks levels) (\<lambda>waves.
     let body = plan_body compiled repository_id run_generation input digest order tasks waves in
     bindE (digest_of (JObj body)) (\<lambda>plan_digest.
     Inr (body @ [(''plan_digest'', JStr plan_digest),
       (''run_id'', JStr (''workflow-'' @ take 32 plan_digest))])))))))))"

definition tasks_of :: "dict \<Rightarrow> dict list" where
  \<comment> \<open>\<open>plan["tasks"]\<close>\<close>
  "tasks_of plan = map dict_of (rows_of (dget plan ''tasks''))"

definition waves_of :: "dict \<Rightarrow> string list list" where
  \<comment> \<open>\<open>plan["waves"]\<close>\<close>
  "waves_of plan = map strings (rows_of (dget plan ''waves''))"

definition task_dependencies :: "dict \<Rightarrow> string list" where
  "task_dependencies task = strings (dget task ''dependencies'')"

end
