(* ===== verification/WorkflowReplay.thy ===== *)
theory WorkflowReplay
  imports WorkflowPlan
begin

text \<open>
  Effect receipts and the assessment of a journal (\<open>workflows/replay.py\<close>): the receipt of an
  applied effect, its validation against the task and the plan it is bound to, and the verdict
  over the result rows of a run, which never adopts a row.  Fields of the receipt are compared with
  Python's equality (\<open>py_eq\<close>), a string with its characters.
\<close>

section \<open>Receipts\<close>

definition RECEIPT_KEYS :: "string list" where
  "RECEIPT_KEYS = [''store_kind'', ''schema_version'', ''task_id'', ''plan_digest'', ''definition_digest'',
     ''run_generation'', ''effect_type'', ''effect_id'', ''status'', ''verified'', ''receipt_hash'']"

definition receipt_binding :: "dict \<Rightarrow> dict \<Rightarrow> dict" where
  \<comment> \<open>the fields that bind a receipt to its task and plan (\<open>expected\<close>)\<close>
  "receipt_binding task plan =
     [(''store_kind'', JStr ''workflow_effect_receipt''), (''schema_version'', JInt 1),
      (''task_id'', dget task ''task_id''), (''plan_digest'', dget plan ''plan_digest''),
      (''definition_digest'', dget plan ''definition_digest''),
      (''run_generation'', dget plan ''run_generation''), (''effect_type'', dget task ''effect_type''),
      (''status'', JStr ''applied''), (''verified'', JBool True)]"

definition verified_effect_receipt :: "dict \<Rightarrow> dict \<Rightarrow> string \<Rightarrow> wf_exc + dict" where
  "verified_effect_receipt task plan effect_id =
     (let body = [(''store_kind'', JStr ''workflow_effect_receipt''), (''schema_version'', JInt 1),
        (''task_id'', dget task ''task_id''), (''plan_digest'', dget plan ''plan_digest''),
        (''definition_digest'', dget plan ''definition_digest''),
        (''run_generation'', dget plan ''run_generation''), (''effect_type'', dget task ''effect_type''),
        (''effect_id'', JStr effect_id), (''status'', JStr ''applied''), (''verified'', JBool True)]
      in bindE (digest_of (JObj body)) (\<lambda>h. Inr (body @ [(''receipt_hash'', JStr h)])))"

definition json_eq :: "json \<Rightarrow> json \<Rightarrow> bool" where
  \<comment> \<open>\<open>v == w\<close>\<close>
  "json_eq v w = (if is_str v \<and> is_str w then text_val v = text_val w else py_eq v w)"

definition validate_effect_receipt :: "json \<Rightarrow> dict \<Rightarrow> dict \<Rightarrow> wf_exc + dict" where
  "validate_effect_receipt receipt task plan =
     bindE (case receipt of JObj row \<Rightarrow> Inr row | _ \<Rightarrow> Inl WorkflowReplayError) (\<lambda>row.
     bindE (check (set (map fst row) = set RECEIPT_KEYS) WorkflowReplayError) (\<lambda>_.
     let body = ddel row ''receipt_hash''; receipt_hash = dget row ''receipt_hash'' in
     bindE (check (list_all (\<lambda>(field, value). json_eq (dget body field) value) (receipt_binding task plan))
       WorkflowReplayError) (\<lambda>_.
     bindE (check (is_str (dget body ''effect_id'') \<and> truthy (dget body ''effect_id'')) WorkflowReplayError) (\<lambda>_.
     bindE (digest_of (JObj body)) (\<lambda>h.
     bindE (check (text_in receipt_hash [h]) WorkflowReplayError) (\<lambda>_. Inr row))))))"

section \<open>The journal\<close>

record replay_state =
  r_ambiguous :: "string list"
  r_unknown :: "string list"
  r_seen :: "string list"

definition row_successful :: "dict \<Rightarrow> wf_exc + bool" where
  \<comment> \<open>\<open>row.get("status") in {"passed", "approved"}\<close>: the test hashes the status\<close>
  "row_successful row = (if unhashable_json (dget row ''status'') then Inl (Raised TypeError)
     else Inr (text_in (dget row ''status'') [''passed'', ''approved'']))"

definition row_task_id :: "dict \<Rightarrow> string" where
  \<comment> \<open>\<open>str(row.get("task_id") or "")\<close>\<close>
  "row_task_id row = (if truthy (dget row ''task_id'') then text_of (dget row ''task_id'') else [])"

definition add_ambiguous :: "string \<Rightarrow> replay_state \<Rightarrow> replay_state" where
  "add_ambiguous tid st = st\<lparr>r_ambiguous := r_ambiguous st @ [tid]\<rparr>"

definition add_unknown :: "string \<Rightarrow> replay_state \<Rightarrow> replay_state" where
  "add_unknown tid st = st\<lparr>r_unknown := r_unknown st @ [tid]\<rparr>"

definition bound_row :: "dict \<Rightarrow> dict \<Rightarrow> bool" where
  "bound_row plan row \<longleftrightarrow> json_eq (dget row ''plan_digest'') (dget plan ''plan_digest'')
     \<and> json_eq (dget row ''definition_digest'') (dget plan ''definition_digest'')
     \<and> json_eq (dget row ''run_generation'') (dget plan ''run_generation'')"

definition effect_unproved :: "dict \<Rightarrow> dict \<Rightarrow> dict \<Rightarrow> wf_exc + bool" where
  \<comment> \<open>the tests of a row whose task needs a terminable executor\<close>
  "effect_unproved plan task row =
     (if text_in (dget row ''status'') [''effect_unknown''] then Inr True
      else if dget task ''effect_type'' = JNull then Inr False
      else bindE (row_successful row) (\<lambda>successful.
        if \<not> successful then Inr True
        else if dget row ''effect_receipt'' = JNull then Inr True
        else (case validate_effect_receipt (dget row ''effect_receipt'') task plan of
          Inr _ \<Rightarrow> Inr False
        | Inl WorkflowReplayError \<Rightarrow> Inr True
        | Inl e \<Rightarrow> Inl e)))"

definition assess_row :: "dict \<Rightarrow> (string \<times> dict) list \<Rightarrow> dict \<Rightarrow> replay_state \<Rightarrow> wf_exc + replay_state" where
  "assess_row plan tasks row st =
     (let tid = row_task_id row in
      case map_of tasks tid of
        None \<Rightarrow> Inr (add_ambiguous (if tid = [] then ''<missing>'' else tid) st)
      | Some task \<Rightarrow>
          if tid \<in> set (r_seen st) then Inr (add_ambiguous (if tid = [] then ''<missing>'' else tid) st)
          else let st = st\<lparr>r_seen := tid # r_seen st\<rparr> in
          if \<not> bound_row plan row then Inr (add_ambiguous tid st)
          else bindE (if task_requires_terminable_executor task then effect_unproved plan task row else Inr False)
            (\<lambda>unproved.
             if unproved then Inr (add_unknown tid st)
             else bindE (row_successful row) (\<lambda>successful.
               Inr (if \<not> successful then st
                 else if dget task ''effect_type'' \<noteq> JNull then add_unknown tid st else add_ambiguous tid st))))"

fun assess_rows :: "dict \<Rightarrow> (string \<times> dict) list \<Rightarrow> dict list \<Rightarrow> replay_state \<Rightarrow> wf_exc + replay_state" where
  "assess_rows plan tasks [] st = Inr st"
| "assess_rows plan tasks (row # rows) st = bindE (assess_row plan tasks row st) (assess_rows plan tasks rows)"

record replay =
  terminal :: string
  adoptable :: "string list"
  ambiguous :: "string list"
  effect_unknown :: "string list"

definition tasks_by_id :: "dict \<Rightarrow> (string \<times> dict) list" where
  \<comment> \<open>\<open>{task["task_id"]: task for task in plan["tasks"]}\<close>, the newest entry first\<close>
  "tasks_by_id plan = rev (map (\<lambda>task. (task_id task, task)) (tasks_of plan))"

definition assess_replay :: "dict \<Rightarrow> dict list \<Rightarrow> wf_exc + replay" where
  "assess_replay plan results =
     bindE (assess_rows plan (tasks_by_id plan) results \<lparr>r_ambiguous = [], r_unknown = [], r_seen = []\<rparr>) (\<lambda>st.
     Inr \<lparr>terminal = (if r_unknown st \<noteq> [] then ''effect_unknown''
         else if r_ambiguous st \<noteq> [] then ''blocked'' else ''replayable''),
       adoptable = [], ambiguous = r_ambiguous st, effect_unknown = r_unknown st\<rparr>)"

section \<open>Facts\<close>

definition quiet_row :: "dict \<Rightarrow> (string \<times> dict) list \<Rightarrow> dict \<Rightarrow> bool" where
  \<comment> \<open>a row that leaves nothing to reconcile: it belongs to a task of this plan, reports no success
      and, where the task may act on the outside, neither an effect nor an unknown one\<close>
  "quiet_row plan tasks row \<longleftrightarrow> (\<exists>task. map_of tasks (row_task_id row) = Some task \<and> bound_row plan row
     \<and> \<not> text_in (dget row ''status'') [''passed'', ''approved'']
     \<and> (task_requires_terminable_executor task \<longrightarrow>
          dget task ''effect_type'' = JNull \<and> \<not> text_in (dget row ''status'') [''effect_unknown'']))"

lemma replay_updates [simp]:
  "r_ambiguous (add_ambiguous tid st) = r_ambiguous st @ [tid]" "r_unknown (add_ambiguous tid st) = r_unknown st"
  "r_ambiguous (add_unknown tid st) = r_ambiguous st" "r_unknown (add_unknown tid st) = r_unknown st @ [tid]"
  "r_seen (add_ambiguous tid st) = r_seen st" "r_seen (add_unknown tid st) = r_seen st"
  by (simp_all add: add_ambiguous_def add_unknown_def)

lemma replay_updates_neq [simp]: "add_ambiguous tid st \<noteq> st" "add_unknown tid st \<noteq> st"
  by (metis append_self_conv list.distinct(1) replay_updates(1)) (metis append_self_conv list.distinct(1) replay_updates(4))

definition clean :: "replay_state \<Rightarrow> bool" where
  "clean st \<longleftrightarrow> r_ambiguous st = [] \<and> r_unknown st = []"

lemma row_successful_Inr: "row_successful row = Inr b \<longleftrightarrow>
    \<not> unhashable_json (dget row ''status'') \<and> b = text_in (dget row ''status'') [''passed'', ''approved'']"
  by (auto simp: row_successful_def)

lemma effect_unproved_False: "effect_unproved plan task row = Inr False \<Longrightarrow> dget task ''effect_type'' \<noteq> JNull \<Longrightarrow>
    text_in (dget row ''status'') [''passed'', ''approved'']"
  by (auto simp: effect_unproved_def result_simps row_successful_Inr split: if_splits)

lemma effect_unproved_plain: "dget task ''effect_type'' = JNull \<Longrightarrow>
    effect_unproved plan task row = Inr (text_in (dget row ''status'') [''effect_unknown''])"
  by (simp add: effect_unproved_def)

lemma assess_row_clean:
  assumes "assess_row plan tasks row st = Inr st'"
  shows "clean st' \<longleftrightarrow> clean st \<and> quiet_row plan tasks row \<and> row_task_id row \<notin> set (r_seen st)"
    and "clean st' \<Longrightarrow> r_seen st' = row_task_id row # r_seen st"
proof -
  show "clean st' \<longleftrightarrow> clean st \<and> quiet_row plan tasks row \<and> row_task_id row \<notin> set (r_seen st)"
  proof (cases "map_of tasks (row_task_id row)")
    case None
    then show ?thesis using assms by (auto simp: assess_row_def Let_def clean_def quiet_row_def)
  next
    case (Some task)
    show ?thesis
    proof (cases "dget task ''effect_type'' = JNull")
      case True
      then show ?thesis
        using assms Some
        by (auto simp: assess_row_def Let_def clean_def quiet_row_def result_simps row_successful_Inr
            effect_unproved_plain split: if_splits)
    next
      case False
      then have "task_requires_terminable_executor task" by (simp add: task_requires_terminable_executor_def)
      then show ?thesis
        using assms Some False effect_unproved_False [of plan task row]
        by (auto simp: assess_row_def Let_def clean_def quiet_row_def result_simps row_successful_Inr
            split: if_splits)
    qed
  qed
  show "clean st' \<Longrightarrow> r_seen st' = row_task_id row # r_seen st"
    using assms by (auto simp: assess_row_def Let_def clean_def result_simps split: option.splits if_splits)
qed

lemma assess_rows_clean:
  "assess_rows plan tasks rows st = Inr st' \<Longrightarrow> clean st' \<longleftrightarrow> clean st
    \<and> (\<forall>row \<in> set rows. quiet_row plan tasks row) \<and> distinct (map row_task_id rows)
    \<and> set (map row_task_id rows) \<inter> set (r_seen st) = {}"
proof (induction rows arbitrary: st)
  case (Cons row rows)
  then obtain st1 where one: "assess_row plan tasks row st = Inr st1" and rest: "assess_rows plan tasks rows st1 = Inr st'"
    by (auto simp: result_simps)
  show ?case
    using Cons.IH [OF rest] assess_row_clean [OF one] by (cases "clean st1") auto
qed simp

lemma dget_body: "k \<noteq> ''receipt_hash'' \<Longrightarrow> dget (ddel row ''receipt_hash'') k = dget row k"
  by simp

lemma json_eq_refl:
  "is_str v \<Longrightarrow> json_eq v v" "json_eq (JStr s) (JStr s)" "json_eq (JInt i) (JInt i)" "json_eq (JBool b) (JBool b)"
  by (simp_all add: json_eq_def)

lemma validate_effect_receipt_Inr:
  "validate_effect_receipt (JObj row) task plan = Inr row' \<longleftrightarrow> row' = row \<and> set (map fst row) = set RECEIPT_KEYS
    \<and> (\<forall>(field, value) \<in> set (receipt_binding task plan). json_eq (dget (ddel row ''receipt_hash'') field) value)
    \<and> is_str (dget row ''effect_id'') \<and> truthy (dget row ''effect_id'')
    \<and> (\<exists>h. digest_of (JObj (ddel row ''receipt_hash'')) = Inr h \<and> text_val (dget row ''receipt_hash'') = Some h)"
  by (auto simp: validate_effect_receipt_def Let_def result_simps text_in_iff list_all_iff)

end
