(* ===== verification/WorkflowPlanFacts.thy ===== *)
theory WorkflowPlanFacts
  imports WorkflowPlan
begin

text \<open>
  The plan in closed form: which tasks the loops produce, that no lookup of them can fail on a
  validated definition, and where the tasks of a stage stand in the waves.
\<close>

section \<open>The loops over the stages\<close>

definition dependency_ordered :: "(string \<times> dict) list \<Rightarrow> string list \<Rightarrow> bool" where
  \<comment> \<open>every stage comes after the stages it depends on\<close>
  "dependency_ordered by_stage order \<longleftrightarrow> (\<forall>pre sid post. order = pre @ sid # post \<longrightarrow>
     (\<exists>stage. map_of by_stage sid = Some stage \<and> set (depends_on stage) \<subseteq> set pre))"

lemma dependency_ordered_head:
  "dependency_ordered by_stage (pre @ sid # post) \<Longrightarrow>
     \<exists>stage. map_of by_stage sid = Some stage \<and> set (depends_on stage) \<subseteq> set pre"
  by (auto simp: dependency_ordered_def)

lemma lookup_keys:
  "(\<And>k. k \<in> set ks \<Longrightarrow> map_of m k = Some (f k)) \<Longrightarrow> mapE (lookup_key m) ks = Inr (map f ks)"
  by (induction ks) (simp_all add: lookup_key_def)

definition stage_at :: "(string \<times> dict) list \<Rightarrow> string \<Rightarrow> dict" where
  "stage_at by_stage sid = (case map_of by_stage sid of Some stage \<Rightarrow> stage | None \<Rightarrow> [])"

lemma expand_stages_closed:
  assumes "dependency_ordered by_stage (pre @ order)"
    and build: "\<And>sid stage deps. sid \<in> set (pre @ order) \<Longrightarrow> map_of by_stage sid = Some stage \<Longrightarrow>
      build stage sid deps = Inr (mk stage sid deps) \<and> map task_id (mk stage sid deps) = tids sid"
    and "\<And>sid. sid \<in> set pre \<Longrightarrow> map_of known sid = Some (tids sid)"
  shows "expand_stages build by_stage order tasks known = Inr (tasks @ concat (map (\<lambda>sid.
    let stage = stage_at by_stage sid in mk stage sid (concat (map tids (depends_on stage)))) order))"
  using assms
proof (induction order arbitrary: pre tasks known)
  case (Cons sid order)
  obtain stage where stage: "map_of by_stage sid = Some stage" "set (depends_on stage) \<subseteq> set pre"
    using dependency_ordered_head [OF Cons.prems(1)] by blast
  let ?new = "mk stage sid (concat (map tids (depends_on stage)))"
  have new: "build stage sid (concat (map tids (depends_on stage))) = Inr ?new" "map task_id ?new = tids sid"
    using Cons.prems(2) [of sid stage] stage(1) by auto
  have deps: "mapE (lookup_key known) (depends_on stage) = Inr (map tids (depends_on stage))"
    using Cons.prems(3) stage(2) by (intro lookup_keys) auto
  have "expand_stages build by_stage order (tasks @ ?new) ((sid, map task_id ?new) # known) =
      Inr ((tasks @ ?new) @ concat (map (\<lambda>sid. let stage = stage_at by_stage sid in
        mk stage sid (concat (map tids (depends_on stage)))) order))"
  proof (rule Cons.IH [of "pre @ [sid]"])
    show "dependency_ordered by_stage ((pre @ [sid]) @ order)" using Cons.prems(1) by simp
    show "map_of ((sid, map task_id ?new) # known) s = Some (tids s)" if "s \<in> set (pre @ [sid])" for s
      using that Cons.prems(3) new(2) by auto
  qed (use Cons.prems(2) in simp)
  then show ?case
    using stage(1) deps new by (simp add: lookup_key_def stage_at_def Let_def)
qed simp

definition leveled :: "(string \<times> dict) list \<Rightarrow> (string \<times> nat) list \<Rightarrow> bool" where
  \<comment> \<open>a stage stands above all the stages it depends on\<close>
  "leveled by_stage levels \<longleftrightarrow> (\<forall>sid l. map_of levels sid = Some l \<longrightarrow>
     (\<forall>d \<in> set (depends_on (stage_at by_stage sid)). \<exists>l'. map_of levels d = Some l' \<and> l' < l))"

lemma stage_levels_closed:
  assumes "dependency_ordered by_stage (pre @ order)" "distinct (pre @ order)"
    and "set (map fst levels) = set pre" "leveled by_stage levels"
  shows "\<exists>levels'. stage_levels by_stage order levels = Inr levels' \<and> set (map fst levels') = set (pre @ order)
    \<and> leveled by_stage levels'"
  using assms
proof (induction order arbitrary: pre levels)
  case (Cons sid order)
  obtain stage where stage: "map_of by_stage sid = Some stage" "set (depends_on stage) \<subseteq> set pre"
    using dependency_ordered_head [OF Cons.prems(1)] by blast
  let ?f = "\<lambda>d. the (map_of levels d)"
  have known: "map_of levels d = Some (?f d)" if "d \<in> set pre" for d
    using that Cons.prems(3) by (cases "map_of levels d") (auto simp: map_of_eq_None_iff)
  then have ls: "mapE (lookup_key levels) (depends_on stage) = Inr (map ?f (depends_on stage))"
    using stage(2) by (intro lookup_keys) auto
  define l where "l = (if map ?f (depends_on stage) = [] then 0 else Max (set (map ?f (depends_on stage))) + 1)"
  have fresh: "sid \<notin> set (map fst levels)" using Cons.prems(2,3) by auto
  have above: "?f d < l" if "d \<in> set (depends_on stage)" for d
  proof -
    have "?f d \<le> Max (set (map ?f (depends_on stage)))" using that by (intro Max_ge) auto
    moreover have "depends_on stage \<noteq> []" using that by auto
    ultimately show ?thesis by (simp add: l_def)
  qed
  have "leveled by_stage ((sid, l) # levels)"
    unfolding leveled_def
  proof (intro allI impI ballI)
    fix s m d assume m: "map_of ((sid, l) # levels) s = Some m"
      and d: "d \<in> set (depends_on (stage_at by_stage s))"
    have inpre: "d \<in> set pre \<Longrightarrow> map_of ((sid, l) # levels) d = map_of levels d" for d
      using Cons.prems(2) by auto
    show "\<exists>l'. map_of ((sid, l) # levels) d = Some l' \<and> l' < m"
    proof (cases "s = sid")
      case True
      then have "d \<in> set (depends_on stage)" using d stage(1) by (simp add: stage_at_def)
      then have "d \<in> set pre" "?f d < m" using stage(2) above m True by auto
      moreover from this have "map_of ((sid, l) # levels) d = Some (?f d)" using known inpre by metis
      ultimately show ?thesis by blast
    next
      case False
      then have "map_of levels s = Some m" using m by simp
      then obtain l' where l': "map_of levels d = Some l'" "l' < m"
        using d Cons.prems(4) unfolding leveled_def by blast
      then have "d \<noteq> sid" using fresh by (metis map_of_eq_None_iff image_set option.distinct(1))
      with l' show ?thesis by auto
    qed
  qed
  moreover have "dependency_ordered by_stage ((pre @ [sid]) @ order)" "distinct ((pre @ [sid]) @ order)"
    "set (map fst ((sid, l) # levels)) = set (pre @ [sid])"
    using Cons.prems by auto
  ultimately show ?case
    using Cons.IH [of "pre @ [sid]" "(sid, l) # levels"] stage(1) ls
    by (simp add: lookup_key_def l_def)
qed simp

section \<open>Positions in the waves\<close>

lemma filter_position:
  assumes "a < b" "b < N" "P (f a)" "P (f b)"
  shows "\<exists>i j. i < j \<and> j < length (filter P (map f [0..<N])) \<and> filter P (map f [0..<N]) ! i = f a
    \<and> filter P (map f [0..<N]) ! j = f b"
proof -
  let ?A = "filter P (map f [0..<a])" and ?B = "filter P (map f [Suc a..<b])"
  let ?C = "filter P (map f [Suc b..<N])"
  have "[0..<N] = [0..<a] @ a # [Suc a..<b] @ b # [Suc b..<N]"
    using assms(1,2) upt_add_eq_append [of 0 a "N - a"] upt_add_eq_append [of "Suc a" b "N - b"]
      upt_conv_Cons [of a N] upt_conv_Cons [of b N] by simp
  then have eq: "filter P (map f [0..<N]) = ?A @ f a # ?B @ f b # ?C"
    using assms(3,4) by simp
  show ?thesis
    unfolding eq by (intro exI [of _ "length ?A"] exI [of _ "length ?A + 1 + length ?B"])
      (simp add: nth_append)
qed

lemma level_count_bound: "map_of levels s = Some l \<Longrightarrow> l < level_count levels"
  by (induction levels) (auto simp: level_count_def split: if_splits)

lemma concat_filter_nonempty: "concat (filter (\<lambda>w. w \<noteq> []) ws) = concat ws"
  by (induction ws) auto

lemma count_upt: "count_list [0..<N] l = (if l < N then 1 else 0)"
  by (induction N) auto

lemma mset_levels:
  "(\<And>x l. (x, l) \<in> set ls \<Longrightarrow> l < N) \<Longrightarrow>
    mset (concat (map (\<lambda>level. map fst (filter (\<lambda>(t, l). l = level) ls)) [0..<N])) = mset (map fst ls)"
proof (induction ls)
  case (Cons x ls)
  obtain t l where x: "x = (t, l)" by (cases x)
  have l: "l < N" using Cons.prems x by auto
  have "mset (concat (map (\<lambda>level. map fst (filter (\<lambda>(t, l). l = level) (x # ls))) ns)) =
      mset (concat (map (\<lambda>level. map fst (filter (\<lambda>(t, l). l = level) ls)) ns))
        + replicate_mset (count_list ns l) t" for ns
    by (induction ns) (auto simp: x)
  moreover have "mset (concat (map (\<lambda>level. map fst (filter (\<lambda>(t, l). l = level) ls)) [0..<N])) = mset (map fst ls)"
    by (rule Cons.IH) (use Cons.prems in auto)
  ultimately show ?case using l by (simp only: count_upt) (simp add: x)
qed simp

definition level_waves :: "dict list \<Rightarrow> (string \<times> nat) list \<Rightarrow> string list list" where
  \<comment> \<open>the tasks of each level, without the empty levels\<close>
  "level_waves tasks levels = filter (\<lambda>wave. wave \<noteq> []) (map (\<lambda>level. map task_id
     (filter (\<lambda>t. the (map_of levels (task_stage t)) = level) tasks)) [0..<level_count levels])"

section \<open>The plan of a validated definition\<close>

definition run_valid :: "string \<Rightarrow> int \<Rightarrow> bool" where
  \<comment> \<open>the repository and the generation \<open>workflow_task_id\<close> accepts\<close>
  "run_valid repository_id run_generation \<longleftrightarrow>
     (repository_id = ''OMG'' \<or> repository_id = ''OMA'') \<and> 0 \<le> run_generation"

definition planned_id :: "dict \<Rightarrow> string \<Rightarrow> int \<Rightarrow> string \<Rightarrow> string \<Rightarrow> nat \<Rightarrow> string" where
  \<comment> \<open>the identifier of the task of one row\<close>
  "planned_id compiled repository_id run_generation digest sid i =
     (case workflow_task_id repository_id (text_of (dget compiled ''name''))
         (text_of (dget compiled ''workflow_version'')) (text_of (dget compiled ''definition_digest''))
         digest sid (int i) run_generation of Inr tid \<Rightarrow> tid | Inl e \<Rightarrow> [])"

definition row_tasks :: "dict \<Rightarrow> string \<Rightarrow> int \<Rightarrow> string \<Rightarrow> dict \<Rightarrow> string \<Rightarrow> string list \<Rightarrow> dict list" where
  "row_tasks compiled repository_id run_generation digest stage sid deps =
     map (\<lambda>(i, row). planned_task stage sid (planned_id compiled repository_id run_generation digest sid i) i row deps)
       (enumerate 0 (matrix_rows stage))"

definition row_ids :: "dict \<Rightarrow> string \<Rightarrow> int \<Rightarrow> string \<Rightarrow> (string \<times> dict) list \<Rightarrow> string \<Rightarrow> string list" where
  "row_ids compiled repository_id run_generation digest by_stage sid =
     map (planned_id compiled repository_id run_generation digest sid)
       [0..<length (matrix_rows (stage_at by_stage sid))]"

lemma task_fields [simp]:
  "task_id (planned_task stage sid tid i row deps) = tid"
  "task_stage (planned_task stage sid tid i row deps) = sid"
  "task_dependencies (planned_task stage sid tid i row deps) = deps"
  by (simp_all add: task_id_def task_stage_def task_dependencies_def planned_task_def strings_def comp_def)

lemma digest_of_texts: "\<exists>h. digest_of (JList [JStr a, JStr b, JStr c, JStr d, JStr e, JStr f, JInt i, JInt j]) = Inr h"
  by (simp add: digest_of_def canonical_json_bytes_def)

lemma workflow_task_id_total:
  assumes "run_valid repo gen" "SHA256_RE dd" "SHA256_RE digest"
  shows "\<exists>h. workflow_task_id repo name version dd digest sid (int i) gen = Inr h"
  using assms digest_of_texts
  by (auto simp: workflow_task_id_def run_valid_def require_sha256_def require_integer_def)

lemma stage_tasks_closed:
  assumes "run_valid repo gen" "SHA256_RE (text_of (dget compiled ''definition_digest''))" "SHA256_RE digest"
  shows "stage_tasks compiled repo gen digest stage sid deps = Inr (row_tasks compiled repo gen digest stage sid deps)"
proof -
  have "workflow_task_id repo (text_of (dget compiled ''name'')) (text_of (dget compiled ''workflow_version''))
      (text_of (dget compiled ''definition_digest'')) digest sid (int i) gen
      = Inr (planned_id compiled repo gen digest sid i)" for i
    using workflow_task_id_total [OF assms] unfolding planned_id_def by (metis sum.simps(6))
  then show ?thesis
    unfolding stage_tasks_def row_tasks_def by (intro mapE_Inr_map) (auto split: prod.split)
qed

lemma row_tasks_ids:
  "map task_id (row_tasks compiled repo gen digest stage sid deps)
     = map (planned_id compiled repo gen digest sid) [0..<length (matrix_rows stage)]"
proof -
  have "map task_id (row_tasks compiled repo gen digest stage sid deps) =
      map (planned_id compiled repo gen digest sid) (map fst (enumerate 0 (matrix_rows stage)))"
    by (simp add: row_tasks_def comp_def case_prod_unfold del: map_fst_enumerate)
  then show ?thesis by (simp only: map_fst_enumerate add_0)
qed

lemma row_tasks_stage: "t \<in> set (row_tasks compiled repo gen digest stage sid deps) \<Longrightarrow>
    task_stage t = sid \<and> task_dependencies t = deps"
  by (auto simp: row_tasks_def)

definition plan_tasks :: "dict \<Rightarrow> string \<Rightarrow> int \<Rightarrow> string \<Rightarrow> string list \<Rightarrow> dict list" where
  \<comment> \<open>the tasks in closed form\<close>
  "plan_tasks compiled repository_id run_generation digest order =
     (let by_stage = stage_by_id (stages_of compiled);
          mk = row_tasks compiled repository_id run_generation digest;
          tids = row_ids compiled repository_id run_generation digest by_stage
      in concat (map (\<lambda>sid. mk (stage_at by_stage sid) sid
           (concat (map tids (depends_on (stage_at by_stage sid))))) order))"

lemma stage_by_id_at:
  assumes "readable_stages stages" "stage \<in> set stages"
  shows "map_of (stage_by_id stages) (stage_id stage) = Some stage"
    and "stage_at (stage_by_id stages) (stage_id stage) = stage"
proof -
  have dist: "distinct (map stage_id stages)" using assms(1) by (simp add: readable_stages_def)
  show "map_of (stage_by_id stages) (stage_id stage) = Some stage"
    unfolding stage_by_id_map [OF dist] using dist assms(2)
    by (intro map_of_is_SomeI) (simp_all add: comp_def)
  then show "stage_at (stage_by_id stages) (stage_id stage) = stage" by (simp add: stage_at_def)
qed

lemma first_startable_ordered:
  assumes "readable_stages stages" "first_startable stages order"
  shows "dependency_ordered (stage_by_id stages) order"
  unfolding dependency_ordered_def
proof (intro allI impI)
  fix pre sid post assume "order = pre @ sid # post"
  then obtain stage where "stage \<in> set stages" "stage_id stage = sid" "startable stage pre"
    using assms(2) unfolding first_startable_def by metis
  then show "\<exists>stage. map_of (stage_by_id stages) sid = Some stage \<and> set (depends_on stage) \<subseteq> set pre"
    using stage_by_id_at(1) [OF assms(1)] by (auto simp: startable_def)
qed

lemma expand_compiled:
  assumes "validate_workflow_definition v = Inr compiled" "run_valid repo gen" "SHA256_RE digest"
    and "dependency_ordered (stage_by_id (stages_of compiled)) order"
  shows "expand_stages (stage_tasks compiled repo gen digest) (stage_by_id (stages_of compiled)) order [] []
    = Inr (plan_tasks compiled repo gen digest order)"
proof -
  have "SHA256_RE (text_of (dget compiled ''definition_digest''))"
    using validated_parts [OF assms(1)]
    by (auto simp: validate_header_def result_simps text_in_def workflow_definition_digest_def
        text_val_def digest_of_form split: if_splits)
  note build = stage_tasks_closed [OF assms(2) this assms(3)]
  show ?thesis
    by (subst expand_stages_closed [of _ "[]" order _ "row_tasks compiled repo gen digest"
          "row_ids compiled repo gen digest (stage_by_id (stages_of compiled))"])
      (use assms(4) in \<open>simp_all add: build row_tasks_ids row_ids_def stage_at_def plan_tasks_def Let_def\<close>)
qed

lemma plan_waves_closed:
  assumes "\<And>t. t \<in> set tasks \<Longrightarrow> map_of levels (task_stage t) = Some (the (map_of levels (task_stage t)))"
  shows "plan_waves tasks levels = Inr (level_waves tasks levels)"
proof -
  have "mapE (\<lambda>task. bindE (lookup_key levels (task_stage task)) (\<lambda>l. Inr (task_id task, l))) tasks
      = Inr (map (\<lambda>t. (task_id t, the (map_of levels (task_stage t)))) tasks)"
    by (rule mapE_Inr_map) (use assms in \<open>fastforce simp: lookup_key_def split: option.split\<close>)
  then show ?thesis by (simp add: plan_waves_def level_waves_def filter_map comp_def)
qed

lemma plan_tasks_mem:
  "t \<in> set (plan_tasks compiled repo gen digest order) \<longleftrightarrow> (\<exists>sid \<in> set order.
     t \<in> set (row_tasks compiled repo gen digest (stage_at (stage_by_id (stages_of compiled)) sid) sid
       (concat (map (row_ids compiled repo gen digest (stage_by_id (stages_of compiled)))
         (depends_on (stage_at (stage_by_id (stages_of compiled)) sid))))))"
  by (auto simp: plan_tasks_def Let_def)

section \<open>The plan\<close>

lemma canonical_ok_dget: "canonical_ok (JObj d) \<Longrightarrow> canonical_ok (dget d k)"
proof (cases "map_of d k")
  case (Some v)
  then have "(k, v) \<in> set d" by (rule map_of_SomeD)
  then show "canonical_ok (JObj d) \<Longrightarrow> canonical_ok (dget d k)" using Some by (auto simp: dget_def list_all_iff)
qed (simp add: dget_def)

lemma canonical_ok_rows: "canonical_ok v \<Longrightarrow> list_all canonical_ok (rows_of v)"
  by (cases v) (simp_all add: rows_of_def)

lemma canonical_ok_dict_of: "canonical_ok v \<Longrightarrow> canonical_ok (JObj (dict_of v))"
  by (cases v) (simp_all add: dict_of_def)

lemma canonical_ok_stages: "canonical_ok (JObj d) \<Longrightarrow> stage \<in> set (stages_of d) \<Longrightarrow> canonical_ok (JObj stage)"
proof -
  assume ok: "canonical_ok (JObj d)" and "stage \<in> set (stages_of d)"
  then obtain row where row: "row \<in> set (rows_of (dget d ''stages''))" "stage = dict_of row"
    by (auto simp: stages_of_def)
  then have "canonical_ok row" using canonical_ok_rows [OF canonical_ok_dget [OF ok]] by (simp add: list_all_iff)
  then show "canonical_ok (JObj stage)" unfolding row by (rule canonical_ok_dict_of)
qed

lemma planned_task_ok:
  "canonical_ok (JObj stage) \<Longrightarrow> canonical_ok row \<Longrightarrow> canonical_ok (JObj (planned_task stage sid tid i row deps))"
  using canonical_ok_dget [of stage] by (simp add: planned_task_def list_all_iff)

definition plan_inputs :: "dict \<Rightarrow> json \<Rightarrow> dict \<Rightarrow> json \<Rightarrow> string \<Rightarrow> string list \<Rightarrow> bool" where
  \<comment> \<open>what the planner computes before it expands the stages\<close>
  "plan_inputs d workflow_input compiled input digest order \<longleftrightarrow> compile_workflow d = Inr compiled
     \<and> validate_workflow_input compiled workflow_input = Inr input \<and> digest_of input = Inr digest
     \<and> deterministic_topological_order (stages_of compiled) = Inr order"

lemma build_plan_closed:
  assumes "distinct_keys (JObj d)" "run_valid repo gen" "plan_inputs d workflow_input compiled input digest order"
  obtains levels where "set (map fst levels) = set order" "leveled (stage_by_id (stages_of compiled)) levels"
    "build_plan d workflow_input repo gen =
      (let tasks = plan_tasks compiled repo gen digest order;
           waves = level_waves tasks levels;
           body = plan_body compiled repo gen input digest order tasks waves
       in bindE (digest_of (JObj body)) (\<lambda>plan_digest. Inr (body @ [(''plan_digest'', JStr plan_digest),
            (''run_id'', JStr (''workflow-'' @ take 32 plan_digest))])))"
proof -
  have compiled: "compile_workflow d = Inr compiled" and order: "deterministic_topological_order (stages_of compiled) = Inr order"
    and input: "validate_workflow_input compiled workflow_input = Inr input" "digest_of input = Inr digest"
    using assms(3) by (simp_all add: plan_inputs_def)
  have valid: "validate_workflow_definition (JObj compiled) = Inr compiled"
    using compiled unfolding compile_workflow_Inr [OF assms(1)] by blast
  note readable = validated_graph(1) [OF valid]
  have "distinct order" "first_startable (stages_of compiled) order"
    using topological_order_Inr [OF readable order] by blast+
  moreover have dep: "dependency_ordered (stage_by_id (stages_of compiled)) order"
    by (rule first_startable_ordered [OF readable]) fact
  ultimately obtain levels where levels: "stage_levels (stage_by_id (stages_of compiled)) order [] = Inr levels"
    "set (map fst levels) = set order" "leveled (stage_by_id (stages_of compiled)) levels"
    using stage_levels_closed [of "stage_by_id (stages_of compiled)" "[]" order "[]"] by (auto simp: leveled_def)
  have expand: "expand_stages (stage_tasks compiled repo gen digest) (stage_by_id (stages_of compiled)) order [] []
      = Inr (plan_tasks compiled repo gen digest order)"
    using expand_compiled [OF valid assms(2) digest_of_form [OF input(2)] dep] .
  have "map_of levels (task_stage t) = Some (the (map_of levels (task_stage t)))"
    if "t \<in> set (plan_tasks compiled repo gen digest order)" for t
  proof -
    have "task_stage t \<in> set order" using that row_tasks_stage by (fastforce simp: plan_tasks_mem)
    then show ?thesis using levels(2) by (cases "map_of levels (task_stage t)") (auto simp: map_of_eq_None_iff)
  qed
  then have waves: "plan_waves (plan_tasks compiled repo gen digest order) levels =
      Inr (level_waves (plan_tasks compiled repo gen digest order) levels)"
    by (rule plan_waves_closed)
  show ?thesis
    by (rule that [OF levels(2,3)])
      (simp add: build_plan_def compiled input input_digest_def order expand levels(1) waves Let_def)
qed

lemma plan_body_reads [simp]:
  "tasks_of (plan_body compiled repo gen input digest order tasks waves @ rest) = tasks"
  "waves_of (plan_body compiled repo gen input digest order tasks waves @ rest) = waves"
proof -
  have "filter is_str (map JStr w) = map JStr w" for w by (induction w) auto
  then show "tasks_of (plan_body compiled repo gen input digest order tasks waves @ rest) = tasks"
    "waves_of (plan_body compiled repo gen input digest order tasks waves @ rest) = waves"
    by (simp_all add: tasks_of_def waves_of_def plan_body_def rows_of_def strings_def comp_def)
qed

lemma plan_inputs_ok:
  assumes "distinct_keys (JObj d)" "plan_inputs d workflow_input compiled input digest order"
  shows "validate_workflow_definition (JObj compiled) = Inr compiled" "canonical_ok (JObj compiled)"
    "canonical_ok input"
proof -
  show "validate_workflow_definition (JObj compiled) = Inr compiled"
    using assms compile_workflow_Inr by (auto simp: plan_inputs_def)
  show "canonical_ok (JObj compiled)"
    using assms compile_workflow_Inr canonical_ok_copy [of "JObj d"] by (auto simp: plan_inputs_def)
  show "canonical_ok input"
    using assms(2) by (auto simp: plan_inputs_def digest_of_def canonical_json_bytes_def result_simps split: if_splits)
qed

lemma plan_tasks_ok:
  assumes "canonical_ok (JObj compiled)" "readable_stages (stages_of compiled)"
    "set order \<subseteq> set (map stage_id (stages_of compiled))" "t \<in> set (plan_tasks compiled repo gen digest order)"
  shows "canonical_ok (JObj t)"
proof -
  obtain sid deps where sid: "sid \<in> set order"
    and t: "t \<in> set (row_tasks compiled repo gen digest (stage_at (stage_by_id (stages_of compiled)) sid) sid deps)"
    using assms(4) by (auto simp: plan_tasks_mem)
  obtain stage where stage: "stage \<in> set (stages_of compiled)" "stage_id stage = sid"
    using sid assms(3) by auto
  then have at: "stage_at (stage_by_id (stages_of compiled)) sid = stage"
    using stage_by_id_at(2) [OF assms(2)] by auto
  obtain i row tid where task: "t = planned_task stage sid tid i row deps" and row: "row \<in> set (matrix_rows stage)"
    using t unfolding at row_tasks_def by (auto simp: in_set_enumerate_eq)
  have ok: "canonical_ok (JObj stage)" using canonical_ok_stages [OF assms(1) stage(1)] .
  then have "canonical_ok row"
    using row canonical_ok_rows [OF canonical_ok_dget [OF ok]] by (auto simp: matrix_rows_def list_all_iff)
  then show ?thesis unfolding task by (rule planned_task_ok [OF ok])
qed

lemma build_plan_total:
  assumes "distinct_keys (JObj d)" "run_valid repo gen" "plan_inputs d workflow_input compiled input digest order"
  obtains levels plan where "build_plan d workflow_input repo gen = Inr plan"
    "tasks_of plan = plan_tasks compiled repo gen digest order"
    "waves_of plan = level_waves (tasks_of plan) levels"
    "set (map fst levels) = set order" "leveled (stage_by_id (stages_of compiled)) levels"
proof -
  obtain levels where levels: "set (map fst levels) = set order" "leveled (stage_by_id (stages_of compiled)) levels"
    and plan: "build_plan d workflow_input repo gen =
      (let tasks = plan_tasks compiled repo gen digest order;
           waves = level_waves tasks levels;
           body = plan_body compiled repo gen input digest order tasks waves
       in bindE (digest_of (JObj body)) (\<lambda>plan_digest. Inr (body @ [(''plan_digest'', JStr plan_digest),
            (''run_id'', JStr (''workflow-'' @ take 32 plan_digest))])))"
    by (rule build_plan_closed [OF assms])
  note ok = plan_inputs_ok [OF assms(1,3)]
  have sub: "set order \<subseteq> set (map stage_id (stages_of compiled))"
    using assms(3) topological_order_Inr(2) [OF validated_graph(1) [OF ok(1)]] by (auto simp: plan_inputs_def)
  have "list_all canonical_ok (map JObj (plan_tasks compiled repo gen digest order))"
    using plan_tasks_ok [OF ok(2) validated_graph(1) [OF ok(1)] sub] by (auto simp: list_all_iff)
  then have "canonical_ok (JObj (plan_body compiled repo gen input digest order
      (plan_tasks compiled repo gen digest order) waves))" for waves
    using canonical_ok_dget [OF ok(2)] ok(3) by (simp add: plan_body_def list_all_iff)
  then have digest: "\<exists>h. digest_of (JObj (plan_body compiled repo gen input digest order
      (plan_tasks compiled repo gen digest order) waves)) = Inr h" for waves
    by (simp add: digest_of_def canonical_json_bytes_def del: canonical_ok.simps)
  let ?tasks = "plan_tasks compiled repo gen digest order"
  let ?waves = "level_waves ?tasks levels"
  obtain h where h: "digest_of (JObj (plan_body compiled repo gen input digest order ?tasks ?waves)) = Inr h"
    using digest by blast
  let ?plan = "plan_body compiled repo gen input digest order ?tasks ?waves @
    [(''plan_digest'', JStr h), (''run_id'', JStr (''workflow-'' @ take 32 h))]"
  have "build_plan d workflow_input repo gen = Inr ?plan"
    unfolding plan Let_def h by (rule bindE_Inr)
  moreover have "tasks_of ?plan = ?tasks" by (rule plan_body_reads)
  moreover have "waves_of ?plan = ?waves" by (rule plan_body_reads)
  ultimately show ?thesis using levels by (intro that [of ?plan levels]) simp_all
qed

lemma plan_order:
  assumes "distinct_keys (JObj d)" "plan_inputs d workflow_input compiled input digest order"
  shows "distinct order" "set order = set (map stage_id (stages_of compiled))"
    "first_startable (stages_of compiled) order" "dependency_ordered (stage_by_id (stages_of compiled)) order"
proof -
  note readable = validated_graph(1) [OF plan_inputs_ok(1) [OF assms]]
  have "deterministic_topological_order (stages_of compiled) = Inr order"
    using assms(2) by (simp add: plan_inputs_def)
  from topological_order_Inr [OF readable this]
  show "distinct order" "set order = set (map stage_id (stages_of compiled))"
    "first_startable (stages_of compiled) order" by blast+
  then show "dependency_ordered (stage_by_id (stages_of compiled)) order"
    using first_startable_ordered [OF readable] by blast
qed

lemma task_of_id:
  assumes "d \<in> set order" "x \<in> set (row_ids compiled repo gen digest (stage_by_id (stages_of compiled)) d)"
  obtains u where "u \<in> set (plan_tasks compiled repo gen digest order)" "task_stage u = d" "task_id u = x"
proof -
  let ?by = "stage_by_id (stages_of compiled)"
  let ?row = "row_tasks compiled repo gen digest (stage_at ?by d) d
    (concat (map (row_ids compiled repo gen digest ?by) (depends_on (stage_at ?by d))))"
  have "x \<in> set (map task_id ?row)" using assms(2) by (simp add: row_tasks_ids row_ids_def)
  then obtain u where "u \<in> set ?row" "task_id u = x" by auto
  moreover from this have "u \<in> set (plan_tasks compiled repo gen digest order)"
    using assms(1) by (auto simp: plan_tasks_mem)
  ultimately show ?thesis using that row_tasks_stage by blast
qed

lemma waves_ordered:
  assumes "distinct_keys (JObj d)" "plan_inputs d workflow_input compiled input digest order"
    and levels: "set (map fst levels) = set order" "leveled (stage_by_id (stages_of compiled)) levels"
    and t: "t \<in> set (plan_tasks compiled repo gen digest order)" "x \<in> set (task_dependencies t)"
  shows "\<exists>i j. i < j \<and> j < length (level_waves (plan_tasks compiled repo gen digest order) levels)
    \<and> x \<in> set (level_waves (plan_tasks compiled repo gen digest order) levels ! i)
    \<and> task_id t \<in> set (level_waves (plan_tasks compiled repo gen digest order) levels ! j)"
proof -
  let ?P = "\<lambda>wave. wave \<noteq> []"
  let ?f = "\<lambda>level. map task_id (filter (\<lambda>t. the (map_of levels (task_stage t)) = level)
    (plan_tasks compiled repo gen digest order))"
  let ?by = "stage_by_id (stages_of compiled)" and ?tasks = "plan_tasks compiled repo gen digest order"
  note order = plan_order [OF assms(1,2)]
  have sid: "task_stage t \<in> set order"
    and deps: "task_dependencies t = concat (map (row_ids compiled repo gen digest ?by) (depends_on (stage_at ?by (task_stage t))))"
    using t(1) row_tasks_stage by (auto simp: plan_tasks_mem)
  obtain e where e: "e \<in> set (depends_on (stage_at ?by (task_stage t)))"
    and x: "x \<in> set (row_ids compiled repo gen digest ?by e)"
    using t(2) unfolding deps by auto
  obtain l where l: "map_of levels (task_stage t) = Some l"
    using sid levels(1) by (cases "map_of levels (task_stage t)") (auto simp: map_of_eq_None_iff)
  then obtain l' where l': "map_of levels e = Some l'" "l' < l"
    using levels(2) e unfolding leveled_def by blast
  then have "e \<in> set order" using levels(1) by (metis map_of_eq_None_iff list.set_map option.distinct(1))
  then obtain u where u: "u \<in> set ?tasks" "task_stage u = e" "task_id u = x"
    using task_of_id [OF _ x] by blast
  have at: "task_id v \<in> set (?f m)" if "v \<in> set ?tasks" "map_of levels (task_stage v) = Some m" for v m
    using that by force
  have mem: "x \<in> set (?f l')" "task_id t \<in> set (?f l)"
    using at [OF u(1)] at [OF t(1) l] u l'(1) by auto
  then have "?P (?f l')" "?P (?f l)" by (metis empty_iff empty_set)+
  then obtain i j where "i < j" "j < length (level_waves (plan_tasks compiled repo gen digest order) levels)"
    "level_waves (plan_tasks compiled repo gen digest order) levels ! i = ?f l'"
    "level_waves (plan_tasks compiled repo gen digest order) levels ! j = ?f l"
    using filter_position [of l' l "level_count levels" ?P ?f] l'(2) level_count_bound [OF l]
    unfolding level_waves_def by blast
  with mem show ?thesis by metis
qed

lemma waves_cover:
  assumes "set (map fst levels) = set order"
  shows "mset (concat (level_waves (plan_tasks compiled repo gen digest order) levels)) = mset (map task_id (plan_tasks compiled repo gen digest order))"
proof -
  let ?tasks = "plan_tasks compiled repo gen digest order"
  let ?ls = "map (\<lambda>t. (task_id t, the (map_of levels (task_stage t)))) ?tasks"
  have "l < level_count levels" if "(x, l) \<in> set ?ls" for x l
  proof -
    from that obtain t where "t \<in> set ?tasks" "l = the (map_of levels (task_stage t))" by auto
    moreover from this have "task_stage t \<in> set order" using row_tasks_stage by (fastforce simp: plan_tasks_mem)
    ultimately have "map_of levels (task_stage t) = Some l"
      using assms by (cases "map_of levels (task_stage t)") (auto simp: map_of_eq_None_iff)
    then show ?thesis by (rule level_count_bound)
  qed
  then have "mset (concat (map (\<lambda>level. map fst (filter (\<lambda>(t, l). l = level) ?ls)) [0..<level_count levels]))
      = mset (map fst ?ls)" by (rule mset_levels)
  then show ?thesis
    unfolding level_waves_def concat_filter_nonempty by (simp add: filter_map comp_def)
qed

lemma plan_tasks_rows:
  "map (\<lambda>t. (task_stage t, dget t ''matrix_index'')) (plan_tasks compiled repo gen digest order) =
    concat (map (\<lambda>sid. map (\<lambda>i. (sid, JInt (int i)))
      [0..<length (matrix_rows (stage_at (stage_by_id (stages_of compiled)) sid))]) order)"
proof -
  have "map (\<lambda>t. (task_stage t, dget t ''matrix_index'')) (row_tasks compiled repo gen digest stage sid deps) =
      map (\<lambda>i. (sid, JInt (int i))) (map fst (enumerate 0 (matrix_rows stage)))" for stage sid deps
    by (simp add: row_tasks_def comp_def case_prod_unfold planned_task_def task_stage_def del: map_fst_enumerate)
  then have "map (\<lambda>t. (task_stage t, dget t ''matrix_index'')) (row_tasks compiled repo gen digest stage sid deps) =
      map (\<lambda>i. (sid, JInt (int i))) [0..<length (matrix_rows stage)]" for stage sid deps
    by (simp only: map_fst_enumerate add_0)
  then show ?thesis by (simp add: plan_tasks_def Let_def map_concat comp_def)
qed

lemma sum_over_ids:
  assumes "distinct order" "set order = set (map g xs)" "distinct (map g xs)" "\<And>x. x \<in> set xs \<Longrightarrow> f (g x) = h x"
  shows "sum_list (map f order) = (sum_list (map h xs) :: nat)"
proof -
  have "sum_list (map f order) = sum f (set (map g xs))"
    using assms(1,2) by (metis sum_list_distinct_conv_sum_set)
  also have "\<dots> = sum_list (map f (map g xs))"
    using assms(3) by (rule sum_list_distinct_conv_sum_set [symmetric])
  finally show ?thesis using assms(4) by (simp add: comp_def cong: map_cong)
qed

lemma plan_tasks_bounded:
  assumes "distinct_keys (JObj d)" "plan_inputs d workflow_input compiled input digest order"
  shows "length (plan_tasks compiled repo gen digest order) \<le> 16"
proof -
  note valid = plan_inputs_ok(1) [OF assms] and order = plan_order [OF assms]
  have readable: "readable_stages (stages_of compiled)" by (rule validated_graph(1) [OF valid])
  let ?rows = "\<lambda>sid. length (matrix_rows (stage_at (stage_by_id (stages_of compiled)) sid))"
  have "length (plan_tasks compiled repo gen digest order) = sum_list (map ?rows order)"
    using arg_cong [OF plan_tasks_rows [of compiled repo gen digest order], of length]
    by (simp add: length_concat comp_def)
  also have "\<dots> = sum_list (map (length \<circ> matrix_rows) (stages_of compiled))"
    using order(1,2) readable stage_by_id_at(2) [OF readable]
    by (intro sum_over_ids [where g = stage_id]) (auto simp: readable_stages_def)
  finally have len: "length (plan_tasks compiled repo gen digest order) = sum_list (map (length \<circ> matrix_rows) (stages_of compiled))" .
  have "int (sum_list (map (length \<circ> matrix_rows) xs)) = sum_list (map agent_count xs)"
    if "set xs \<subseteq> set (stages_of compiled)" for xs
    using that validate_stage_matrix_Inr(3) [OF validated_stage(2) [OF valid]] by (induction xs) auto
  then show ?thesis using validated_facts(8) [OF valid] len by fastforce
qed

end
