(* ===== verification/WorkflowDemo.thy ===== *)
theory WorkflowDemo
  imports WorkflowReplay WorkflowPlanFacts
begin

text \<open>
  A concrete workflow for the witnesses of the properties: an author with two matrix rows, a
  verifier and a skeptic that depend on it.  The keys of every object are in canonical order, so
  the definition is its own canonical copy; its digest is left as a term.
\<close>

definition demo_stage :: "string \<Rightarrow> int \<Rightarrow> string list \<Rightarrow> string \<Rightarrow> string \<Rightarrow> string \<Rightarrow> nat \<Rightarrow> string list \<Rightarrow>
    string list \<Rightarrow> json \<Rightarrow> dict" where
  "demo_stage sid idx deps kind actor mode rows permissions paths effect =
     [(''actor_identity'', JStr actor), (''agent_count'', JInt (int rows)),
      (''artifact_contract'', JObj [(''paths'', JList []), (''required'', JBool False), (''schema'', JObj [])]),
      (''capability_mode'', JStr mode), (''declaration_index'', JInt idx),
      (''depends_on'', JList (map JStr deps)), (''effect_type'', effect), (''id'', JStr sid),
      (''kind'', JStr kind), (''matrix'', JList (replicate rows (JObj []))), (''mcp_allowlist'', JList []),
      (''output_schema'', JObj [(''type'', JStr ''object'')]), (''permissions'', JList (map JStr permissions)),
      (''retry_budget'', JInt 1), (''role'', JStr ''worker''), (''timeout_seconds'', JInt 60),
      (''verification_argv'', JList []), (''write_paths'', JList (map JStr paths))]"

definition demo_author :: dict where
  "demo_author = demo_stage ''write'' 0 [] ''author'' ''alice'' ''read-write'' 2
     [''read_repository'', ''write_declared_paths''] [''src/a.txt''] JNull"

definition demo_verifier :: dict where
  "demo_verifier = demo_stage ''verify'' 1 [''write''] ''verifier'' ''bob'' ''read-only'' 1 [''read_repository''] [] JNull"

definition demo_skeptic :: dict where
  "demo_skeptic = demo_stage ''doubt'' 2 [''write''] ''skeptic'' ''carol'' ''read-only'' 1 [''read_repository''] [] JNull"

definition demo_stages :: "dict list" where
  "demo_stages = [demo_author, demo_verifier, demo_skeptic]"

definition demo_with :: "string \<Rightarrow> json \<Rightarrow> dict" where
  "demo_with version digest =
     [(''contract'', JStr WORKFLOW_CONTRACT), (''definition_digest'', digest),
      (''input_schema'', JObj [(''type'', JStr ''object'')]), (''max_parallelism'', JInt 2),
      (''migration'', JObj [(''review_digest'', JNull), (''supersedes_digest'', JNull), (''supersedes_version'', JNull)]),
      (''name'', JStr ''demo''),
      (''native_projection'', JObj [(''fresh_invocation_evidence'', JNull), (''probe_evidence'', JNull),
         (''provider'', JStr ''grok''), (''status'', JStr ''optional_unclaimed''), (''syntax'', JNull)]),
      (''ship_rule'', JObj [(''predicate'', JStr SHIP_PREDICATE),
         (''required_stages'', JList [JStr ''write'', JStr ''verify'', JStr ''doubt'']),
         (''skeptic_stage'', JStr ''doubt''), (''verifier_stage'', JStr ''verify'')]),
      (''stages'', JList (map JObj demo_stages)), (''workflow_version'', JStr version)]"

definition demo_digest :: string where
  "demo_digest = (case digest_of (JObj (ddel (demo_with ''1.0.0'' JNull) ''definition_digest'')) of Inr h \<Rightarrow> h | Inl e \<Rightarrow> [])"

definition demo :: dict where
  "demo = demo_with ''1.0.0'' (JStr demo_digest)"

definition demo_input :: json where
  "demo_input = JObj []"

section \<open>The demonstration definition is accepted\<close>

lemma demo_stage_valid:
  "validate_stage (JObj demo_author) = Inr demo_author"
  "validate_stage (JObj demo_verifier) = Inr demo_verifier"
  "validate_stage (JObj demo_skeptic) = Inr demo_skeptic"
  by code_simp+

lemma demo_order: "deterministic_topological_order demo_stages = Inr [''write'', ''verify'', ''doubt'']"
  by code_simp

lemma demo_graph: "validate_stage_graph demo_stages = Inr ()" "sum_list (map agent_count demo_stages) = 4"
  by code_simp+

lemma demo_reviewed: "validate_actors demo_stages = Inr ()"
  "validate_ship_rule (demo_with v h) demo_stages = Inr ()"
  "validate_migration (demo_with v h) = Inr ()" "validate_projection (demo_with v h) = Inr ()"
  by code_simp+

lemma demo_keys: "require_exact_keys (demo_with v h) DEFINITION_KEYS [] = Inr ()"
  by code_simp

lemma demo_fields [simp]:
  "dget (demo_with v h) ''stages'' = JList (map JObj demo_stages)" "dget (demo_with v h) ''contract'' = JStr WORKFLOW_CONTRACT"
  "dget (demo_with v h) ''name'' = JStr ''demo''" "dget (demo_with v h) ''workflow_version'' = JStr v"
  "dget (demo_with v h) ''definition_digest'' = h" "dget (demo_with v h) ''max_parallelism'' = JInt 2"
  "dget (demo_with v h) ''input_schema'' = JObj [(''type'', JStr ''object'')]"
  by (simp_all add: demo_with_def)

lemma demo_ddel: "ddel (demo_with v h) ''definition_digest'' = ddel (demo_with v JNull) ''definition_digest''"
  by (simp add: demo_with_def ddel_def)

lemma demo_canonical_ok: "canonical_ok (JObj (demo_with v JNull))"
  by code_simp

lemma demo_digest_of: "digest_of (JObj (ddel (demo_with ''1.0.0'' JNull) ''definition_digest'')) = Inr demo_digest"
proof -
  have "canonical_ok (JObj (ddel (demo_with ''1.0.0'' JNull) ''definition_digest''))"
    using demo_canonical_ok [of "''1.0.0''"] by (auto simp: ddel_def list_all_iff)
  then show ?thesis by (simp add: demo_digest_def digest_of_def canonical_json_bytes_def del: canonical_ok.simps)
qed

lemma demo_names: "WORKFLOW_NAME_RE ''demo''" "SEMVER_RE ''1.0.0''"
  "require_nonempty_string (JStr ''demo'') = Inr ''demo''" "require_nonempty_string (JStr ''1.0.0'') = Inr ''1.0.0''"
  by code_simp+

lemma demo_header: "validate_header demo = Inr ()"
  using demo_digest_of
  by (simp add: validate_header_def demo_def workflow_definition_digest_def demo_names demo_ddel [of _ "JStr demo_digest"]
      require_object_def)

lemma mapE_demo: "mapE validate_stage (map JObj demo_stages) = Inr demo_stages"
  by (simp add: demo_stages_def demo_stage_valid)

lemma demo_validate_stages: "validate_stages (demo_with v h) = Inr demo_stages"
proof -
  have "demo_stages \<noteq> []" "length demo_stages = 3" by (simp_all add: demo_stages_def)
  then show ?thesis
    by (simp add: validate_stages_def rows_of_def mapE_demo demo_graph demo_order require_integer_def
        MAX_STAGES_def MAX_PARALLELISM_def MAX_WORKFLOW_AGENTS_def)
qed

lemma demo_valid: "validate_workflow_definition (JObj demo) = Inr demo"
  using demo_header
  by (simp add: validate_workflow_definition_def require_object_def demo_def demo_keys demo_validate_stages demo_reviewed)

lemma demo_stages_of [simp]: "stages_of (demo_with v h) = demo_stages" "stages_of demo = demo_stages"
  by (simp_all add: stages_of_def rows_of_def demo_def comp_def)

lemma demo_distinct_keys: "distinct_keys (JObj (demo_with v JNull))"
  by code_simp

lemma demo_copy: "canonical_copy (JObj (demo_with v JNull)) = JObj (demo_with v JNull)"
  by code_simp

lemma demo_is_canonical:
  "distinct_keys (JObj demo)" "canonical_ok (JObj demo)" "canonical_copy (JObj demo) = JObj demo"
proof -
  show "distinct_keys (JObj demo)"
    using demo_distinct_keys [of "''1.0.0''"] by (simp add: demo_def demo_with_def)
  show "canonical_ok (JObj demo)"
    using demo_canonical_ok [of "''1.0.0''"] by (simp add: demo_def demo_with_def)
  show "canonical_copy (JObj demo) = JObj demo"
    using demo_copy [of "''1.0.0''"] by (simp add: demo_def demo_with_def)
qed

lemma demo_schemas: "validate_schema_shape (JObj [(''type'', JStr ''object'')]) = Inr ()"
  "list_all (\<lambda>stage. check_stage_schemas stage = Inr ()) demo_stages"
  by code_simp+

lemma demo_input_schema: "dget demo ''input_schema'' = JObj [(''type'', JStr ''object'')]"
  by (simp add: demo_def)

lemma demo_compiles: "compile_workflow demo = Inr demo"
  unfolding compile_workflow_Inr [OF demo_is_canonical(1)] demo_is_canonical(3) demo_stages_of demo_input_schema
  using demo_is_canonical(2) demo_valid demo_schemas unfolding list_all_iff by blast

lemma demo_input_valid: "validate_workflow_input demo demo_input = Inr demo_input"
proof -
  have "reload demo_input = Inr demo_input" by (subst reload_Inr) (simp_all add: demo_input_def)
  moreover have "validate_json_schema demo_input (JObj [(''type'', JStr ''object'')]) = Inr ()"
    by code_simp
  ultimately show ?thesis
    by (simp add: validate_workflow_input_def demo_compiles demo_input_schema) (simp add: demo_input_def)
qed

definition demo_input_digest :: string where
  "demo_input_digest = (case digest_of demo_input of Inr h \<Rightarrow> h | Inl e \<Rightarrow> [])"

lemma demo_plan_inputs:
  "plan_inputs demo demo_input demo demo_input demo_input_digest [''write'', ''verify'', ''doubt'']"
  using demo_compiles demo_input_valid demo_order
  by (simp add: plan_inputs_def demo_input_digest_def)
    (simp add: demo_input_def digest_of_def canonical_json_bytes_def)

lemma demo_run: "run_valid ''OMG'' 0"
  by (simp add: run_valid_def)

end
