(* ===== verification/WorkflowSafety.thy ===== *)
theory WorkflowSafety
  imports WorkflowDemo
begin

text \<open>
  The properties of the workflow contract: canonical bytes, the order of the stages, what an
  accepted definition guarantees, schemas, admission, the plan and the assessment of a journal.
  Each is a few steps over the facts of the component theories, and each has a witness on the
  demonstration definition or on a small value.
\<close>

section \<open>Canonical bytes\<close>

lemma parse_accepts_canonical:
  "parse_canonical_json_bytes c = Inr u \<Longrightarrow> canonical_json_bytes u = Inr c"
  by (auto simp: parse_canonical_json_bytes_def split: option.splits prod.splits list.splits if_splits)

text \<open>C26: the canonical encoding is faithful: decoding what was encoded gives the value back with its keys
  in order, two values have the same bytes exactly when these copies are equal (so digests are taken
  of the value and nothing else), and the decoder accepts no bytes but the canonical ones.\<close>

theorem canonical_json_roundtrip:
  assumes "distinct_keys v" "distinct_keys w"
    and "canonical_json_bytes v = Inr a" "canonical_json_bytes w = Inr b"
  shows "parse_canonical_json_bytes a = Inr (canonical_copy v)
    \<and> (a = b \<longleftrightarrow> canonical_copy v = canonical_copy w)
    \<and> (\<forall>c u. parse_canonical_json_bytes c = Inr u \<longrightarrow> canonical_json_bytes u = Inr c)"
proof -
  have va: "parse_canonical_json_bytes a = Inr (canonical_copy v)"
    and wb: "parse_canonical_json_bytes b = Inr (canonical_copy w)"
    using assms parse_encoded by blast+
  moreover have "a = b" if "canonical_copy v = canonical_copy w"
    using that assms(3,4) canonical_json_bytes_copy [of v] canonical_json_bytes_copy [of w] by simp
  ultimately show ?thesis using parse_accepts_canonical by auto
qed

lemma canonical_sample:
  "canonical_copy (JObj [(''b'', JInt 2), (''a'', JList [JBool True, JStr ''x''])])
     = JObj [(''a'', JList [JBool True, JStr ''x'']), (''b'', JInt 2)]"
  by code_simp

theorem canonical_json_roundtrip_witness:
  "parse_canonical_json_bytes (utf8 (canonical_text (JObj [(''b'', JInt 2), (''a'', JList [JBool True, JStr ''x''])])))
     = Inr (JObj [(''a'', JList [JBool True, JStr ''x'']), (''b'', JInt 2)])"
  using canonical_json_roundtrip [of "JObj [(''b'', JInt 2), (''a'', JList [JBool True, JStr ''x''])]"
      "JObj [(''b'', JInt 2), (''a'', JList [JBool True, JStr ''x''])]"
      "utf8 (canonical_text (JObj [(''b'', JInt 2), (''a'', JList [JBool True, JStr ''x''])]))"
      "utf8 (canonical_text (JObj [(''b'', JInt 2), (''a'', JList [JBool True, JStr ''x''])]))"]
    canonical_sample
  by (simp add: canonical_json_bytes_def del: canonical_text.simps canonical_copy.simps)

section \<open>The order of the stages\<close>

text \<open>C11: the order of the stages is computed exactly when no dependency is stale and the dependencies have
  no cycle, and is an error otherwise; it lists every stage once, every stage after all the stages
  it depends on, and always the one declared first among those that could come next.\<close>

theorem topological_order_correct:
  assumes "readable_stages stages"
  shows "case deterministic_topological_order stages of
      Inl e \<Rightarrow> e = ContractValidationError \<and> (stale_dependency stages \<or> \<not> acyclic (stage_dependency stages))
    | Inr order \<Rightarrow> \<not> stale_dependency stages \<and> acyclic (stage_dependency stages)
        \<and> distinct order \<and> set order = set (map stage_id stages) \<and> first_startable stages order"
proof (cases "deterministic_topological_order stages")
  case (Inl e)
  then show ?thesis using topological_order_cases [OF assms] by (auto split: if_splits)
next
  case (Inr order)
  then show ?thesis
    using topological_order_cases [OF assms] topological_order_Inr [OF assms Inr] by (auto split: if_splits)
qed

theorem topological_order_correct_witness:
  "first_startable demo_stages [''write'', ''verify'', ''doubt''] \<and> acyclic (stage_dependency demo_stages)"
  using topological_order_correct [of demo_stages] demo_order validated_graph(1) [OF demo_valid] by simp

text \<open>the order depends on the stages and not on the order in which the definition lists them.\<close>

theorem topological_order_ignores_listing:
  assumes "readable_stages stages" "mset stages' = mset stages"
  shows "deterministic_topological_order stages' = deterministic_topological_order stages"
proof -
  have same: "set stages' = set stages" using assms(2) by (rule mset_eq_setD)
  have readable: "readable_stages stages'"
    using assms same unfolding readable_stages_def list_all_iff by (metis mset_eq_imp_distinct_iff mset_map)
  have rest: "stale_dependency stages' = stale_dependency stages" "stage_dependency stages' = stage_dependency stages"
    by (simp_all add: stale_dependency_def stage_dependency_def same)
  have "topo_order (map node_of stages') = topo_order (map node_of stages)" if "\<not> stale_dependency stages"
    using graph_ok_nodes [OF assms(1) that] assms(2) by (intro topo_order_perm) simp_all
  then show ?thesis
    unfolding topological_order_cases [OF assms(1)] topological_order_cases [OF readable] rest by simp
qed

theorem topological_order_ignores_listing_witness:
  "deterministic_topological_order [demo_skeptic, demo_author, demo_verifier] = Inr [''write'', ''verify'', ''doubt'']"
  using topological_order_ignores_listing [of demo_stages "[demo_skeptic, demo_author, demo_verifier]"]
    demo_order validated_graph(1) [OF demo_valid] by (simp add: demo_stages_def add_mset_commute)

section \<open>An accepted definition\<close>

definition stage_kind :: "dict \<Rightarrow> string" where
  "stage_kind stage = text_of (dget stage ''kind'')"

definition stage_actor :: "dict \<Rightarrow> string" where
  "stage_actor stage = text_of (dget stage ''actor_identity'')"

definition review_kinds :: "string set" where
  "review_kinds = {''author'', ''verifier'', ''skeptic''}"

lemma actors_iff:
  assumes "validate_workflow_definition v = Inr d"
  shows "set (actors (stages_of d) kind) = stage_actor ` {stage \<in> set (stages_of d). stage_kind stage = kind}"
proof -
  have "text_in (dget stage ''kind'') [kind] \<longleftrightarrow> stage_kind stage = kind" if "stage \<in> set (stages_of d)" for stage
    using validate_stage_identity_Inr(7) [OF validated_stage(1) [OF assms that]]
    by (auto simp: text_in_iff stage_kind_def text_val_Some)
  then show ?thesis by (auto simp: actors_def stage_actor_def)
qed

text \<open>C25: an accepted definition has an author, a verifier and a skeptic, and no identity holds two of these
  roles, so nobody reviews their own work; the verifier and the skeptic the ship rule names are stages of
  those kinds, and the rule requires every stage.\<close>

theorem validated_definition_reviewed:
  assumes "validate_workflow_definition v = Inr d"
  shows "(\<forall>kind \<in> review_kinds. \<exists>stage \<in> set (stages_of d). stage_kind stage = kind)
    \<and> (\<forall>s \<in> set (stages_of d). \<forall>s' \<in> set (stages_of d). stage_kind s \<in> review_kinds \<longrightarrow> stage_kind s' \<in> review_kinds \<longrightarrow>
         stage_kind s \<noteq> stage_kind s' \<longrightarrow> stage_actor s \<noteq> stage_actor s')
    \<and> (\<exists>ship. dget d ''ship_rule'' = JObj ship
         \<and> set (strings (dget ship ''required_stages'')) = set (map stage_id (stages_of d))
         \<and> (\<exists>s \<in> set (stages_of d). text_val (dget ship ''verifier_stage'') = Some (stage_id s) \<and> stage_kind s = ''verifier'')
         \<and> (\<exists>s \<in> set (stages_of d). text_val (dget ship ''skeptic_stage'') = Some (stage_id s) \<and> stage_kind s = ''skeptic''))"
    (is "?roles \<and> ?disjoint \<and> ?ship")
proof (intro conjI)
  have some: "actors (stages_of d) kind \<noteq> []" if "kind \<in> review_kinds" for kind
    using validated_stages(2) [OF assms] that by (auto simp: validate_actors_def result_simps review_kinds_def)
  have "{stage \<in> set (stages_of d). stage_kind stage = kind} \<noteq> {}" if "kind \<in> review_kinds" for kind
    using some [OF that] actors_iff [OF assms, of kind] by (metis image_empty set_empty)
  then show ?roles by blast
  have "set (actors (stages_of d) k) \<inter> set (actors (stages_of d) k') = {}"
    if "k \<in> review_kinds" "k' \<in> review_kinds" "k \<noteq> k'" for k k'
    using validated_stages(2) [OF assms] that by (auto simp: validate_actors_def result_simps review_kinds_def)
  then show ?disjoint unfolding actors_iff [OF assms] by blast
  have kind: "text_in (dget s ''kind'') [k] \<Longrightarrow> stage_kind s = k" for s k
    by (auto simp: text_in_iff stage_kind_def text_val_Some)
  obtain ship u1 u2 u3 where obj: "dget d ''ship_rule'' = JObj ship"
    and req: "(case dget ship ''required_stages'' of
         JList xs \<Rightarrow> if list_ex unhashable_json xs then Inl (Raised TypeError)
           else require (list_all is_str xs \<and> set (map text_of xs) = set (map stage_id (stages_of d)))
       | _ \<Rightarrow> Inl ContractValidationError) = Inr u1"
    and v: "stage_of_kind (stages_of d) (dget ship ''verifier_stage'') ''verifier'' = Inr u2"
    and k: "stage_of_kind (stages_of d) (dget ship ''skeptic_stage'') ''skeptic'' = Inr u3"
    using validated_stages(3) [OF assms]
    unfolding validate_ship_rule_def bindE_eq_Inr require_object_Inr by (elim exE conjE)
  obtain xs where ship: "dget d ''ship_rule'' = JObj ship" "dget ship ''required_stages'' = JList xs"
    "list_all is_str xs" "set (map text_of xs) = set (map stage_id (stages_of d))"
    using obj req by (cases "dget ship ''required_stages''") (auto simp: result_simps split: if_splits)
  have "set (strings (dget ship ''required_stages'')) = set (map stage_id (stages_of d))"
    using ship(3,4) by (simp add: ship(2) strings_def list_all_iff filter_True)
  moreover have "\<exists>s \<in> set (stages_of d). text_val w = Some (stage_id s) \<and> stage_kind s = kd"
    if "stage_of_kind (stages_of d) w kd = Inr u" for w kd u
    using that kind by (auto simp: stage_of_kind_def result_simps list_ex_iff text_in_iff split: if_splits)
  ultimately show ?ship using ship(1) v k by blast
qed

theorem validated_definition_reviewed_witness:
  "\<exists>stage \<in> set (stages_of demo). stage_kind stage = ''skeptic''"
  using validated_definition_reviewed [OF demo_valid] by (auto simp: review_kinds_def)

definition artifact_paths :: "dict \<Rightarrow> string list" where
  "artifact_paths stage = strings (dget (dict_of (dget stage ''artifact_contract'')) ''paths'')"

definition stage_capability :: "dict \<Rightarrow> string" where
  "stage_capability stage = text_of (dget stage ''capability_mode'')"

lemma validated_artifact_paths:
  assumes "validate_stage_artifact stage = Inr u"
  shows "list_all path_confined (artifact_paths stage)"
proof -
  obtain a xs ps where "dget stage ''artifact_contract'' = JObj a" "dget a ''paths'' = JList xs"
    "mapE safe_repo_path xs = Inr ps"
    using assms by (auto simp: validate_stage_artifact_def result_simps require_simps rows_of_def)
  then show ?thesis using repo_paths by (auto simp: artifact_paths_def)
qed

text \<open>C28: a stage of an accepted definition asks for allowed permissions only and never for a forbidden
  one; every path it may write or must produce is relative, has no parent step and lies outside the
  authority roots, component by component; a read-only stage writes nothing; an effect needs the permission to
  reconcile it and is never a release or a publication; it runs one agent per matrix row, sixteen at most.\<close>

theorem validated_stage_confined:
  assumes "validate_workflow_definition v = Inr d" "stage \<in> set (stages_of d)"
  shows "set (stage_permissions stage) \<subseteq> set ALLOWED_PERMISSIONS
    \<and> set (stage_permissions stage) \<inter> set FORBIDDEN_PERMISSIONS = {}
    \<and> list_all path_confined (write_paths stage @ artifact_paths stage)
    \<and> (stage_capability stage = ''read-only'' \<longrightarrow> write_paths stage = [] \<and> ''write_declared_paths'' \<notin> set (stage_permissions stage))
    \<and> (dget stage ''effect_type'' \<noteq> JNull \<longrightarrow> ''reconcile_declared_effect'' \<in> set (stage_permissions stage)
         \<and> (\<exists>e. text_val (dget stage ''effect_type'') = Some e \<and> \<not> contains e ''release'' \<and> \<not> contains e ''publish''))
    \<and> agent_count stage = int (length (matrix_rows stage)) \<and> 1 \<le> length (matrix_rows stage)
    \<and> length (matrix_rows stage) \<le> 16"
proof -
  note parts = validated_stage [OF assms]
  note perms = validate_stage_permissions_Inr [OF parts(4)]
  have "list_all path_confined (write_paths stage @ artifact_paths stage)"
    using validate_stage_targets_Inr(2) [OF parts(3)] validated_artifact_paths [OF parts(5)] by simp
  moreover have "text_in (dget stage ''capability_mode'') [''read-only''] \<longleftrightarrow> stage_capability stage = ''read-only''"
    using validate_stage_identity_Inr(9) [OF parts(1)]
    by (auto simp: text_in_iff stage_capability_def text_val_Some)
  ultimately show ?thesis
    using perms(1,2,4) validate_stage_effect_Inr [OF parts(6)] validate_stage_matrix_Inr [OF parts(2)]
    by (auto simp: Suc_le_eq)
qed

theorem validated_stage_confined_witness: "list_all path_confined (write_paths demo_author @ artifact_paths demo_author)"
  using validated_stage_confined [OF demo_valid, of demo_author] by (simp add: demo_stages_def)

lemma validated_header:
  assumes "validate_workflow_definition v = Inr d"
  shows "\<exists>h. digest_of (JObj (ddel d ''definition_digest'')) = Inr h \<and> text_val (dget d ''definition_digest'') = Some h"
    "\<exists>s. text_val (dget d ''workflow_version'') = Some s \<and> SEMVER_RE s"
  using validated_parts [OF assms]
  by (auto simp: validate_header_def result_simps require_simps text_in_iff workflow_definition_digest_def)

lemma validated_migration:
  assumes "validate_workflow_definition v = Inr d"
  obtains m where "dget d ''migration'' = JObj m"
    "dget m ''supersedes_version'' \<noteq> JNull \<Longrightarrow> \<exists>h. text_val (dget m ''review_digest'') = Some h \<and> SHA256_RE h"
proof -
  have "validate_migration d = Inr ()" using validated_parts [OF assms] by blast
  then show ?thesis
    using that by (auto simp: validate_migration_def result_simps require_simps split: if_splits)
qed

text \<open>a new version of a workflow is accepted beside an installed one only when it is the very same
  bytes under the same version, or another version whose migration names the installed version and its
  digest and carries the digest of a review.\<close>

theorem installed_version_immutable:
  assumes "ensure_immutable_same_version installed candidate = Inr u"
  shows "\<exists>old new m. installed = JObj old \<and> candidate = JObj new \<and> dget new ''migration'' = JObj m
    \<and> text_val (dget old ''name'') = text_val (dget new ''name'')
    \<and> (if text_val (dget old ''workflow_version'') = text_val (dget new ''workflow_version'')
       then digest_of (JObj (ddel old ''definition_digest'')) = digest_of (JObj (ddel new ''definition_digest''))
       else text_val (dget m ''supersedes_version'') = text_val (dget old ''workflow_version'')
          \<and> text_val (dget m ''supersedes_digest'') = text_val (dget old ''definition_digest'')
          \<and> (\<exists>h. text_val (dget m ''review_digest'') = Some h \<and> SHA256_RE h))"
proof -
  obtain old new where old: "validate_workflow_definition installed = Inr old"
    and new: "validate_workflow_definition candidate = Inr new"
    using assms unfolding ensure_immutable_same_version_def bindE_eq_Inr by blast
  obtain m where m: "dget new ''migration'' = JObj m"
    "dget m ''supersedes_version'' \<noteq> JNull \<Longrightarrow> \<exists>h. text_val (dget m ''review_digest'') = Some h \<and> SHA256_RE h"
    using validated_migration [OF new] by blast
  have rest: "text_val (dget old ''name'') = text_val (dget new ''name'')"
    "if text_val (dget old ''workflow_version'') = text_val (dget new ''workflow_version'')
     then text_val (dget old ''definition_digest'') = text_val (dget new ''definition_digest'')
     else text_val (dget m ''supersedes_version'') = text_val (dget old ''workflow_version'')
       \<and> text_val (dget m ''supersedes_digest'') = text_val (dget old ''definition_digest'')"
    using assms m(1)
    by (auto simp: ensure_immutable_same_version_def old new same_text_def result_simps split: if_splits)
  have "dget m ''supersedes_version'' \<noteq> JNull"
    if "text_val (dget m ''supersedes_version'') = text_val (dget old ''workflow_version'')"
    using that validated_header(2) [OF old] by auto
  then show ?thesis
    using rest m validated_header(1) [OF old] validated_header(1) [OF new]
      validated_parts [OF old] validated_parts [OF new] by (auto split: if_splits)
qed

theorem installed_version_immutable_witness:
  "ensure_immutable_same_version (JObj demo) (JObj demo) = Inr () \<and> (\<exists>m. dget demo ''migration'' = JObj m)"
proof -
  have "ensure_immutable_same_version (JObj demo) (JObj demo) = Inr ()"
    by (simp add: ensure_immutable_same_version_def demo_valid same_text_def)
  then show ?thesis using installed_version_immutable [of "JObj demo" "JObj demo"] by auto
qed

section \<open>Schemas\<close>



section \<open>Admission\<close>

definition granted :: "dict \<Rightarrow> string list \<Rightarrow> string list \<Rightarrow> string list \<Rightarrow> string list option \<Rightarrow> string list option \<Rightarrow> bool" where
  \<comment> \<open>every permission, server and path the stage declares is granted by everyone who may refuse it\<close>
  "granted stage policy host receipt mcp paths \<longleftrightarrow>
     set (strings (dget stage ''permissions'')) \<subseteq> set policy \<inter> set host \<inter> set receipt
     \<and> (case mcp of None \<Rightarrow> True | Some xs \<Rightarrow> set (strings (dget stage ''mcp_allowlist'')) \<subseteq> set xs)
     \<and> (case paths of None \<Rightarrow> True | Some xs \<Rightarrow> set (strings (dget stage ''write_paths'')) \<subseteq> set xs)"

lemma denied_Nil: "denied vs allowed = [] \<longleftrightarrow> (case allowed of None \<Rightarrow> True | Some xs \<Rightarrow> set (strings vs) \<subseteq> set xs)"
  by (auto simp: denied_def filter_empty_conv split: option.split)

lemma admit_stage_Inr:
  assumes "admit_stage stage policy host receipt mcp paths = Inr a"
  shows "a_allowed a \<longleftrightarrow> granted stage policy host receipt mcp paths"
    and "set (a_effective a) = set (a_declared a) \<inter> set policy \<inter> set host \<inter> set receipt"
    and "set (a_declared a) \<subseteq> set ALLOWED_PERMISSIONS"
    and "a_declared a = strings (dget stage ''permissions'')"
  using assms
  by (auto simp: admit_stage_def effective_permissions_def Let_def result_simps granted_def denied_Nil
      filter_empty_conv)

text \<open>a definition is admitted exactly when each of its stages is granted everything it declares by the
  repository policy, the host and the launch receipt, and by the server and path allow-lists where they
  are given; what a stage may effectively use is what it declares and all three grant, never more.\<close>

theorem admission_needs_every_grant:
  assumes "admit_definition d policy host receipt mcp paths = Inr (allowed, rows)"
  shows "(allowed \<longleftrightarrow> (\<forall>stage \<in> set (stages_of d). granted stage policy host receipt mcp paths))
    \<and> (\<forall>a \<in> set rows. set (a_effective a) = set (a_declared a) \<inter> set policy \<inter> set host \<inter> set receipt
           \<and> set (a_declared a) \<subseteq> set ALLOWED_PERMISSIONS)"
proof -
  let ?admit = "\<lambda>stage. admit_stage stage policy host receipt mcp paths"
  have rows: "mapE ?admit (stages_of d) = Inr rows" and allowed: "allowed = list_all a_allowed rows"
    using assms by (auto simp: admit_definition_def result_simps)
  have "\<exists>stage \<in> set (stages_of d). ?admit stage = Inr a" if "a \<in> set rows" for a
    using mapE_set [OF rows that] .
  moreover have "\<exists>a \<in> set rows. ?admit stage = Inr a" if "stage \<in> set (stages_of d)" for stage
    using mapE_all [OF rows that] .
  ultimately show ?thesis
    unfolding allowed list_all_iff by (intro conjI iffI ballI) (metis admit_stage_Inr(1-3))+
qed

theorem admission_needs_every_grant_witness:
  "\<exists>rows. admit_definition demo [''read_repository''] ALLOWED_PERMISSIONS ALLOWED_PERMISSIONS None None = Inr (False, rows)
     \<and> \<not> granted demo_author [''read_repository''] ALLOWED_PERMISSIONS ALLOWED_PERMISSIONS None None"
proof -
  have "case admit_definition demo [''read_repository''] ALLOWED_PERMISSIONS ALLOWED_PERMISSIONS None None of
      Inr (allowed, rows) \<Rightarrow> \<not> allowed | Inl e \<Rightarrow> False"
    unfolding admit_definition_def demo_stages_of by code_simp
  then obtain rows where rows: "admit_definition demo [''read_repository''] ALLOWED_PERMISSIONS ALLOWED_PERMISSIONS None None
      = Inr (False, rows)" by (auto split: sum.splits)
  moreover have "\<not> granted demo_author [''read_repository''] ALLOWED_PERMISSIONS ALLOWED_PERMISSIONS None None"
    by code_simp
  moreover note admission_needs_every_grant [OF rows]
  ultimately show ?thesis by blast
qed

section \<open>The plan\<close>

text \<open>C30: for every definition that compiles, input that its schema accepts and valid repository and
  generation there is a plan: no lookup of the planner fails. It has exactly one task for every matrix
  row of every stage, in the order of the stages, and sixteen at most.\<close>

theorem plan_total_and_complete:
  assumes "distinct_keys (JObj d)" "run_valid repo gen"
    and "compile_workflow d = Inr compiled" "validate_workflow_input compiled workflow_input = Inr input"
  shows "\<exists>plan order. build_plan d workflow_input repo gen = Inr plan
    \<and> deterministic_topological_order (stages_of compiled) = Inr order
    \<and> map (\<lambda>t. (task_stage t, dget t ''matrix_index'')) (tasks_of plan) =
        concat (map (\<lambda>sid. map (\<lambda>i. (sid, JInt (int i)))
          [0..<length (matrix_rows (stage_at (stage_by_id (stages_of compiled)) sid))]) order)
    \<and> length (tasks_of plan) \<le> 16"
proof -
  have valid: "validate_workflow_definition (JObj compiled) = Inr compiled"
    using assms(3) compile_workflow_Inr [OF assms(1)] by blast
  obtain order where "deterministic_topological_order (stages_of compiled) = Inr order"
    using validated_order [OF valid] by blast
  moreover obtain digest where "digest_of input = Inr digest"
  proof -
    have "reload workflow_input = Inr input"
      using assms(4) by (auto simp: validate_workflow_input_def result_simps)
    then obtain b where "canonical_json_bytes input = Inr b"
      using parse_accepts_canonical by (auto simp: reload_def result_simps)
    then show ?thesis using that by (simp add: digest_of_def)
  qed
  ultimately have inputs: "plan_inputs d workflow_input compiled input digest order"
    using assms(3,4) by (simp add: plan_inputs_def)
  obtain levels plan where "build_plan d workflow_input repo gen = Inr plan"
    "tasks_of plan = plan_tasks compiled repo gen digest order"
    by (rule build_plan_total [OF assms(1,2) inputs])
  then show ?thesis
    using inputs plan_tasks_rows plan_tasks_bounded [OF assms(1) inputs] by (auto simp: plan_inputs_def)
qed

theorem plan_total_and_complete_witness:
  "\<exists>plan. build_plan demo demo_input ''OMG'' 0 = Inr plan \<and> map (\<lambda>t. (task_stage t, dget t ''matrix_index'')) (tasks_of plan)
     = [(''write'', JInt 0), (''write'', JInt 1), (''verify'', JInt 0), (''doubt'', JInt 0)]"
proof -
  have rows: "concat (map (\<lambda>sid. map (\<lambda>i. (sid, JInt (int i)))
      [0..<length (matrix_rows (stage_at (stage_by_id demo_stages) sid))]) [''write'', ''verify'', ''doubt''])
    = [(''write'', JInt 0), (''write'', JInt 1), (''verify'', JInt 0), (''doubt'', JInt 0)]"
    by code_simp
  show ?thesis
    using plan_total_and_complete [OF demo_is_canonical(1) demo_run demo_compiles demo_input_valid]
    unfolding demo_stages_of demo_order using rows by auto
qed

text \<open>C7: the waves of a plan hold every task as often as the plan lists it, no wave is empty, and every task a
  task depends on stands in an earlier wave than the task.\<close>

theorem waves_respect_dependencies:
  assumes "distinct_keys (JObj d)" "run_valid repo gen" "build_plan d workflow_input repo gen = Inr plan"
  shows "mset (concat (waves_of plan)) = mset (map task_id (tasks_of plan)) \<and> [] \<notin> set (waves_of plan)
    \<and> (\<forall>t \<in> set (tasks_of plan). \<forall>x \<in> set (task_dependencies t). \<exists>i j. i < j \<and> j < length (waves_of plan)
         \<and> x \<in> set (waves_of plan ! i) \<and> task_id t \<in> set (waves_of plan ! j))"
proof -
  obtain compiled input digest order where inputs: "plan_inputs d workflow_input compiled input digest order"
    using assms(3) by (auto simp: build_plan_def result_simps plan_inputs_def input_digest_def)
  obtain levels plan' where built: "build_plan d workflow_input repo gen = Inr plan'"
    and tasks: "tasks_of plan' = plan_tasks compiled repo gen digest order"
    and waves: "waves_of plan' = level_waves (tasks_of plan') levels"
    and levels: "set (map fst levels) = set order" "leveled (stage_by_id (stages_of compiled)) levels"
    by (rule build_plan_total [OF assms(1,2) inputs])
  have "plan' = plan" using built assms(3) by simp
  then show ?thesis
    using waves tasks waves_cover [OF levels(1)] waves_ordered [OF assms(1) inputs levels]
    by (auto simp: level_waves_def)
qed

theorem waves_respect_dependencies_witness:
  "\<exists>plan. build_plan demo demo_input ''OMG'' 0 = Inr plan \<and> [] \<notin> set (waves_of plan)
     \<and> mset (concat (waves_of plan)) = mset (map task_id (tasks_of plan))"
proof -
  obtain plan where "build_plan demo demo_input ''OMG'' 0 = Inr plan"
    using build_plan_total [OF demo_is_canonical(1) demo_run demo_plan_inputs] by metis
  with waves_respect_dependencies [OF demo_is_canonical(1) demo_run this] show ?thesis by blast
qed

section \<open>Replay\<close>

text \<open>a journal is replayable exactly when it has no two rows of a task and every row is of a task of this
  plan with the plan's digests and generation, reports no success and leaves no effect open; no row is ever
  adopted, and a row that reports an unknown effect or is of a task with a declared effect makes the whole
  run an unknown effect.\<close>

theorem replayable_needs_a_quiet_journal:
  assumes "assess_replay plan rows = Inr r"
  shows "adoptable r = [] \<and> (terminal r = ''replayable'' \<longleftrightarrow>
      distinct (map row_task_id rows) \<and> (\<forall>row \<in> set rows. quiet_row plan (tasks_by_id plan) row))
    \<and> terminal r \<in> {''replayable'', ''blocked'', ''effect_unknown''}"
proof -
  let ?st0 = "\<lparr>r_ambiguous = [], r_unknown = [], r_seen = []\<rparr>"
  obtain st where st: "assess_rows plan (tasks_by_id plan) rows ?st0 = Inr st"
    and r: "r = \<lparr>terminal = (if r_unknown st \<noteq> [] then ''effect_unknown''
         else if r_ambiguous st \<noteq> [] then ''blocked'' else ''replayable''),
       adoptable = [], ambiguous = r_ambiguous st, effect_unknown = r_unknown st\<rparr>"
    using assms by (auto simp: assess_replay_def result_simps)
  have "terminal r = ''replayable'' \<longleftrightarrow> clean st" by (simp add: r clean_def)
  then show ?thesis using assess_rows_clean [OF st] by (auto simp: r clean_def)
qed

definition demo_small_plan :: dict where
  "demo_small_plan = [(''tasks'', JList [JObj [(''task_id'', JStr ''t1''), (''effect_type'', JNull),
     (''permissions'', JList [JStr ''read_repository''])]]), (''plan_digest'', JStr ''p''),
     (''definition_digest'', JStr ''d''), (''run_generation'', JInt 0)]"

definition demo_row :: "string \<Rightarrow> dict" where
  "demo_row status = [(''task_id'', JStr ''t1''), (''status'', JStr status), (''plan_digest'', JStr ''p''),
     (''definition_digest'', JStr ''d''), (''run_generation'', JInt 0)]"

theorem replayable_needs_a_quiet_journal_witness:
  "quiet_row demo_small_plan (tasks_by_id demo_small_plan) (demo_row ''failed'')
    \<and> \<not> distinct (map row_task_id [demo_row ''failed'', demo_row ''failed''])"
proof -
  have one: "assess_replay demo_small_plan [demo_row ''failed''] =
      Inr \<lparr>terminal = ''replayable'', adoptable = [], ambiguous = [], effect_unknown = []\<rparr>"
    and two: "assess_replay demo_small_plan [demo_row ''failed'', demo_row ''failed''] =
      Inr \<lparr>terminal = ''blocked'', adoptable = [], ambiguous = [''t1''], effect_unknown = []\<rparr>"
    by code_simp+
  show ?thesis
    using replayable_needs_a_quiet_journal [OF one] replayable_needs_a_quiet_journal [OF two] by simp
qed





end
