(* ===== verification/WorkflowReview.thy ===== *)
theory WorkflowReview
  imports WorkflowReplay
begin

text \<open>
  The result gate (\<open>workflows/review.py\<close>): bounded reads of files below the repository root, the
  evidence a successful task must carry (a launch receipt, the receipts of its verification
  commands and of its artifacts, all re-read or re-computed), the normal form of a task result and
  the review of a run.  The repository is a function from relative paths to files; a path that is
  missing, inaccessible or goes through a symbolic link has none.  A file is read in one step, so
  the test that it did not change while being read always passes.
\<close>

unbundle bit_operations_syntax

section \<open>Constants\<close>

definition RESULT_STATUSES :: "string list" where
  "RESULT_STATUSES = [''passed'', ''approved'', ''failed'', ''blocked'', ''cancelled'', ''interrupted'', ''effect_unknown'']"

definition STATUS_VERDICTS :: "string \<Rightarrow> string list" where
  "STATUS_VERDICTS s =
     (if s = ''passed'' \<or> s = ''approved'' then [''APPROVE'']
      else if s = ''failed'' then [''REJECT'', ''REQUEST_CHANGES'', ''NO_SHIP'']
      else if s = ''blocked'' then [''BLOCKED'', ''NO_SHIP'']
      else if s = ''cancelled'' then [''CANCELLED'']
      else if s = ''interrupted'' then [''INTERRUPTED'']
      else if s = ''effect_unknown'' then [''EFFECT_UNKNOWN''] else [])"

definition VERDICT_DEFAULT_STATUS :: "string \<Rightarrow> string option" where
  "VERDICT_DEFAULT_STATUS v =
     (if v \<in> {''REJECT'', ''REQUEST_CHANGES'', ''NO_SHIP''} then Some ''failed''
      else if v = ''BLOCKED'' then Some ''blocked''
      else if v = ''CANCELLED'' then Some ''cancelled''
      else if v = ''INTERRUPTED'' then Some ''interrupted''
      else if v = ''EFFECT_UNKNOWN'' then Some ''effect_unknown'' else None)"

definition REVIEW_ID_RE :: "string \<Rightarrow> bool" where
  \<comment> \<open>\<open>[A-Za-z0-9][A-Za-z0-9._:@/-]{0,255}\<close>\<close>
  "REVIEW_ID_RE s = (case s of [] \<Rightarrow> False
     | c # cs \<Rightarrow> is_ascii_alnum c \<and> length cs \<le> 255
         \<and> list_all (\<lambda>c. is_id_char c \<or> c = CHR '':'' \<or> c = CHR ''@'' \<or> c = CHR ''/'') cs)"

definition MAX_RECEIPT_STREAM_BYTES :: int where "MAX_RECEIPT_STREAM_BYTES = 1048576"
definition MAX_ARTIFACT_BYTES :: nat where "MAX_ARTIFACT_BYTES = 16777216"

definition SUCCESS_RECEIPT_KEYS :: "string list" where
  "SUCCESS_RECEIPT_KEYS = [''store_kind'', ''schema_version'', ''repository_id'', ''run_id'', ''definition_digest'',
     ''plan_digest'', ''task_id'', ''stage_id'', ''matrix_index'', ''actor_identity'', ''run_generation'', ''status'',
     ''verdict'', ''output'', ''launch_provenance'', ''verification_receipts'', ''artifact_receipts'', ''receipt_hash'']"

definition LAUNCH_PROVENANCE_KEYS :: "string list" where
  "LAUNCH_PROVENANCE_KEYS = [''provider'', ''launch_id'', ''session_id'', ''agent_instance_id'', ''receipt_path'', ''receipt_hash'']"

definition LAUNCH_RECEIPT_KEYS :: "string list" where
  "LAUNCH_RECEIPT_KEYS = [''store_kind'', ''schema_version'', ''provider'', ''repository_id'', ''run_id'', ''definition_digest'',
     ''plan_digest'', ''task_id'', ''stage_id'', ''matrix_index'', ''actor_identity'', ''run_generation'', ''launch_id'',
     ''session_id'', ''agent_instance_id'', ''receipt_hash'']"

definition VERIFICATION_RECEIPT_KEYS :: "string list" where
  "VERIFICATION_RECEIPT_KEYS = [''argv'', ''exit_code'', ''stdout_size'', ''stdout_sha256'', ''stderr_size'', ''stderr_sha256'',
     ''launch_receipt_hash'']"

definition ARTIFACT_RECEIPT_KEYS :: "string list" where
  "ARTIFACT_RECEIPT_KEYS = [''path'', ''size'', ''sha256'', ''schema'', ''schema_digest'', ''content'', ''launch_receipt_hash'']"

section \<open>Equality of JSON values\<close>

fun json_same :: "json \<Rightarrow> json \<Rightarrow> bool" where
  \<comment> \<open>\<open>v == w\<close> on arrays and objects, item by item\<close>
  "json_same (JList xs) w = (case w of JList ys \<Rightarrow> list_all2 json_same xs ys | _ \<Rightarrow> False)"
| "json_same (JObj d) w = (case w of
     JObj e \<Rightarrow> set (map fst d) = set (map fst e)
       \<and> list_all (\<lambda>(k, v). case map_of e k of Some u \<Rightarrow> json_same v u | None \<Rightarrow> False) d
   | _ \<Rightarrow> False)"
| "json_same v w = json_eq v w"

section \<open>Small validators\<close>

definition review_check :: "bool \<Rightarrow> wf_exc + unit" where
  "review_check b = check b WorkflowReviewError"

definition review_object :: "json \<Rightarrow> wf_exc + dict" where
  \<comment> \<open>\<open>isinstance(v, Mapping)\<close> and \<open>dict(v)\<close>\<close>
  "review_object v = (case v of JObj d \<Rightarrow> Inr d | _ \<Rightarrow> Inl WorkflowReviewError)"

definition review_exact_keys :: "dict \<Rightarrow> string list \<Rightarrow> wf_exc + unit" where
  "review_exact_keys d expected = review_check (set (map fst d) = set expected)"

definition review_sha256 :: "json \<Rightarrow> wf_exc + string" where
  "review_sha256 v = (case text_val v of
     Some s \<Rightarrow> if SHA256_RE s then Inr s else Inl WorkflowReviewError | None \<Rightarrow> Inl WorkflowReviewError)"

definition review_id :: "json \<Rightarrow> wf_exc + string" where
  "review_id v = (case text_val v of
     Some s \<Rightarrow> if REVIEW_ID_RE s then Inr s else Inl WorkflowReviewError | None \<Rightarrow> Inl WorkflowReviewError)"

definition relative_path :: "json \<Rightarrow> wf_exc + string" where
  "relative_path v = (case text_val v of
     None \<Rightarrow> Inl WorkflowReviewError
   | Some s \<Rightarrow>
       bindE (review_check (s \<noteq> [])) (\<lambda>_.
       bindE (review_check (\<not> starts_with s ''/'' \<and> char_of (92 :: nat) \<notin> set s \<and> posix_normal s)) (\<lambda>_.
       bindE (review_check (''..'' \<notin> set (posix_parts s))) (\<lambda>_. Inr s))))"

record repo_file =
  f_regular :: bool
  f_links :: nat
  f_mode :: nat
  f_bytes :: bytes

type_synonym repo_files = "string \<Rightarrow> repo_file option"

definition read_confined_regular :: "repo_files \<Rightarrow> json \<Rightarrow> nat \<Rightarrow> bool \<Rightarrow> wf_exc + bytes" where
  \<comment> \<open>the path \<open>"."\<close> has no parts, so the last of them does not exist\<close>
  "read_confined_regular root relative max_bytes immutable =
     bindE (relative_path relative) (\<lambda>path.
     if posix_parts path = [] then Inl (Raised IndexError) else
     (case root path of
       None \<Rightarrow> Inl WorkflowReviewError
     | Some f \<Rightarrow>
         bindE (review_check (f_regular f \<and> f_links f = 1)) (\<lambda>_.
         bindE (review_check (\<not> (immutable \<and> f_mode f AND 146 \<noteq> 0))) (\<lambda>_.
         bindE (review_check (length (f_bytes f) \<le> max_bytes)) (\<lambda>_. Inr (f_bytes f))))))"

section \<open>The launch receipt\<close>

definition run_binding :: "dict \<Rightarrow> dict \<Rightarrow> dict" where
  "run_binding plan task = [(''store_kind'', JStr ''workflow_launch_receipt''), (''schema_version'', JInt 1),
     (''provider'', JStr ''grok''), (''repository_id'', dget plan ''repository_id''), (''run_id'', dget plan ''run_id''),
     (''definition_digest'', dget plan ''definition_digest''), (''plan_digest'', dget plan ''plan_digest''),
     (''task_id'', dget task ''task_id''), (''stage_id'', dget task ''stage_id''),
     (''matrix_index'', dget task ''matrix_index''), (''actor_identity'', dget task ''actor_identity''),
     (''run_generation'', dget plan ''run_generation'')]"

definition launch_path :: "dict \<Rightarrow> dict \<Rightarrow> string" where
  "launch_path plan task = ''.omg/artifacts/workflow-launches/'' @ text_of (dget plan ''run_id'') @ ''/''
     @ text_of (dget task ''task_id'') @ ''.json''"

definition LAUNCH_IDS :: "string list" where
  "LAUNCH_IDS = [''launch_id'', ''session_id'', ''agent_instance_id'']"

definition read_launch_receipt :: "repo_files \<Rightarrow> string \<Rightarrow> wf_exc + dict" where
  \<comment> \<open>the persisted receipt\<close>
  "read_launch_receipt root path =
     bindE (read_confined_regular root (JStr path) 65536 True) (\<lambda>data.
     case parse_canonical_json_bytes data of
       Inr (JObj persisted) \<Rightarrow> Inr persisted
     | _ \<Rightarrow> Inl WorkflowReviewError)"

definition validate_launch_provenance :: "repo_files \<Rightarrow> dict \<Rightarrow> dict \<Rightarrow> json \<Rightarrow> wf_exc + dict" where
  "validate_launch_provenance root plan task provenance =
     bindE (review_object provenance) (\<lambda>row.
     bindE (review_exact_keys row LAUNCH_PROVENANCE_KEYS) (\<lambda>_.
     bindE (review_check (text_in (dget row ''provider'') [''grok''])) (\<lambda>_.
     bindE (mapE (\<lambda>field. review_id (dget row field)) LAUNCH_IDS) (\<lambda>_.
     bindE (review_check (text_in (dget row ''receipt_path'') [launch_path plan task])) (\<lambda>_.
     bindE (review_sha256 (dget row ''receipt_hash'')) (\<lambda>expected_hash.
     bindE (read_launch_receipt root (launch_path plan task)) (\<lambda>persisted.
     bindE (review_exact_keys persisted LAUNCH_RECEIPT_KEYS) (\<lambda>_.
     let body = ddel persisted ''receipt_hash'' in
     bindE (review_sha256 (dget persisted ''receipt_hash'')) (\<lambda>receipt_hash.
     bindE (review_check (list_all (\<lambda>field. is_json_int (dget body field)) [''schema_version'', ''matrix_index'', ''run_generation''])) (\<lambda>_.
     bindE (review_check (list_all (\<lambda>(field, v). json_same (dget body field) v) (run_binding plan task))) (\<lambda>_.
     bindE (review_check (list_all (\<lambda>field. json_same (dget body field) (dget row field)) LAUNCH_IDS)) (\<lambda>_.
     bindE (digest_of (JObj body)) (\<lambda>canonical_hash.
     bindE (review_check (receipt_hash = canonical_hash \<and> expected_hash = canonical_hash)) (\<lambda>_. Inr row))))))))))))))"

section \<open>Verification and artifact receipts\<close>

definition stream_ok :: "dict \<Rightarrow> string \<Rightarrow> wf_exc + unit" where
  "stream_ok row stream =
     bindE (case dget row (stream @ ''_size'') of
         JInt n \<Rightarrow> review_check (0 \<le> n \<and> n \<le> MAX_RECEIPT_STREAM_BYTES) | _ \<Rightarrow> Inl WorkflowReviewError) (\<lambda>_.
     bindE (review_sha256 (dget row (stream @ ''_sha256''))) (\<lambda>_. Inr ()))"

definition validate_verification_receipt :: "json \<Rightarrow> json \<Rightarrow> string \<Rightarrow> wf_exc + dict" where
  "validate_verification_receipt raw argv launch_hash =
     bindE (review_object raw) (\<lambda>row.
     bindE (review_exact_keys row VERIFICATION_RECEIPT_KEYS) (\<lambda>_.
     bindE (review_check (json_same (dget row ''argv'') argv)) (\<lambda>_.
     bindE (review_check (dget row ''exit_code'' = JInt 0)) (\<lambda>_.
     bindE (stream_ok row ''stdout'') (\<lambda>_.
     bindE (stream_ok row ''stderr'') (\<lambda>_.
     bindE (review_check (text_in (dget row ''launch_receipt_hash'') [launch_hash])) (\<lambda>_. Inr row)))))))"

definition validate_verification_receipts :: "dict \<Rightarrow> json \<Rightarrow> string \<Rightarrow> wf_exc + dict list" where
  "validate_verification_receipts stage v launch_hash =
     (let declared = rows_of (dget stage ''verification_argv'') in
      bindE (review_check (is_list v \<and> length (rows_of v) = length declared)) (\<lambda>_.
      mapE (\<lambda>(raw, argv). validate_verification_receipt raw argv launch_hash) (zip (rows_of v) declared)))"

section \<open>Reading an artifact\<close>

definition skip_ws :: "string \<Rightarrow> string" where
  "skip_ws s = dropWhile (\<lambda>c. code_point c \<in> {9, 10, 13, 32}) s"

definition is_hex :: "char \<Rightarrow> bool" where
  "is_hex c \<longleftrightarrow> is_lower_hex c \<or> (65 \<le> code_point c \<and> code_point c \<le> 70)"

definition any_hex_val :: "char \<Rightarrow> nat" where
  "any_hex_val c = (if is_lower_hex c then hex_val c else code_point c - 55)"

definition loads_unescape :: "string \<Rightarrow> (char \<times> string) option" where
  \<comment> \<open>one character of a string literal: every escape of JSON, for characters of the model\<close>
  "loads_unescape s = (case s of
     b # e # z # z' # h # l # r \<Rightarrow>
       if code_point b = 92 \<and> e = CHR ''u'' then
         (if z = CHR ''0'' \<and> z' = CHR ''0'' \<and> is_hex h \<and> is_hex l
          then Some (char_of (16 * any_hex_val h + any_hex_val l), r) else None)
       else if code_point b = 92 \<and> e = CHR ''/'' then Some (e, z # z' # h # l # r)
       else unescape s
   | b # e # r \<Rightarrow> if code_point b = 92 \<and> e = CHR ''/'' then Some (e, r) else unescape s
   | _ \<Rightarrow> unescape s)"

fun loads_string :: "nat \<Rightarrow> string \<Rightarrow> (string \<times> string) option" where
  "loads_string 0 s = None"
| "loads_string (Suc n) s = (case s of
     [] \<Rightarrow> None
   | c # r \<Rightarrow> if code_point c = 34 then Some ([], r)
       else (case loads_unescape s of
         None \<Rightarrow> None
       | Some (d, r') \<Rightarrow> map_option (\<lambda>(t, r''). (d # t, r'')) (loads_string n r')))"

definition loads_int :: "string \<Rightarrow> (json \<times> string) option" where
  \<comment> \<open>an integer; a fraction or an exponent makes a float\<close>
  "loads_int s = (case parse_int s of
     None \<Rightarrow> None
   | Some (v, r) \<Rightarrow>
       let ds = takeWhile is_digit (if starts_with s ''-'' then tl s else s)
       in if (hd ds = CHR ''0'' \<and> length ds \<noteq> 1) \<or> starts_with r ''.'' \<or> starts_with r ''e'' \<or> starts_with r ''E''
          then None else Some (v, r))"

fun loads_value :: "nat \<Rightarrow> string \<Rightarrow> (json \<times> string) option"
  and loads_items :: "nat \<Rightarrow> string \<Rightarrow> (json list \<times> string) option"
  and loads_members :: "nat \<Rightarrow> string \<Rightarrow> (dict \<times> string) option" where
  "loads_value 0 s = None"
| "loads_value (Suc n) s = (case skip_ws s of
     [] \<Rightarrow> None
   | c # r \<Rightarrow>
       if c = CHR ''['' then
         (if starts_with (skip_ws r) '']'' then Some (JList [], tl (skip_ws r))
          else map_option (\<lambda>(xs, r'). (JList xs, r')) (loads_items n r))
       else if c = CHR ''{'' then
         (if starts_with (skip_ws r) ''}'' then Some (JObj [], tl (skip_ws r))
          else map_option (\<lambda>(d, r'). (JObj (dmerge [] d), r')) (loads_members n r))
       else if code_point c = 34 then map_option (\<lambda>(t, r'). (JStr t, r')) (loads_string (length r) r)
       else if starts_with (c # r) ''null'' then Some (JNull, drop 4 (c # r))
       else if starts_with (c # r) ''true'' then Some (JBool True, drop 4 (c # r))
       else if starts_with (c # r) ''false'' then Some (JBool False, drop 5 (c # r))
       else loads_int (c # r))"
| "loads_items 0 s = None"
| "loads_items (Suc n) s = (case loads_value n s of
     None \<Rightarrow> None
   | Some (v, r) \<Rightarrow> (case skip_ws r of
       c # r' \<Rightarrow>
         if c = CHR '','' then map_option (\<lambda>(xs, r''). (v # xs, r'')) (loads_items n r')
         else if c = CHR '']'' then Some ([v], r') else None
     | [] \<Rightarrow> None))"
| "loads_members 0 s = None"
| "loads_members (Suc n) s = (case skip_ws s of
     [] \<Rightarrow> None
   | q # s1 \<Rightarrow> if code_point q \<noteq> 34 then None else (case loads_string (length s1) s1 of
       None \<Rightarrow> None
     | Some (k, s2) \<Rightarrow> if \<not> starts_with (skip_ws s2) '':'' then None else (case loads_value n (tl (skip_ws s2)) of
         None \<Rightarrow> None
       | Some (v, r) \<Rightarrow> (case skip_ws r of
           c # r' \<Rightarrow>
             if c = CHR '','' then map_option (\<lambda>(d, r''). ((k, v) # d, r'')) (loads_members n r')
             else if c = CHR ''}'' then Some ([(k, v)], r') else None
         | [] \<Rightarrow> None))))"

definition json_loads :: "bytes \<Rightarrow> json option" where
  \<comment> \<open>\<open>json.loads(data.decode("utf-8"))\<close>; None where it raises, and for a document with a float, which
      the only caller refuses with the same exception\<close>
  "json_loads data = (case decode_utf8 data of
     None \<Rightarrow> None
   | Some t \<Rightarrow> (case loads_value (Suc (length t)) t of
       Some (v, r) \<Rightarrow> if skip_ws r = [] then Some v else None
     | None \<Rightarrow> None))"

definition check_artifact_content :: "dict \<Rightarrow> json \<Rightarrow> bytes \<Rightarrow> wf_exc + dict" where
  "check_artifact_content row schema data = (case json_loads data of
     None \<Rightarrow> Inl WorkflowReviewError
   | Some current \<Rightarrow> (case validate_json_value current schema of
       Inl e \<Rightarrow> Inl WorkflowReviewError
     | Inr canonical \<Rightarrow> bindE (review_check (json_same (dget row ''content'') canonical)) (\<lambda>_. Inr row)))"

definition validate_artifact_receipt :: "repo_files \<Rightarrow> json \<Rightarrow> string \<Rightarrow> json \<Rightarrow> json \<Rightarrow> string \<Rightarrow> wf_exc + dict" where
  "validate_artifact_receipt root schema schema_digest raw expected_path launch_hash =
     bindE (review_object raw) (\<lambda>row.
     bindE (review_exact_keys row ARTIFACT_RECEIPT_KEYS) (\<lambda>_.
     bindE (review_check (json_same (dget row ''path'') expected_path)) (\<lambda>_.
     bindE (review_check (json_same (dget row ''schema'') schema \<and> text_in (dget row ''schema_digest'') [schema_digest])) (\<lambda>_.
     bindE (review_check (text_in (dget row ''launch_receipt_hash'') [launch_hash])) (\<lambda>_.
     bindE (read_confined_regular root expected_path MAX_ARTIFACT_BYTES False) (\<lambda>data.
     bindE (review_check (dget row ''size'' = JInt (int (length data)))) (\<lambda>_.
     bindE (review_sha256 (dget row ''sha256'')) (\<lambda>sha.
     bindE (review_check (sha = sha256_hex data)) (\<lambda>_.
     bindE (review_sha256 (dget row ''schema_digest'')) (\<lambda>_.
     check_artifact_content row schema data))))))))))"

definition validate_artifact_receipts :: "repo_files \<Rightarrow> dict \<Rightarrow> json \<Rightarrow> string \<Rightarrow> wf_exc + dict list" where
  "validate_artifact_receipts root stage v launch_hash =
     bindE (review_check (is_list v)) (\<lambda>_.
     let contract = dict_of (dget stage ''artifact_contract'');
         declared = (if truthy (dget contract ''required'') then rows_of (dget contract ''paths'') else []);
         schema = dget contract ''schema'' in
     bindE (review_check (length (rows_of v) = length declared)) (\<lambda>_.
     bindE (digest_of schema) (\<lambda>schema_digest.
     mapE (\<lambda>(raw, path). validate_artifact_receipt root schema schema_digest raw path launch_hash)
       (zip (rows_of v) declared))))"

section \<open>The receipt of a successful task\<close>

definition task_binding :: "dict \<Rightarrow> dict \<Rightarrow> dict" where
  "task_binding plan task = [(''task_id'', dget task ''task_id''), (''stage_id'', dget task ''stage_id''),
     (''matrix_index'', dget task ''matrix_index''), (''actor_identity'', dget task ''actor_identity''),
     (''plan_digest'', dget plan ''plan_digest''), (''definition_digest'', dget plan ''definition_digest''),
     (''run_generation'', dget plan ''run_generation'')]"

definition validate_task_receipt_identity :: "dict \<Rightarrow> dict \<Rightarrow> dict \<Rightarrow> wf_exc + unit" where
  "validate_task_receipt_identity plan task raw =
     review_check (list_all (\<lambda>(field, v). has_key raw field \<and> json_same (dget raw field) v) (task_binding plan task))"

definition stage_of :: "dict \<Rightarrow> dict \<Rightarrow> wf_exc + dict" where
  \<comment> \<open>\<open>next(item for item in definition["stages"] if item["id"] == task["stage_id"])\<close>\<close>
  "stage_of d task = (case find (\<lambda>stage. json_same (dget stage ''id'') (dget task ''stage_id'')) (stages_of d) of
     Some stage \<Rightarrow> Inr stage | None \<Rightarrow> Inl (Raised StopIteration))"

definition validate_success_task_receipt :: "dict \<Rightarrow> dict \<Rightarrow> dict \<Rightarrow> dict \<Rightarrow> repo_files option \<Rightarrow> wf_exc + dict" where
  "validate_success_task_receipt d plan task row root = (case root of
     None \<Rightarrow> Inl WorkflowReviewError
   | Some files \<Rightarrow>
       bindE (review_exact_keys row SUCCESS_RECEIPT_KEYS) (\<lambda>_.
       bindE (review_check (text_in (dget row ''store_kind'') [''workflow_task_receipt'']
          \<and> json_same (dget row ''schema_version'') (JInt 1) \<and> \<not> is_bool (dget row ''schema_version''))) (\<lambda>_.
       bindE (review_check (is_json_int (dget row ''matrix_index'') \<and> is_json_int (dget row ''run_generation''))) (\<lambda>_.
       bindE (validate_task_receipt_identity plan task row) (\<lambda>_.
       bindE (review_check (json_same (dget row ''repository_id'') (dget plan ''repository_id'')
          \<and> json_same (dget row ''run_id'') (dget plan ''run_id''))) (\<lambda>_.
       bindE (stage_of d task) (\<lambda>stage.
       bindE (validate_launch_provenance files plan task (dget row ''launch_provenance'')) (\<lambda>provenance.
       let launch_hash = text_of (dget provenance ''receipt_hash'') in
       bindE (validate_verification_receipts stage (dget row ''verification_receipts'') launch_hash) (\<lambda>_.
       bindE (validate_artifact_receipts files stage (dget row ''artifact_receipts'') launch_hash) (\<lambda>_.
       let body = ddel row ''receipt_hash'' in
       bindE (review_sha256 (dget row ''receipt_hash'')) (\<lambda>receipt_hash.
       bindE (digest_of (JObj body)) (\<lambda>h.
       bindE (review_check (receipt_hash = h)) (\<lambda>_. Inr row)))))))))))))"

section \<open>Status and verdict\<close>

definition upper_char :: "char \<Rightarrow> string" where
  \<comment> \<open>two characters of Latin-1 have an upper case beyond it and are kept\<close>
  "upper_char c = (let n = code_point c in
     if (97 \<le> n \<and> n \<le> 122) \<or> (224 \<le> n \<and> n \<le> 254 \<and> n \<noteq> 247) then [char_of (n - 32)]
     else if n = 223 then ''SS'' else [c])"

definition upper :: "string \<Rightarrow> string" where
  "upper s = concat (map upper_char s)"

definition is_reviewer :: "dict \<Rightarrow> bool" where
  \<comment> \<open>\<open>task["kind"] in {"verifier", "skeptic"}\<close>\<close>
  "is_reviewer task = text_in (dget task ''kind'') [''verifier'', ''skeptic'']"

definition normalized_status_verdict :: "dict \<Rightarrow> dict \<Rightarrow> json \<Rightarrow> wf_exc + string \<times> string" where
  "normalized_status_verdict task raw output = (case text_val (dget (dict_of output) ''verdict'') of
     None \<Rightarrow> Inl WorkflowReviewError
   | Some v \<Rightarrow>
       let output_verdict = upper v; raw_verdict = dget raw ''verdict'' in
       bindE (review_check (raw_verdict = JNull \<or> is_str raw_verdict)) (\<lambda>_.
       let verdict = (if truthy raw_verdict then upper (text_of raw_verdict) else output_verdict) in
       bindE (review_check (verdict = output_verdict)) (\<lambda>_.
       let status = (if dget raw ''status'' = JNull
           then (if verdict = ''APPROVE'' then Some (if is_reviewer task then ''approved'' else ''passed'')
                 else VERDICT_DEFAULT_STATUS verdict)
           else text_val (dget raw ''status'')) in
       (case status of
         None \<Rightarrow> Inl WorkflowReviewError
       | Some st \<Rightarrow>
           bindE (review_check (st \<in> set RESULT_STATUSES)) (\<lambda>_.
           bindE (review_check (verdict \<in> set (STATUS_VERDICTS st))) (\<lambda>_.
           bindE (review_check (\<not> (is_reviewer task \<and> st = ''approved'' \<and> verdict \<noteq> ''APPROVE''))) (\<lambda>_.
           Inr (st, verdict)))))))) "

definition is_success :: "string \<Rightarrow> bool" where
  "is_success st \<longleftrightarrow> st = ''passed'' \<or> st = ''approved''"

definition receipt_field :: "dict option \<Rightarrow> string \<Rightarrow> json \<Rightarrow> json" where
  "receipt_field receipt k v = (case receipt of None \<Rightarrow> v | Some r \<Rightarrow> dget r k)"

definition task_result :: "dict \<Rightarrow> dict \<Rightarrow> dict \<Rightarrow> string \<Rightarrow> string \<Rightarrow> json \<Rightarrow> dict option \<Rightarrow> dict" where
  "task_result plan task raw status verdict output receipt =
     [(''store_kind'', JStr ''workflow_task_result''), (''schema_version'', JInt 1),
      (''task_id'', dget task ''task_id''), (''stage_id'', dget task ''stage_id''),
      (''matrix_index'', dget task ''matrix_index''), (''kind'', dget task ''kind''),
      (''actor_identity'', dget raw ''actor_identity''), (''status'', JStr status), (''verdict'', JStr verdict),
      (''output'', output), (''plan_digest'', dget plan ''plan_digest''),
      (''definition_digest'', dget plan ''definition_digest''), (''run_generation'', dget plan ''run_generation''),
      (''effect_type'', dget task ''effect_type''), (''effect_receipt'', dget raw ''effect_receipt''),
      (''error'', dget raw ''error''),
      (''launch_provenance'', receipt_field receipt ''launch_provenance'' JNull),
      (''verification_receipts'', receipt_field receipt ''verification_receipts'' (JList [])),
      (''artifact_receipts'', receipt_field receipt ''artifact_receipts'' (JList [])),
      (''receipt_hash'', receipt_field receipt ''receipt_hash'' JNull),
      (''task_receipt'', (case receipt of None \<Rightarrow> JNull | Some r \<Rightarrow> JObj r))]"

definition schema_as_review_error :: "wf_exc + 'a \<Rightarrow> wf_exc + 'a" where
  "schema_as_review_error m = (case m of Inl WorkflowSchemaError \<Rightarrow> Inl WorkflowReviewError | _ \<Rightarrow> m)"

definition normalize_task_result :: "dict \<Rightarrow> dict \<Rightarrow> dict \<Rightarrow> dict \<Rightarrow> repo_files option \<Rightarrow> wf_exc + dict" where
  "normalize_task_result d plan task raw root =
     bindE (validate_task_receipt_identity plan task raw) (\<lambda>_.
     bindE (stage_of d task) (\<lambda>stage.
     bindE (schema_as_review_error (validate_stage_output stage (dget raw ''output''))) (\<lambda>output.
     bindE (normalized_status_verdict task raw output) (\<lambda>(status, verdict).
     bindE (if is_success status
            then bindE (validate_success_task_receipt d plan task raw root) (\<lambda>r. Inr (Some r))
            else Inr None) (\<lambda>receipt.
     let result = task_result plan task raw status verdict output receipt in
     bindE (digest_of (JObj result)) (\<lambda>h. Inr (result @ [(''result_hash'', JStr h)])))))))"

section \<open>The review of a run\<close>

record review =
  v_terminal :: string
  v_stage_results :: "(string \<times> string) list"
  v_verifier_approved :: bool
  v_skeptic_approved :: bool
  v_identities_independent :: bool
  v_product_authority_verified :: bool
  v_authority_error :: string
  v_invalid :: "string list"
  v_missing :: "string list"

definition result_bound :: "dict \<Rightarrow> dict \<Rightarrow> dict \<Rightarrow> bool" where
  \<comment> \<open>the fields of a result, beside its task identifier, that must agree with its task and the plan\<close>
  "result_bound plan task result \<longleftrightarrow>
     list_all (\<lambda>(field, v). json_same (dget result field) v) (tl (task_binding plan task))"

definition recheck_result :: "dict \<Rightarrow> dict \<Rightarrow> dict \<Rightarrow> dict \<Rightarrow> repo_files option \<Rightarrow> wf_exc + unit" where
  \<comment> \<open>the \<open>try\<close> block of the loop\<close>
  "recheck_result compiled plan task result root =
     bindE (normalized_status_verdict task result (dget result ''output'')) (\<lambda>_.
     if text_in (dget result ''status'') [''passed'', ''approved'']
     then bindE (review_object (dget result ''task_receipt'')) (\<lambda>receipt.
          bindE (validate_success_task_receipt compiled plan task receipt root) (\<lambda>_. Inr ()))
     else Inr ())"

fun collect_results :: "dict \<Rightarrow> dict \<Rightarrow> repo_files option \<Rightarrow> dict list \<Rightarrow> (string \<times> dict) list \<Rightarrow> string list \<Rightarrow>
    wf_exc + (string \<times> dict) list \<times> string list" where
  \<comment> \<open>\<open>actual\<close>, newest entry first, and \<open>invalid\<close>\<close>
  "collect_results compiled plan root [] actual invalid = Inr (actual, invalid)"
| "collect_results compiled plan root (result # results) actual invalid =
     (let tid = row_task_id result in
      case map_of (tasks_by_id plan) tid of
        None \<Rightarrow> collect_results compiled plan root results actual (invalid @ [if tid = [] then ''<missing>'' else tid])
      | Some task \<Rightarrow>
          if tid \<in> set (map fst actual)
          then collect_results compiled plan root results actual (invalid @ [if tid = [] then ''<missing>'' else tid])
          else if \<not> result_bound plan task result
          then collect_results compiled plan root results actual (invalid @ [tid])
          else (case recheck_result compiled plan task result root of
            Inl WorkflowReviewError \<Rightarrow> collect_results compiled plan root results actual (invalid @ [tid])
          | Inl e \<Rightarrow> Inl e
          | Inr _ \<Rightarrow> collect_results compiled plan root results ((tid, result) # actual) invalid))"

definition task_status :: "(string \<times> dict) list \<Rightarrow> dict \<Rightarrow> json" where
  \<comment> \<open>\<open>actual.get(task["task_id"], {}).get("status", "missing")\<close>\<close>
  "task_status actual task = (case map_of actual (task_id task) of
     None \<Rightarrow> JStr ''missing'' | Some result \<Rightarrow> dget_or result ''status'' (JStr ''missing''))"

definition stage_outcome :: "dict \<Rightarrow> dict list \<Rightarrow> (string \<times> dict) list \<Rightarrow> string" where
  "stage_outcome stage tasks actual =
     (let reviewer = text_in (dget stage ''kind'') [''verifier'', ''skeptic''];
          accepted = (if reviewer then [''approved''] else [''passed'', ''approved'']);
          all_accepted = list_all (\<lambda>task. text_in (task_status actual task) accepted) tasks
      in if reviewer \<and> all_accepted then ''approved'' else if all_accepted then ''passed'' else ''failed'')"

definition stage_results_of :: "dict \<Rightarrow> dict \<Rightarrow> (string \<times> dict) list \<Rightarrow> wf_exc + (string \<times> string) list" where
  "stage_results_of compiled plan actual =
     mapE (\<lambda>sid. bindE (stage_of compiled [(''stage_id'', JStr sid)]) (\<lambda>stage.
       Inr (sid, stage_outcome stage (filter (\<lambda>task. task_stage task = sid) (tasks_of plan)) actual)))
       (strings (dget plan ''stage_order''))"

definition evaluate_review :: "dict \<Rightarrow> dict \<Rightarrow> dict list \<Rightarrow> bool \<Rightarrow> bool \<Rightarrow> bool \<Rightarrow> repo_files option \<Rightarrow> wf_exc + review" where
  "evaluate_review d plan results permission_denied ambiguous_receipt external_effect root =
     bindE (compile_workflow d) (\<lambda>compiled.
     bindE (collect_results compiled plan root results [] []) (\<lambda>(actual, invalid).
     bindE (stage_results_of compiled plan actual) (\<lambda>stage_results.
     let external = (external_effect
           \<or> list_ex (\<lambda>(tid, row). text_in (dget row ''status'') [''effect_unknown'']) actual);
         ambiguous = (ambiguous_receipt \<or> invalid \<noteq> [])
     in Inr \<lparr>v_terminal = decide_terminal stage_results False False permission_denied ambiguous external,
          v_stage_results = stage_results, v_verifier_approved = False, v_skeptic_approved = False,
          v_identities_independent = False, v_product_authority_verified = False,
          v_authority_error = ''E_WORKFLOW_PRODUCT_AUTHORITY_UNAVAILABLE'', v_invalid = invalid,
          v_missing = sort (filter (\<lambda>tid. tid \<notin> set (map fst actual)) (remdups (map task_id (tasks_of plan))))\<rparr>)))"

end
