(* ===== verification/WorkflowRunner.thy ===== *)
theory WorkflowRunner
  imports WorkflowReview
begin

text \<open>
  The runner (\<open>workflows/runner.py\<close>): one task with its retries, one wave as a step relation over
  the tasks that wait, run and are finished, and the whole run.  The callback of a task is a
  function from the attempt to what it returns or raises; what an isolated process does in the
  end (it delivers a row, it dies, it runs out of time, it leaves a descendant behind) is the choice
  of the step (where the runner's own row for it is refused by the output schema of the stage, the code
  leaves the wave with an exception instead of taking the step), and whether cancellation was requested is read anew at each wave.  The journal and
  the summary file repeat the values computed here.
\<close>

section \<open>One task\<close>

definition failure_row :: "dict \<Rightarrow> dict \<Rightarrow> string \<Rightarrow> string \<Rightarrow> string \<Rightarrow> dict" where
  \<comment> \<open>the rows the runner writes itself: status, verdict, error\<close>
  "failure_row plan task status verdict err = task_binding plan task @
     [(''status'', JStr status), (''verdict'', JStr verdict), (''output'', JObj [(''verdict'', JStr verdict)]),
      (''error'', JStr err)]"

definition cancelled_row :: "dict \<Rightarrow> dict \<Rightarrow> dict" where
  "cancelled_row plan task = task_binding plan task @
     [(''status'', JStr ''cancelled''), (''output'', JObj [(''verdict'', JStr ''CANCELLED'')])]"

definition terminal_verdict :: "string \<Rightarrow> string" where
  "terminal_verdict status = (if status = ''cancelled'' then ''CANCELLED''
     else if status = ''effect_unknown'' then ''EFFECT_UNKNOWN'' else ''NO_SHIP'')"

definition terminal_task_result :: "dict \<Rightarrow> dict \<Rightarrow> dict \<Rightarrow> string \<Rightarrow> string \<Rightarrow> wf_exc + dict" where
  "terminal_task_result d plan task status err =
     normalize_task_result d plan task (failure_row plan task status (terminal_verdict status) err) None"

datatype callback =
    Returns dict
  | AuthorityError string
  | Fails string

definition attempt_task :: "dict \<Rightarrow> dict \<Rightarrow> dict \<Rightarrow> repo_files option \<Rightarrow> dict \<Rightarrow> wf_exc + dict" where
  \<comment> \<open>the \<open>try\<close> block after the callback returned \<open>raw\<close>\<close>
  "attempt_task d plan task root raw =
     bindE (normalize_task_result d plan task raw root) (\<lambda>result.
     if dget task ''effect_type'' \<noteq> JNull \<and> text_in (dget result ''status'') [''passed'', ''approved'']
     then (if dget result ''effect_receipt'' = JNull
           then Inr (dset result ''status'' (JStr ''effect_unknown''))
           else bindE (validate_effect_receipt (dget result ''effect_receipt'') task plan) (\<lambda>_. Inr result))
     else Inr result)"

fun run_attempts :: "dict \<Rightarrow> dict \<Rightarrow> dict \<Rightarrow> repo_files option \<Rightarrow> (wf_exc \<Rightarrow> string) \<Rightarrow> callback list \<Rightarrow> string \<Rightarrow> wf_exc + dict" where
  \<comment> \<open>the loop over the attempts; the last argument is \<open>str(last_error)\<close>\<close>
  "run_attempts d plan task root message [] last_error =
     normalize_task_result d plan task (failure_row plan task ''failed'' ''NO_SHIP'' last_error) root"
| "run_attempts d plan task root message (c # cs) last_error = (case c of
     AuthorityError e \<Rightarrow>
       normalize_task_result d plan task
         (failure_row plan task ''failed'' ''NO_SHIP'' (''E_WORKFLOW_EXECUTOR_AUTHORITY: '' @ e)) root
   | Fails e \<Rightarrow> run_attempts d plan task root message cs e
   | Returns raw \<Rightarrow> (case attempt_task d plan task root raw of
         Inr result \<Rightarrow> Inr result
       | Inl e \<Rightarrow> run_attempts d plan task root message cs (message e)))"

definition execute_one :: "dict \<Rightarrow> dict \<Rightarrow> dict \<Rightarrow> repo_files option \<Rightarrow> (wf_exc \<Rightarrow> string) \<Rightarrow> (nat \<Rightarrow> callback) \<Rightarrow> bool \<Rightarrow>
    wf_exc + dict" where
  \<comment> \<open>\<open>callback i\<close> is what attempt \<open>i\<close> does; \<open>message\<close> is the text of an exception\<close>
  "execute_one d plan task root message callback cancelled =
     (if cancelled then normalize_task_result d plan task (cancelled_row plan task) root
      else (case py_int (dget task ''retry_budget'') of
        Inl e \<Rightarrow> Inl (Raised e)
      | Inr n \<Rightarrow> run_attempts d plan task root message (map callback [0..<nat (n + 1)]) ''None''))"

section \<open>One wave\<close>

record wave =
  w_queued :: "string list"
  w_active :: "string list"
  w_results :: "(string \<times> string) list"
  \<comment> \<open>the task of a row and its status\<close>

definition uncertain :: "dict \<Rightarrow> string \<Rightarrow> string" where
  \<comment> \<open>\<open>"effect_unknown" if _task_requires_terminable_executor(task) else other\<close>\<close>
  "uncertain task other = (if task_requires_terminable_executor task then ''effect_unknown'' else other)"

definition start_wave :: "(string \<Rightarrow> dict) \<Rightarrow> string list \<Rightarrow> bool \<Rightarrow> wave" where
  \<comment> \<open>tasks with a declared effect are refused; without \<open>fork\<close> so are all the others\<close>
  "start_wave tasks runnable fork =
     (let (refused, isolated) = partition (\<lambda>t. dget (tasks t) ''effect_type'' \<noteq> JNull) runnable
      in if fork then \<lparr>w_queued = isolated, w_active = [], w_results = map (\<lambda>t. (t, ''failed'')) refused\<rparr>
         else \<lparr>w_queued = [], w_active = [], w_results = map (\<lambda>t. (t, ''failed'')) (refused @ isolated)\<rparr>)"

definition wave_workers :: "int \<Rightarrow> (string \<Rightarrow> dict) \<Rightarrow> string list \<Rightarrow> nat" where
  "wave_workers limit tasks runnable =
     nat (min limit (int (length (filter (\<lambda>t. dget (tasks t) ''effect_type'' = JNull) runnable))))"

inductive wave_step :: "(string \<Rightarrow> dict) \<Rightarrow> nat \<Rightarrow> wave \<Rightarrow> wave \<Rightarrow> bool" for tasks :: "string \<Rightarrow> dict" and workers :: nat where
  start: "w_queued w = t # q \<Longrightarrow> length (w_active w) < workers \<Longrightarrow>
    wave_step tasks workers w (w\<lparr>w_queued := q, w_active := w_active w @ [t]\<rparr>)"
| start_failed: "w_queued w = t # q \<Longrightarrow> length (w_active w) < workers \<Longrightarrow>
    wave_step tasks workers w (w\<lparr>w_queued := q, w_results := w_results w @ [(t, uncertain (tasks t) ''failed'')]\<rparr>)"
| delivered: "t \<in> set (w_active w) \<Longrightarrow> status \<in> set RESULT_STATUSES \<Longrightarrow>
    wave_step tasks workers w (w\<lparr>w_active := remove1 t (w_active w), w_results := w_results w @ [(t, status)]\<rparr>)"
| receipt_refused: "t \<in> set (w_active w) \<Longrightarrow>
    wave_step tasks workers w (w\<lparr>w_active := remove1 t (w_active w), w_results := w_results w @ [(t, ''failed'')]\<rparr>)"
| lost: "t \<in> set (w_active w) \<Longrightarrow>
    wave_step tasks workers w (w\<lparr>w_active := remove1 t (w_active w),
      w_results := w_results w @ [(t, uncertain (tasks t) ''failed'')]\<rparr>)"
| cancel: "w_queued w \<noteq> [] \<or> w_active w \<noteq> [] \<Longrightarrow>
    wave_step tasks workers w (w\<lparr>w_queued := [], w_active := [],
      w_results := w_results w @ map (\<lambda>t. (t, uncertain (tasks t) ''cancelled'')) (w_active w)
        @ map (\<lambda>t. (t, ''cancelled'')) (w_queued w)\<rparr>)"

definition wave_done :: "wave \<Rightarrow> bool" where
  "wave_done w \<longleftrightarrow> w_queued w = [] \<and> w_active w = []"

section \<open>What a wave guarantees\<close>

inductive_cases wave_stepE: "wave_step tasks workers w w'"

definition tracked :: "wave \<Rightarrow> string multiset" where
  "tracked w = mset (w_queued w) + mset (w_active w) + mset (map fst (w_results w))"

lemma wave_step_tracked: "wave_step tasks workers w w' \<Longrightarrow> tracked w' = tracked w"
proof (induction rule: wave_step.induct)
  case (cancel w)
  have "mset (map fst (map (\<lambda>t. (t, f t)) ts)) = mset ts" for f :: "string \<Rightarrow> string" and ts by (simp add: comp_def)
  then show ?case by (simp add: tracked_def comp_def)
qed (auto simp: tracked_def ac_simps dest!: multi_member_split)

lemma wave_step_active:
  "wave_step tasks workers w w' \<Longrightarrow> length (w_active w) \<le> workers \<Longrightarrow> length (w_active w') \<le> workers"
  by (induction rule: wave_step.induct) (auto simp: length_remove1)

lemma wave_step_measure: "wave_step tasks workers w w' \<Longrightarrow>
    2 * length (w_queued w') + length (w_active w') < 2 * length (w_queued w) + length (w_active w)"
  by (induction rule: wave_step.induct) (auto simp: length_remove1 dest: length_pos_if_in_set)

lemma wave_step_enabled:
  assumes "0 < workers" "\<not> wave_done w"
  shows "\<exists>w'. wave_step tasks workers w w'"
proof (cases "w_active w")
  case Nil
  then obtain t q where "w_queued w = t # q" using assms(2) by (cases "w_queued w") (auto simp: wave_done_def)
  then show ?thesis using wave_step.start [of w t q workers tasks] assms(1) Nil by auto
next
  case (Cons t ts)
  then show ?thesis using wave_step.lost [of t w tasks workers] by auto
qed

definition wave_inv :: "(string \<Rightarrow> dict) \<Rightarrow> nat \<Rightarrow> string list \<Rightarrow> wave \<Rightarrow> bool" where
  \<comment> \<open>every task once, at most \<open>workers\<close> at a time, none with a declared effect among them\<close>
  "wave_inv tasks workers runnable w \<longleftrightarrow> tracked w = mset runnable \<and> length (w_active w) \<le> workers
     \<and> (\<forall>t \<in> set (w_queued w) \<union> set (w_active w). dget (tasks t) ''effect_type'' = JNull)
     \<and> (\<forall>row \<in> set (w_results w). snd row \<in> set RESULT_STATUSES)"

lemma start_wave_inv: "wave_inv tasks workers runnable (start_wave tasks runnable fork)"
proof -
  have "mset (filter P runnable) + mset (filter (\<lambda>t. \<not> P t) runnable) = mset runnable" for P
    by (induction runnable) auto
  moreover have "image_mset fst {#(t, c). t \<in># M#} = M" for c :: string and M :: "string multiset"
    by (simp add: multiset.map_comp comp_def)
  ultimately show ?thesis
    by (auto simp: wave_inv_def start_wave_def tracked_def Let_def comp_def RESULT_STATUSES_def ac_simps)
qed

lemma wave_step_inv: "wave_step tasks workers w w' \<Longrightarrow> wave_inv tasks workers runnable w \<Longrightarrow> wave_inv tasks workers runnable w'"
proof -
  assume step: "wave_step tasks workers w w'" and inv: "wave_inv tasks workers runnable w"
  have "set (w_queued w') \<union> set (w_active w') \<subseteq> set (w_queued w) \<union> set (w_active w)"
    using step by (induction rule: wave_step.induct) (auto dest: set_remove1_subset [THEN subsetD])
  moreover have "\<forall>row \<in> set (w_results w'). snd row \<in> set RESULT_STATUSES"
    using step inv by (induction rule: wave_step.induct) (auto simp: wave_inv_def uncertain_def RESULT_STATUSES_def split: if_splits)
  ultimately show ?thesis
    using wave_step_tracked [OF step] wave_step_active [OF step] inv by (auto simp: wave_inv_def)
qed

lemma wave_run_inv: "(wave_step tasks workers ^^ n) w w' \<Longrightarrow> wave_inv tasks workers runnable w \<Longrightarrow>
    wave_inv tasks workers runnable w' \<and> n + 2 * length (w_queued w') + length (w_active w') \<le> 2 * length (w_queued w) + length (w_active w)"
proof (induction n arbitrary: w')
  case (Suc n)
  then obtain v where v: "(wave_step tasks workers ^^ n) w v" "wave_step tasks workers v w'" by auto
  then show ?case using Suc.IH [OF v(1) Suc.prems(2)] wave_step_inv [OF v(2)] wave_step_measure [OF v(2)] by auto
qed simp

section \<open>The run\<close>

definition row_success :: "dict \<Rightarrow> bool" where
  \<comment> \<open>\<open>result["status"] in {"passed", "approved"}\<close>\<close>
  "row_success row = text_in (dget row ''status'') [''passed'', ''approved'']"

fun run_waves :: "(string \<Rightarrow> dict) \<Rightarrow> (nat \<Rightarrow> bool) \<Rightarrow> (nat \<Rightarrow> string list \<Rightarrow> dict list) \<Rightarrow> nat \<Rightarrow> string list list \<Rightarrow>
    string list \<Rightarrow> dict list \<Rightarrow> dict list" where
  \<comment> \<open>\<open>run_wave i\<close> is what the \<open>i\<close>th wave returns, \<open>cancelled i\<close> what the event says before it\<close>
  "run_waves tasks cancelled run_wave i [] accepted results = results"
| "run_waves tasks cancelled run_wave i (wave # waves) accepted results =
     (if cancelled i then results
      else let runnable = filter (\<lambda>t. list_all (\<lambda>d. d \<in> set accepted) (task_dependencies (tasks t))) wave in
      if runnable = [] then run_waves tasks cancelled run_wave (Suc i) waves accepted results
      else let rows = run_wave i runnable; accepted' = accepted @ map task_id (filter row_success rows) in
      if list_ex (\<lambda>row. \<not> row_success row) rows then results @ rows
      else run_waves tasks cancelled run_wave (Suc i) waves accepted' (results @ rows))"

definition plan_task :: "dict \<Rightarrow> string \<Rightarrow> dict" where
  \<comment> \<open>\<open>tasks[task_id]\<close> for an identifier of the plan\<close>
  "plan_task plan tid = (case map_of (tasks_by_id plan) tid of Some task \<Rightarrow> task | None \<Rightarrow> [])"

definition task_order :: "dict \<Rightarrow> (string \<times> nat) list" where
  "task_order plan = rev (zip (map task_id (tasks_of plan)) [0..<length (tasks_of plan)])"

definition sort_results :: "dict \<Rightarrow> dict list \<Rightarrow> wf_exc + dict list" where
  "sort_results plan results =
     bindE (mapE (\<lambda>row. lookup_key (task_order plan) (task_id row)) results) (\<lambda>ks.
     Inr (map snd (sort_key fst (zip ks results))))"

record run_summary =
  s_plan :: dict
  s_admitted :: bool
  s_results :: "dict list"
  s_review :: review
  s_replay :: "replay option"
  s_terminal :: string

definition run_terminal :: "bool \<Rightarrow> review \<Rightarrow> replay \<Rightarrow> string" where
  "run_terminal cancelled r rp =
     (if terminal rp = ''effect_unknown'' then ''effect_unknown''
      else if terminal rp = ''blocked'' \<and> v_authority_error r \<noteq> ''E_WORKFLOW_PRODUCT_AUTHORITY_UNAVAILABLE''
      then ''blocked''
      else if cancelled then ''cancelled'' else v_terminal r)"

record launch =
  l_repository_id :: string
  l_generation :: int
  l_policy :: "string list"
  l_host :: "string list"
  l_receipt :: "string list"
  l_mcp :: "string list option"
  l_paths :: "string list option"

definition run_workflow :: "dict \<Rightarrow> json \<Rightarrow> launch \<Rightarrow> repo_files \<Rightarrow> (dict \<Rightarrow> nat \<Rightarrow> string list \<Rightarrow> dict list) \<Rightarrow>
    (nat \<Rightarrow> bool) \<Rightarrow> bool \<Rightarrow> wf_exc + run_summary" where
  \<comment> \<open>the last argument is the event after the waves; the waves see the plan\<close>
  "run_workflow d workflow_input l root run_wave cancelled cancelled_end =
     bindE (compile_workflow d) (\<lambda>compiled.
     bindE (build_plan compiled workflow_input (l_repository_id l) (l_generation l)) (\<lambda>plan.
     bindE (admit_definition compiled (l_policy l) (l_host l) (l_receipt l) (l_mcp l) (l_paths l)) (\<lambda>(allowed, rows).
     if \<not> allowed then
       bindE (evaluate_review compiled plan [] True False False None) (\<lambda>r.
       Inr \<lparr>s_plan = plan, s_admitted = False, s_results = [], s_review = r, s_replay = None, s_terminal = ''blocked''\<rparr>)
     else
       bindE (sort_results plan (run_waves (plan_task plan) cancelled (run_wave plan) 0 (waves_of plan) [] [])) (\<lambda>results.
       bindE (evaluate_review compiled plan results False False False (Some root)) (\<lambda>r.
       bindE (assess_replay plan results) (\<lambda>rp.
       Inr \<lparr>s_plan = plan, s_admitted = True, s_results = results, s_review = r, s_replay = Some rp,
         s_terminal = run_terminal cancelled_end r rp\<rparr>))))))"

section \<open>What a run guarantees\<close>

definition prerequisites_met :: "(string \<Rightarrow> dict) \<Rightarrow> dict list \<Rightarrow> bool" where
  \<comment> \<open>every row comes after a successful row of each task its own task depends on\<close>
  "prerequisites_met tasks rows \<longleftrightarrow> (\<forall>pre row post. rows = pre @ row # post \<longrightarrow>
     (\<forall>x \<in> set (task_dependencies (tasks (task_id row))). \<exists>r \<in> set pre. row_success r \<and> task_id r = x))"

lemma prerequisites_met_append:
  assumes "prerequisites_met tasks results" "\<And>x. x \<in> set accepted \<Longrightarrow> \<exists>r \<in> set results. row_success r \<and> task_id r = x"
    and "\<And>row. row \<in> set rows \<Longrightarrow> set (task_dependencies (tasks (task_id row))) \<subseteq> set accepted"
  shows "prerequisites_met tasks (results @ rows)"
  unfolding prerequisites_met_def
proof (intro allI impI ballI)
  fix pre row post x
  assume split: "results @ rows = pre @ row # post" and x: "x \<in> set (task_dependencies (tasks (task_id row)))"
  show "\<exists>r \<in> set pre. row_success r \<and> task_id r = x"
  proof (cases "length pre < length results")
    case True
    then obtain post' where "results = pre @ row # post'"
      using split by (auto simp: append_eq_append_conv2 append_eq_Cons_conv)
    then show ?thesis using assms(1) x by (auto simp: prerequisites_met_def)
  next
    case False
    then obtain pre' where pre: "pre = results @ pre'" "rows = pre' @ row # post"
      using split by (auto simp: append_eq_append_conv2)
    then have "x \<in> set accepted" using assms(3) [of row] x by auto
    then show ?thesis using assms(2) pre(1) by auto
  qed
qed

lemma run_waves_prerequisites:
  assumes rows: "\<And>i ts row. row \<in> set (run_wave i ts) \<Longrightarrow> task_id row \<in> set ts"
  shows "prerequisites_met tasks results \<Longrightarrow> (\<And>x. x \<in> set accepted \<Longrightarrow> \<exists>r \<in> set results. row_success r \<and> task_id r = x) \<Longrightarrow>
    prerequisites_met tasks (run_waves tasks cancelled run_wave i waves accepted results)"
proof (induction waves arbitrary: i accepted results)
  case (Cons wave waves)
  let ?runnable = "filter (\<lambda>t. list_all (\<lambda>d. d \<in> set accepted) (task_dependencies (tasks t))) wave"
  let ?rows = "run_wave i ?runnable"
  have deps: "set (task_dependencies (tasks (task_id row))) \<subseteq> set accepted" if "row \<in> set ?rows" for row
    using rows [OF that] by (simp add: list_all_iff subset_iff)
  have met: "prerequisites_met tasks (results @ ?rows)"
    by (rule prerequisites_met_append [OF Cons.prems(1,2) deps])
  have "prerequisites_met tasks (run_waves tasks cancelled run_wave (Suc i) waves
      (accepted @ map task_id (filter row_success ?rows)) (results @ ?rows))"
    by (rule Cons.IH [OF met]) (use Cons.prems(2) in auto)
  moreover have "prerequisites_met tasks (run_waves tasks cancelled run_wave (Suc i) waves accepted results)"
    by (rule Cons.IH [OF Cons.prems])
  ultimately show ?case
    using met Cons.prems(1)
    by (cases "cancelled i"; cases "?runnable = []"; cases "list_ex (\<lambda>row. \<not> row_success row) ?rows")
      (simp_all add: Let_def)
qed simp

lemma decide_terminal_unapproved:
  "decide_terminal results False False refused open_receipt unreceipted =
     (if unreceipted then ''effect_unknown'' else if refused \<or> open_receipt then ''blocked'' else ''no_ship'')"
  by (simp add: decide_terminal_def)

lemma evaluate_review_Inr:
  assumes "evaluate_review d plan results refused open_receipt external root = Inr r"
  shows "v_terminal r \<in> {''effect_unknown'', ''blocked'', ''no_ship''}"
    "v_authority_error r = ''E_WORKFLOW_PRODUCT_AUTHORITY_UNAVAILABLE''"
    "\<not> v_verifier_approved r" "\<not> v_skeptic_approved r" "\<not> v_product_authority_verified r"
  using assms by (auto simp: evaluate_review_def result_simps Let_def decide_terminal_unapproved split: if_splits)

end
