(* ===== verification/WorkflowEvidence.thy ===== *)
theory WorkflowEvidence
  imports WorkflowRunner
begin

text \<open>
  What the result gate (\<open>workflows/review.py\<close>) demands of a successful task: the inversions of its
  checks, the property, and a task, a launch receipt and a file tree that satisfy it.
\<close>

section \<open>Evidence of success\<close>













section \<open>A successful task\<close>






















end
