(* ===== verification/WorkflowRunSafety.thy ===== *)
theory WorkflowRunSafety
  imports WorkflowEvidence WorkflowDemo
begin

text \<open>
  The properties of the runner (\<open>workflows/runner.py\<close>): how a wave runs its tasks, in which order the
  tasks of a run start, and which terminals a run can reach.
\<close>

section \<open>A wave\<close>




section \<open>The run\<close>


lemma run_waves_once:
  assumes rows: "\<And>i ts. mset (map task_id (run_wave i ts)) = mset ts"
  shows "mset (map task_id (run_waves tasks cancelled run_wave i waves accepted results))
    \<subseteq># mset (map task_id results) + mset (concat waves)"
proof (induction waves arbitrary: i accepted results)
  case (Cons wave waves)
  let ?runnable = "filter (\<lambda>t. list_all (\<lambda>d. d \<in> set accepted) (task_dependencies (tasks t))) wave"
  let ?rows = "run_wave i ?runnable"
  let ?accepted = "accepted @ map task_id (filter row_success ?rows)"
  have new: "mset (map task_id ?rows) \<subseteq># mset wave" by (simp add: rows multiset_filter_subset del: mset_map)
  have "mset (map task_id (run_waves tasks cancelled run_wave (Suc i) waves ?accepted (results @ ?rows)))
      \<subseteq># mset (map task_id results) + mset (map task_id ?rows) + mset (concat waves)"
    using Cons.IH [of "Suc i" ?accepted "results @ ?rows"] by simp
  also have "\<dots> \<subseteq># mset (map task_id results) + mset wave + mset (concat waves)"
    using new by (simp del: mset_map)
  finally have next_wave: "mset (map task_id (run_waves tasks cancelled run_wave (Suc i) waves ?accepted (results @ ?rows)))
      \<subseteq># mset (map task_id results) + mset (concat (wave # waves))" by (simp add: ac_simps)
  have skipped: "mset (map task_id (run_waves tasks cancelled run_wave (Suc i) waves accepted results))
      \<subseteq># mset (map task_id results) + mset (concat (wave # waves))"
    using Cons.IH [of "Suc i" accepted results] by (simp add: subset_mset.add_increasing2 subset_mset.add_left_mono
        subset_mset.order_trans [OF _ mset_subset_eq_add_right] union_lcomm)
  have "mset (map task_id (results @ ?rows)) \<subseteq># mset (map task_id results) + mset wave"
    using new by (simp del: mset_map add: mset_map [symmetric])
  also have "\<dots> \<subseteq># mset (map task_id results) + mset (concat (wave # waves))" by simp
  finally show ?case
    using next_wave skipped
    by (cases "cancelled i"; cases "?runnable = []"; cases "list_ex (\<lambda>row. \<not> row_success row) ?rows")
      (simp_all add: Let_def)
qed simp






lemma sort_results_Inr:
  assumes "sort_results plan rows = Inr results"
  shows "mset results = mset rows"
    "sorted (map (\<lambda>row. the (map_of (task_order plan) (task_id row))) results)"
proof -
  let ?key = "\<lambda>row. the (map_of (task_order plan) (task_id row))"
  obtain ks where ks: "mapE (\<lambda>row. lookup_key (task_order plan) (task_id row)) rows = Inr ks"
    and results: "results = map snd (sort_key fst (zip ks rows))"
    using assms by (auto simp: sort_results_def result_simps)
  have key: "ks = map ?key rows"
    using ks by (induction rows arbitrary: ks) (auto simp: result_simps lookup_key_def split: option.splits)
  have "mset results = image_mset snd (mset (zip ks rows))" unfolding results by simp
  also have "\<dots> = mset rows" using key by (metis length_map map_snd_zip mset_map)
  finally show "mset results = mset rows" .
  have "fst p = ?key (snd p)" if "p \<in> set (zip ks rows)" for p
    using that unfolding key by (auto simp: in_set_zip)
  then have "map ?key results = map fst (sort_key fst (zip ks rows))"
    unfolding results by simp
  then show "sorted (map ?key results)" by simp
qed

lemma run_workflow_Inr:
  assumes "run_workflow d workflow_input l root run_wave cancelled cancelled_end = Inr s"
  obtains compiled where "compile_workflow d = Inr compiled"
    and "build_plan compiled workflow_input (l_repository_id l) (l_generation l) = Inr (s_plan s)"
    and "\<not> s_admitted s" "s_results s = []" "s_replay s = None" "s_terminal s = ''blocked''"
    and "evaluate_review compiled (s_plan s) [] True False False None = Inr (s_review s)"
  | compiled rp where "compile_workflow d = Inr compiled"
    and "build_plan compiled workflow_input (l_repository_id l) (l_generation l) = Inr (s_plan s)"
    and "s_admitted s"
    and "sort_results (s_plan s) (run_waves (plan_task (s_plan s)) cancelled (run_wave (s_plan s)) 0
        (waves_of (s_plan s)) [] []) = Inr (s_results s)"
    and "evaluate_review compiled (s_plan s) (s_results s) False False False (Some root) = Inr (s_review s)"
    and "assess_replay (s_plan s) (s_results s) = Inr rp" "s_replay s = Some rp"
    and "s_terminal s = run_terminal cancelled_end (s_review s) rp"
proof -
  obtain compiled plan allowed rows where compiled: "compile_workflow d = Inr compiled"
    and plan: "build_plan compiled workflow_input (l_repository_id l) (l_generation l) = Inr plan"
    and rest: "(if \<not> allowed then
       bindE (evaluate_review compiled plan [] True False False None) (\<lambda>r.
       Inr \<lparr>s_plan = plan, s_admitted = False, s_results = [], s_review = r, s_replay = None, s_terminal = ''blocked''\<rparr>)
     else
       bindE (sort_results plan (run_waves (plan_task plan) cancelled (run_wave plan) 0 (waves_of plan) [] [])) (\<lambda>results.
       bindE (evaluate_review compiled plan results False False False (Some root)) (\<lambda>r.
       bindE (assess_replay plan results) (\<lambda>rp.
       Inr \<lparr>s_plan = plan, s_admitted = True, s_results = results, s_review = r, s_replay = Some rp,
         s_terminal = run_terminal cancelled_end r rp\<rparr>)))) = Inr s"
    using assms unfolding run_workflow_def bindE_eq_Inr prod.case_eq_if by blast
  show ?thesis
  proof (cases allowed)
    case True
    with rest obtain results r rp where steps:
      "sort_results plan (run_waves (plan_task plan) cancelled (run_wave plan) 0 (waves_of plan) [] []) = Inr results"
      "evaluate_review compiled plan results False False False (Some root) = Inr r" "assess_replay plan results = Inr rp"
      and "s = \<lparr>s_plan = plan, s_admitted = True, s_results = results, s_review = r, s_replay = Some rp,
         s_terminal = run_terminal cancelled_end r rp\<rparr>"
      by (simp add: bindE_eq_Inr) blast
    then show ?thesis using that(2) [OF compiled] plan by simp
  next
    case False
    with rest obtain r where "evaluate_review compiled plan [] True False False None = Inr r"
      and "s = \<lparr>s_plan = plan, s_admitted = False, s_results = [], s_review = r, s_replay = None, s_terminal = ''blocked''\<rparr>"
      by (simp add: bindE_eq_Inr) blast
    then show ?thesis using that(1) [OF compiled] plan by simp
  qed
qed


text \<open>C20: no run ever ships: product authority is absent, so whatever the tasks return, the run ends blocked,
  cancelled, unknown in its effects or not shipped; a definition that is not admitted runs no task and
  ends blocked; an unknown effect outweighs a cancellation, and a cancellation outweighs the review.\<close>

theorem run_never_ships:
  assumes "run_workflow d workflow_input l root run_wave cancelled cancelled_end = Inr s"
  shows "s_terminal s \<in> {''blocked'', ''cancelled'', ''effect_unknown'', ''no_ship''}
    \<and> \<not> v_verifier_approved (s_review s) \<and> \<not> v_skeptic_approved (s_review s)
    \<and> (\<not> s_admitted s \<longrightarrow> s_results s = [] \<and> s_terminal s = ''blocked'')
    \<and> (\<forall>rp. s_replay s = Some rp \<longrightarrow> s_terminal s =
         (if terminal rp = ''effect_unknown'' then ''effect_unknown''
          else if cancelled_end then ''cancelled'' else v_terminal (s_review s)))"
  using assms
proof (cases rule: run_workflow_Inr)
  case (1 compiled)
  then show ?thesis using evaluate_review_Inr(3,4) [OF 1(7)] by simp
next
  case (2 compiled rp)
  then show ?thesis using evaluate_review_Inr [OF 2(5)] by (auto simp: run_terminal_def)
qed

section \<open>A run of the demonstration workflow\<close>

definition demo_launch :: launch where
  "demo_launch = \<lparr>l_repository_id = ''OMG'', l_generation = 0, l_policy = ALLOWED_PERMISSIONS,
     l_host = ALLOWED_PERMISSIONS, l_receipt = ALLOWED_PERMISSIONS, l_mcp = None, l_paths = None\<rparr>"

definition demo_failed :: "string \<Rightarrow> dict" where
  "demo_failed t = [(''task_id'', JStr t), (''status'', JStr ''failed'')]"

definition demo_wave :: "dict \<Rightarrow> nat \<Rightarrow> string list \<Rightarrow> dict list" where
  "demo_wave plan i ts = map demo_failed ts"

lemma demo_wave_ids: "mset (map task_id (demo_wave plan i ts)) = mset ts"
  by (induction ts) (simp_all add: demo_wave_def demo_failed_def task_id_def)

lemma demo_plan:
  obtains plan dg where "build_plan demo demo_input ''OMG'' 0 = Inr plan"
    "dget plan ''plan_digest'' = JStr dg" "strings (dget plan ''stage_order'') = [''write'', ''verify'', ''doubt'']"
    "mset (concat (waves_of plan)) = mset (map task_id (tasks_of plan))"
proof -
  obtain levels plan where plan: "build_plan demo demo_input ''OMG'' 0 = Inr plan"
    and tasks: "tasks_of plan = plan_tasks demo ''OMG'' 0 demo_input_digest [''write'', ''verify'', ''doubt'']"
    and waves: "waves_of plan = level_waves (tasks_of plan) levels"
    and levels: "set (map fst levels) = set [''write'', ''verify'', ''doubt'']"
    by (rule build_plan_total [OF demo_is_canonical(1) demo_run demo_plan_inputs])
  obtain body_tasks body_waves input digest dg where "plan = plan_body demo ''OMG'' 0 input digest [''write'', ''verify'', ''doubt''] body_tasks body_waves
      @ [(''plan_digest'', JStr dg), (''run_id'', JStr (''workflow-'' @ take 32 dg))]"
    using plan demo_order unfolding build_plan_def bindE_eq_Inr Let_def demo_compiles
    by auto
  then have "dget plan ''plan_digest'' = JStr dg" "strings (dget plan ''stage_order'') = [''write'', ''verify'', ''doubt'']"
    by (simp_all add: plan_body_def strings_def rows_of_def)
  then show ?thesis
    using that [OF plan] waves_cover [OF levels, of demo "''OMG''" 0 demo_input_digest, folded tasks, folded waves] by blast
qed

lemma demo_admitted:
  "\<exists>rows. admit_definition demo ALLOWED_PERMISSIONS ALLOWED_PERMISSIONS ALLOWED_PERMISSIONS None None = Inr (True, rows)"
proof -
  have "case admit_definition demo ALLOWED_PERMISSIONS ALLOWED_PERMISSIONS ALLOWED_PERMISSIONS None None of
      Inr (allowed, rows) \<Rightarrow> allowed | Inl e \<Rightarrow> False"
    unfolding admit_definition_def demo_stages_of by code_simp
  then show ?thesis by (auto split: sum.splits)
qed

lemma demo_rows_refused:
  assumes "dget plan ''plan_digest'' = JStr dg"
  shows "\<exists>ai. collect_results c plan root (map demo_failed ts) actual invalid = Inr ai"
    "\<exists>st'. assess_rows plan tasks (map demo_failed ts) st = Inr st'"
proof -
  have unbound: "\<not> result_bound plan task (demo_failed t)" "\<not> bound_row plan (demo_failed t)" for task t
    using assms by (auto simp: result_bound_def task_binding_def bound_row_def json_eq_def demo_failed_def py_eq_JStr_right)
  show "\<exists>ai. collect_results c plan root (map demo_failed ts) actual invalid = Inr ai"
    by (induction ts arbitrary: actual invalid) (auto simp: Let_def unbound split: option.splits)
  show "\<exists>st'. assess_rows plan tasks (map demo_failed ts) st = Inr st'"
    by (induction ts arbitrary: st) (auto simp: assess_row_def Let_def unbound split: option.splits)
qed

lemma demo_stage_results:
  assumes "strings (dget plan ''stage_order'') = [''write'', ''verify'', ''doubt'']"
  shows "\<exists>rs. stage_results_of demo plan actual = Inr rs"
proof -
  have "list_all (\<lambda>sid. find (\<lambda>stage. json_same (dget stage ''id'') (JStr sid)) demo_stages \<noteq> None) [''write'', ''verify'', ''doubt'']"
    by code_simp
  then have "\<exists>stage. stage_of demo [(''stage_id'', JStr sid)] = Inr stage" if "sid \<in> set [''write'', ''verify'', ''doubt'']" for sid
    using that unfolding list_all_iff stage_of_def demo_stages_of by (fastforce split: option.splits)
  then obtain a b c where "stage_of demo [(''stage_id'', JStr ''write'')] = Inr a"
    "stage_of demo [(''stage_id'', JStr ''verify'')] = Inr b" "stage_of demo [(''stage_id'', JStr ''doubt'')] = Inr c"
    by (meson list.set_intros)
  then show ?thesis by (simp add: stage_results_of_def assms)
qed

lemma run_waves_rows:
  assumes "\<And>i ts. set (run_wave i ts) \<subseteq> range f"
  shows "set results \<subseteq> range f \<Longrightarrow> set (run_waves tasks cancelled run_wave i waves accepted results) \<subseteq> range f"
proof (induction waves arbitrary: i accepted results)
  case (Cons wave waves)
  then show ?case using assms by (simp add: Let_def)
qed simp

lemma demo_runs:
  obtains s where "run_workflow demo demo_input demo_launch root demo_wave (\<lambda>i. False) False = Inr s" "s_admitted s"
proof -
  obtain plan dg where plan: "build_plan demo demo_input ''OMG'' 0 = Inr plan" "dget plan ''plan_digest'' = JStr dg"
    "strings (dget plan ''stage_order'') = [''write'', ''verify'', ''doubt'']"
    and cover: "mset (concat (waves_of plan)) = mset (map task_id (tasks_of plan))"
    by (rule demo_plan)
  obtain rows where admitted: "admit_definition demo ALLOWED_PERMISSIONS ALLOWED_PERMISSIONS ALLOWED_PERMISSIONS None None = Inr (True, rows)"
    using demo_admitted by blast
  let ?rows = "run_waves (plan_task plan) (\<lambda>i. False) (demo_wave plan) 0 (waves_of plan) [] []"
  have "mset (map task_id ?rows) \<subseteq># mset (map task_id (tasks_of plan))"
    using run_waves_once [of "demo_wave plan", OF demo_wave_ids, where results = "[]"] unfolding cover [symmetric] by simp
  then have known: "task_id row \<in> set (map task_id (tasks_of plan))" if "row \<in> set ?rows" for row
    using that by (metis image_eqI list.set_map set_mset_mono set_mset_mset subsetD)
  then have key: "\<exists>k. lookup_key (task_order plan) (task_id row) = Inr k" if "row \<in> set ?rows" for row
  proof -
    have "map fst (zip (map task_id (tasks_of plan)) [0..<length (tasks_of plan)]) = map task_id (tasks_of plan)" by simp
    then have "task_id row \<in> fst ` set (task_order plan)" 
      using known [OF that] unfolding task_order_def set_rev list.set_map [symmetric] by (simp only:)
    then show ?thesis by (cases "map_of (task_order plan) (task_id row)") (auto simp: lookup_key_def map_of_eq_None_iff)
  qed
  have "\<exists>ks. mapE (\<lambda>row. lookup_key (task_order plan) (task_id row)) rs = Inr ks" if "set rs \<subseteq> set ?rows" for rs
    using that by (induction rs) (use key in \<open>fastforce+\<close>)
  then obtain results where sorted: "sort_results plan ?rows = Inr results" by (fastforce simp: sort_results_def)
  have "set results = set ?rows" using sort_results_Inr(1) [OF sorted] by (rule mset_eq_setD)
  also have "\<dots> \<subseteq> range demo_failed" by (rule run_waves_rows) (auto simp: demo_wave_def)
  finally obtain ts where results: "results = map demo_failed ts" by (metis ex_map_conv image_iff subset_iff)
  obtain st where st: "assess_rows plan (tasks_by_id plan) results \<lparr>r_ambiguous = [], r_unknown = [], r_seen = []\<rparr> = Inr st"
    using demo_rows_refused(2) [OF plan(2)] unfolding results by blast
  obtain actual invalid where collected: "collect_results demo plan (Some root) results [] [] = Inr (actual, invalid)"
    using demo_rows_refused(1) [OF plan(2)] unfolding results by (metis surj_pair)
  obtain outcomes where "stage_results_of demo plan actual = Inr outcomes"
    using demo_stage_results [OF plan(3)] by blast
  then obtain r where reviewed: "evaluate_review demo plan results False False False (Some root) = Inr r"
    using collected by (simp add: evaluate_review_def demo_compiles Let_def)
  obtain rp where "assess_replay plan results = Inr rp" using st by (simp add: assess_replay_def)
  then show ?thesis
    using that [of "\<lparr>s_plan = plan, s_admitted = True, s_results = results, s_review = r, s_replay = Some rp,
         s_terminal = run_terminal False r rp\<rparr>"] reviewed sorted admitted plan(1)
    by (simp add: run_workflow_def demo_compiles demo_launch_def)
qed

theorem run_never_ships_witness:
  "\<exists>s. run_workflow demo demo_input demo_launch (\<lambda>p. None) demo_wave (\<lambda>i. False) False = Inr s \<and> s_admitted s
     \<and> s_terminal s \<in> {''blocked'', ''cancelled'', ''effect_unknown'', ''no_ship''}"
proof -
  obtain s where "run_workflow demo demo_input demo_launch (\<lambda>p. None) demo_wave (\<lambda>i. False) False = Inr s" "s_admitted s"
    by (rule demo_runs)
  with run_never_ships show ?thesis by blast
qed


section \<open>Rows the runner writes itself\<close>

lemma failure_row_output: "dget (failure_row plan task status verdict err) ''output'' = JObj [(''verdict'', JStr verdict)]"
  by (simp add: failure_row_def task_binding_def)

lemma failure_row_refused:
  assumes "stage_of d task = Inr stage"
    and "validate_stage_output stage (JObj [(''verdict'', JStr verdict)]) = Inl WorkflowSchemaError"
  shows "normalize_task_result d plan task (failure_row plan task status verdict err) root = Inl WorkflowReviewError"
proof -
  have "validate_task_receipt_identity p t r = Inl e \<Longrightarrow> e = WorkflowReviewError" for p t r e
    by (simp add: validate_task_receipt_identity_def review_check_def check_def split: if_splits)
  then show ?thesis
    using assms
    by (cases "validate_task_receipt_identity plan task (failure_row plan task status verdict err)")
      (auto simp: normalize_task_result_def failure_row_output schema_as_review_error_def)
qed

text \<open>the runner's own rows pass through the output schema of the stage: when that schema refuses the
  object \<open>{"verdict": "NO_SHIP"}\<close>, for example because it requires one more field, then neither the task whose
  attempts have all failed nor the supervisor of its wave can record the failure, and both raise.\<close>

theorem failed_task_needs_open_schema:
  assumes "stage_of d task = Inr stage"
    and "validate_stage_output stage (JObj [(''verdict'', JStr ''NO_SHIP'')]) = Inl WorkflowSchemaError"
    and "dget task ''retry_budget'' = JInt n" and "\<And>i raw. callback i \<noteq> Returns raw"
  shows "terminal_task_result d plan task ''failed'' err = Inl WorkflowReviewError
    \<and> execute_one d plan task root message callback False = Inl WorkflowReviewError"
proof
  show "terminal_task_result d plan task ''failed'' err = Inl WorkflowReviewError"
    using failure_row_refused [OF assms(1,2)] by (simp add: terminal_task_result_def terminal_verdict_def)
  have attempts: "(\<And>c raw. c \<in> set cs \<Longrightarrow> c \<noteq> Returns raw) \<Longrightarrow> run_attempts d plan task root message cs e = Inl WorkflowReviewError" for cs e
    by (induction cs arbitrary: e) (auto simp: failure_row_refused [OF assms(1,2)] split: callback.splits)
  have "run_attempts d plan task root message (map callback [0..<nat (n + 1)]) ''None'' = Inl WorkflowReviewError"
    by (rule attempts) (use assms(4) in auto)
  then show "execute_one d plan task root message callback False = Inl WorkflowReviewError"
    using assms(3) by (simp add: execute_one_def py_int_def)
qed

definition strict_task :: dict where
  "strict_task = [(''task_id'', JStr ''t''), (''stage_id'', JStr ''s''), (''retry_budget'', JInt 1)]"

definition strict_definition :: dict where
  "strict_definition = [(''stages'', JList [JObj [(''id'', JStr ''s''),
     (''output_schema'', JObj [(''type'', JStr ''object''), (''required'', JList [JStr ''verdict'', JStr ''summary''])])]])]"

theorem failed_task_needs_open_schema_witness:
  "execute_one strict_definition [] strict_task None (\<lambda>e. []) (\<lambda>i. Fails ''boom'') False = Inl WorkflowReviewError"
proof -
  let ?stage = "[(''id'', JStr ''s''),
     (''output_schema'', JObj [(''type'', JStr ''object''), (''required'', JList [JStr ''verdict'', JStr ''summary''])])]"
  have "stage_of strict_definition strict_task = Inr ?stage" by code_simp
  moreover have "validate_stage_output ?stage (JObj [(''verdict'', JStr ''NO_SHIP'')]) = Inl WorkflowSchemaError" by code_simp
  moreover have "dget strict_task ''retry_budget'' = JInt 1" by code_simp
  ultimately show ?thesis
    using failed_task_needs_open_schema [of strict_definition strict_task ?stage 1 "\<lambda>i. Fails ''boom''"] by simp
qed

end
