(* ===== verification/GoalStories.thy ===== *)
theory GoalStories
  imports CanonicalJson
begin

text \<open>
  The stories of a goal (\<open>goals.py\<close>): the validation of the story graph a goal is created with, and the
  readiness of a story, which follows from the stories it depends on.  The dictionary of stories is an
  association list in the order of its keys.  \<open>EvidenceError\<close> is what \<open>validate_identifier\<close> of \<open>evidence.py\<close>
  raises, \<open>RuntimeError\<close> the guard of the environment.
\<close>

datatype goal_exc = GoalError | GoalRepairRefused | EvidenceError | RuntimeError | GoalRaised py_exc

section \<open>Identifiers\<close>

definition IDENTIFIER_RE :: "string \<Rightarrow> bool" where
  \<comment> \<open>\<open>[A-Za-z0-9][A-Za-z0-9._-]{0,127}\<close>\<close>
  "IDENTIFIER_RE s \<longleftrightarrow> s \<noteq> [] \<and> is_ascii_alnum (hd s) \<and> length s \<le> 128
     \<and> list_all (\<lambda>c. is_ascii_alnum c \<or> c \<in> set ''._-'') (tl s)"

definition validate_identifier :: "string \<Rightarrow> goal_exc + string" where
  "validate_identifier s = (let normalized = strip s in
     if IDENTIFIER_RE normalized then Inr normalized else Inl EvidenceError)"

section \<open>Stories\<close>

datatype story_status = Pending | Ready | InProgress | Blocked | Complete

record checkpoint_evidence =
  ce_path :: string
  ce_sha256 :: string
  ce_message :: string
  ce_at :: string

record story =
  st_id :: string
  st_title :: string
  st_depends_on :: "string list"
  st_acceptance :: string
  st_status :: story_status
  st_block_reason :: "string option"
  st_next_action :: "string option"
  st_evidence :: "checkpoint_evidence list"
  st_checkpoints :: int

type_synonym stories = "(string \<times> story) list"

definition or_text :: "json \<Rightarrow> string \<Rightarrow> string" where
  \<comment> \<open>\<open>str(v or other)\<close>\<close>
  "or_text v other = (if truthy v then text_of (py_str v) else other)"

definition read_story :: "stories \<Rightarrow> json \<Rightarrow> goal_exc + string \<times> story" where
  \<comment> \<open>the loop body; the first argument is \<open>by_id\<close>\<close>
  "read_story by_id raw = (case raw of
     JObj d \<Rightarrow>
       bindE (validate_identifier (text_of (py_str (dget_or d ''id'' (JStr []))))) (\<lambda>sid.
       bindE (check (sid \<notin> set (map fst by_id)) GoalError) (\<lambda>_.
       let acceptance = strip (or_text (dget d ''acceptance'') []) in
       bindE (check (acceptance \<noteq> []) GoalError) (\<lambda>_.
       bindE (if \<not> truthy (dget d ''depends_on'') then Inr []
              else (case dget d ''depends_on'' of
                JList ds \<Rightarrow> if list_all is_str ds then Inr ds else Inl GoalError
              | _ \<Rightarrow> Inl GoalError)) (\<lambda>depends_on.
       bindE (mapE (\<lambda>x. validate_identifier (text_of x)) depends_on) (\<lambda>dep_ids.
       Inr (sid, \<lparr>st_id = sid, st_title = strip (or_text (dget d ''title'') sid), st_depends_on = dep_ids,
         st_acceptance = acceptance, st_status = Pending, st_block_reason = None, st_next_action = None,
         st_evidence = [], st_checkpoints = 0\<rparr>))))))
   | _ \<Rightarrow> Inl GoalError)"

fun read_stories :: "json list \<Rightarrow> stories \<Rightarrow> goal_exc + stories" where
  "read_stories [] by_id = Inr by_id"
| "read_stories (raw # raws) by_id = bindE (read_story by_id raw) (\<lambda>entry. read_stories raws (by_id @ [entry]))"

section \<open>Kahn's algorithm\<close>

type_synonym open_deps = "(string \<times> string list) list"

definition settle :: "string \<Rightarrow> open_deps \<Rightarrow> open_deps" where
  \<comment> \<open>\<open>deps.remove(sid)\<close> wherever it occurs\<close>
  "settle sid remaining = map (\<lambda>(other, deps). (other, filter (\<lambda>d. d \<noteq> sid) deps)) remaining"

definition freed :: "string \<Rightarrow> string list \<Rightarrow> open_deps \<Rightarrow> string list" where
  \<comment> \<open>the stories whose last dependency is \<open>sid\<close>\<close>
  "freed sid ordered remaining = map fst (filter (\<lambda>(other, deps).
     sid \<in> set deps \<and> filter (\<lambda>d. d \<noteq> sid) deps = [] \<and> other \<notin> set ordered) remaining)"

definition open_count :: "open_deps \<Rightarrow> nat" where
  "open_count remaining = sum_list (map (\<lambda>(other, deps). length deps) remaining)"

lemma freed_settle: "open_count (settle sid remaining) + length (freed sid ordered remaining) \<le> open_count remaining"
proof (induction remaining)
  case (Cons r remaining)
  obtain other deps where r: "r = (other, deps)" by fastforce
  have "sid \<in> set deps \<Longrightarrow> 1 \<le> length deps" by (cases deps) simp_all
  moreover have "length (filter (\<lambda>d. d \<noteq> sid) deps) \<le> length deps" by simp
  ultimately show ?case
    using Cons unfolding r
    by (cases "sid \<in> set deps \<and> filter (\<lambda>d. d \<noteq> sid) deps = []")
      (auto simp: open_count_def settle_def freed_def simp del: length_filter_le)
qed (simp add: open_count_def settle_def freed_def)

function kahn :: "string list \<Rightarrow> string list \<Rightarrow> open_deps \<Rightarrow> string list" where
  \<comment> \<open>the loop; the first argument is \<open>ready\<close> with its end first, since \<open>pop\<close> takes the last\<close>
  "kahn [] ordered remaining = ordered"
| "kahn (sid # stack) ordered remaining =
     kahn (rev (freed sid (ordered @ [sid]) remaining) @ stack) (ordered @ [sid]) (settle sid remaining)"
  by pat_completeness auto
termination
proof (relation "measure (\<lambda>(stack, ordered, remaining). 2 * open_count remaining + length stack)")
  show "((rev (freed sid (ordered @ [sid]) remaining) @ stack, ordered @ [sid], settle sid remaining),
      (sid # stack, ordered, remaining)) \<in> measure (\<lambda>(stack, ordered, remaining). 2 * open_count remaining + length stack)"
    for sid stack ordered remaining
    using freed_settle [of sid remaining "ordered @ [sid]"] by simp
qed simp

definition open_of :: "stories \<Rightarrow> open_deps" where
  "open_of by_id = map (\<lambda>(sid, s). (sid, remdups (st_depends_on s))) by_id"

definition story_order :: "stories \<Rightarrow> string list" where
  "story_order by_id = kahn (rev (map fst (filter (\<lambda>(sid, deps). deps = []) (open_of by_id)))) [] (open_of by_id)"

definition validate_story_graph :: "json list \<Rightarrow> goal_exc + stories" where
  "validate_story_graph raws =
     bindE (check (raws \<noteq> []) GoalError) (\<lambda>_.
     bindE (read_stories raws []) (\<lambda>by_id.
     bindE (check (list_all (\<lambda>(sid, s). set (st_depends_on s) \<subseteq> set (map fst by_id)) by_id) GoalError) (\<lambda>_.
     bindE (check (length (story_order by_id) = length by_id) GoalError) (\<lambda>_.
     Inr (map (\<lambda>(sid, s). (sid, s\<lparr>st_status := (if st_depends_on s = [] then Ready else Pending)\<rparr>)) by_id)))))"

section \<open>Readiness\<close>

fun deps_complete :: "stories \<Rightarrow> string list \<Rightarrow> goal_exc + bool" where
  \<comment> \<open>\<open>all(stories[d]["status"] == "complete" for d in deps)\<close>\<close>
  "deps_complete stories [] = Inr True"
| "deps_complete stories (d # ds) = (case map_of stories d of
     None \<Rightarrow> Inl (GoalRaised KeyError)
   | Some s \<Rightarrow> if st_status s = Complete then deps_complete stories ds else Inr False)"

definition refresh_ready :: "stories \<Rightarrow> goal_exc + stories" where
  \<comment> \<open>the loop never makes or unmakes a complete story, so it may read the stories it started with\<close>
  "refresh_ready stories = mapE (\<lambda>(sid, s).
     if st_status s \<notin> {Pending, Ready} then Inr (sid, s)
     else bindE (deps_complete stories (st_depends_on s)) (\<lambda>deps_ok.
       Inr (sid, s\<lparr>st_status := (if deps_ok then Ready else Pending)\<rparr>))) stories"

definition update_story :: "string \<Rightarrow> (story \<Rightarrow> story) \<Rightarrow> stories \<Rightarrow> stories" where
  \<comment> \<open>the assignments to fields of \<open>stories[sid]\<close>\<close>
  "update_story sid f stories = map (\<lambda>(k, s). (k, if k = sid then f s else s)) stories"

end
