(* ===== verification/GoalLedger.thy ===== *)
theory GoalLedger
  imports GoalStories
begin

text \<open>
  The ledger and the snapshot of a goal (\<open>goals.py\<close>).  An event carries the hash of the event before it;
  the ledger file is the list of its lines, each as \<open>json.loads\<close> finds it, with the objects of the CLI as
  records.  The snapshot file is a record too, or missing, unreadable or without the writer's
  stamp.  Identifiers of invocations and times are arguments.
\<close>

section \<open>Events\<close>

datatype event_body =
    GoalCreated string string "string option" "string option" "story list"
      \<comment> \<open>title, objective, hashes of the specification and the plan, stories\<close>
  | RunLinked string json json
      \<comment> \<open>run, its mode, its status\<close>
  | StoryStarted string
  | Checkpoint string string string string
      \<comment> \<open>story, message, path and digest of the evidence\<close>
  | StoryBlocked string string "string option"
  | StoryResumed string
  | StoryCompleted string
  | ProposalImported string string string
  | GoalVerified string
  | LedgerRepaired string string string int string string string
      \<comment> \<open>digest of the damaged ledger, backup, its digest, sequence and hash of the valid prefix, reason, kind\<close>
  | OtherEvent string dict
      \<comment> \<open>of a type the CLI does not write\<close>

definition EVENT_TYPES :: "string list" where
  "EVENT_TYPES = [''goal_created'', ''run_linked'', ''story_started'', ''checkpoint'', ''story_blocked'', ''story_resumed'',
     ''story_completed'', ''proposal_imported'', ''goal_verified'', ''ledger_repaired'', ''forensic_blocker'']"

fun event_type :: "event_body \<Rightarrow> string" where
  "event_type (GoalCreated t ob sh ph ss) = ''goal_created''"
| "event_type (RunLinked r m st) = ''run_linked''"
| "event_type (StoryStarted s) = ''story_started''"
| "event_type (Checkpoint s m p h) = ''checkpoint''"
| "event_type (StoryBlocked s r n) = ''story_blocked''"
| "event_type (StoryResumed s) = ''story_resumed''"
| "event_type (StoryCompleted s) = ''story_completed''"
| "event_type (ProposalImported p h n) = ''proposal_imported''"
| "event_type (GoalVerified r) = ''goal_verified''"
| "event_type (LedgerRepaired h b bh n ph r k) = ''ledger_repaired''"
| "event_type (OtherEvent t p) = t"

definition opt_str :: "string option \<Rightarrow> json" where
  "opt_str v = (case v of None \<Rightarrow> JNull | Some s \<Rightarrow> JStr s)"

fun status_text :: "story_status \<Rightarrow> string" where
  "status_text Pending = ''pending''"
| "status_text Ready = ''ready''"
| "status_text InProgress = ''in_progress''"
| "status_text Blocked = ''blocked''"
| "status_text Complete = ''complete''"

definition evidence_json :: "checkpoint_evidence \<Rightarrow> json" where
  "evidence_json e = JObj [(''path'', JStr (ce_path e)), (''sha256'', JStr (ce_sha256 e)),
     (''message'', JStr (ce_message e)), (''at'', JStr (ce_at e))]"

definition story_json :: "story \<Rightarrow> json" where
  "story_json s = JObj [(''id'', JStr (st_id s)), (''title'', JStr (st_title s)),
     (''depends_on'', JList (map JStr (st_depends_on s))), (''acceptance'', JStr (st_acceptance s)),
     (''status'', JStr (status_text (st_status s))), (''block_reason'', opt_str (st_block_reason s)),
     (''next_action'', opt_str (st_next_action s)), (''evidence'', JList (map evidence_json (st_evidence s))),
     (''checkpoints'', JInt (st_checkpoints s))]"

fun event_payload :: "event_body \<Rightarrow> dict" where
  "event_payload (GoalCreated t ob sh ph ss) = [(''title'', JStr t), (''objective'', JStr ob),
     (''source_spec_hash'', opt_str sh), (''source_plan_hash'', opt_str ph), (''stories'', JList (map story_json ss))]"
| "event_payload (RunLinked r m st) = [(''run_id'', JStr r), (''run_mode'', m), (''run_status'', st)]"
| "event_payload (StoryStarted s) = [(''story_id'', JStr s)]"
| "event_payload (Checkpoint s m p h) =
     [(''story_id'', JStr s), (''message'', JStr m), (''evidence_path'', JStr p), (''evidence_sha256'', JStr h)]"
| "event_payload (StoryBlocked s r n) = [(''story_id'', JStr s), (''reason'', JStr r), (''next_action'', opt_str n)]"
| "event_payload (StoryResumed s) = [(''story_id'', JStr s)]"
| "event_payload (StoryCompleted s) = [(''story_id'', JStr s)]"
| "event_payload (ProposalImported p h n) =
     [(''proposal_path'', JStr p), (''proposal_sha256'', JStr h), (''note'', JStr n), (''stamp'', JStr ''omg-cli-import'')]"
| "event_payload (GoalVerified r) = [(''run_id'', JStr r)]"
| "event_payload (LedgerRepaired h b bh n ph r k) = [(''original_sha256'', JStr h), (''backup_path'', JStr b),
     (''backup_sha256'', JStr bh), (''valid_prefix_seq'', JInt n), (''valid_prefix_hash'', JStr ph), (''reason'', JStr r),
     (''diagnosis_kind'', JStr k)]"
| "event_payload (OtherEvent t p) = p"

record event =
  e_sequence :: int
  e_prev_hash :: string
  e_body :: event_body
  e_goal_id :: string
  e_ts :: string
  e_invocation :: "string option"
  e_hash :: string

definition CLI_WRITER :: string where
  "CLI_WRITER = ''omg-cli''"

definition event_without_hash :: "event \<Rightarrow> dict" where
  "event_without_hash e = [(''schema_version'', JInt 1), (''writer'', JStr CLI_WRITER), (''sequence'', JInt (e_sequence e)),
     (''prev_hash'', JStr (e_prev_hash e)), (''type'', JStr (event_type (e_body e))), (''goal_id'', JStr (e_goal_id e)),
     (''ts'', JStr (e_ts e)), (''payload'', JObj (event_payload (e_body e)))]
     @ (case e_invocation e of None \<Rightarrow> [] | Some i \<Rightarrow> [(''invocation_id'', JStr i)])"

definition GENESIS_HASH :: string where
  "GENESIS_HASH = replicate 64 CHR ''0''"

definition hashed_bytes :: "string \<Rightarrow> event \<Rightarrow> bytes" where
  \<comment> \<open>the line feed ends \<open>prev_hash\<close> and the canonical text\<close>
  "hashed_bytes prev_hash e = utf8 prev_hash @ [10] @ utf8 (canonical_text (JObj (event_without_hash e))) @ [10]"

definition compute_event_hash :: "string \<Rightarrow> event \<Rightarrow> string" where
  "compute_event_hash prev_hash e = sha256_hex (hashed_bytes prev_hash e)"

definition build_event :: "int \<Rightarrow> string \<Rightarrow> event_body \<Rightarrow> string \<Rightarrow> string \<Rightarrow> string option \<Rightarrow> goal_exc + event" where
  "build_event sequence prev_hash body goal_id ts invocation =
     bindE (check (event_type body \<in> set EVENT_TYPES) GoalError) (\<lambda>_.
     let e = \<lparr>e_sequence = sequence, e_prev_hash = prev_hash, e_body = body, e_goal_id = goal_id, e_ts = ts,
       e_invocation = (case invocation of Some [] \<Rightarrow> None | i \<Rightarrow> i), e_hash = []\<rparr>
     in Inr (e\<lparr>e_hash := compute_event_hash prev_hash e\<rparr>))"

section \<open>Scanning the ledger\<close>

datatype ledger_line = BlankLine | BadLine | NonObject | EventLine event

datatype diagnosis = LedgerMissing | LedgerEmpty | TruncatedTail | InvalidFinalJson | MidChainBlank | MidChainInvalidJson
  | NonObjectLine | SequenceGap | PrevHashMismatch | EventHashMismatch | LedgerValid
  | SnapshotUnreadable | SnapshotDisagreement

definition eligible :: "diagnosis \<Rightarrow> bool" where
  "eligible d \<longleftrightarrow> d \<in> {TruncatedTail, InvalidFinalJson}"

definition healthy :: "diagnosis \<Rightarrow> bool" where
  \<comment> \<open>no failure reason\<close>
  "healthy d \<longleftrightarrow> d \<in> {LedgerEmpty, LedgerValid}"

fun scan_lines :: "event list \<Rightarrow> string \<Rightarrow> int \<Rightarrow> ledger_line list \<Rightarrow> event list \<times> diagnosis" where
  "scan_lines events prev_hash expected [] = (events, LedgerValid)"
| "scan_lines events prev_hash expected (BlankLine # lines) =
     (if lines = [] then (events, TruncatedTail) else ([], MidChainBlank))"
| "scan_lines events prev_hash expected (BadLine # lines) =
     (if lines = [] then (events, InvalidFinalJson) else ([], MidChainInvalidJson))"
| "scan_lines events prev_hash expected (NonObject # lines) = ([], NonObjectLine)"
| "scan_lines events prev_hash expected (EventLine e # lines) =
     (if e_sequence e \<noteq> expected then ([], SequenceGap)
      else if e_prev_hash e \<noteq> prev_hash then ([], PrevHashMismatch)
      else if e_hash e \<noteq> compute_event_hash prev_hash e then ([], EventHashMismatch)
      else scan_lines (events @ [e]) (e_hash e) (expected + 1) lines)"

definition scan_ledger :: "ledger_line list option \<Rightarrow> event list \<times> diagnosis" where
  "scan_ledger ledger = (case ledger of
     None \<Rightarrow> ([], LedgerMissing)
   | Some lines \<Rightarrow> if lines = [] then ([], LedgerEmpty) else scan_lines [] GENESIS_HASH 1 lines)"

section \<open>The files of a goal\<close>

datatype goal_state = Active | GoalBlocked | GoalComplete | GoalIsVerified | Forensic

datatype blocker =
    StoryBlocker string string "string option"
  | ForensicBlocker diagnosis

record snapshot =
  sn_goal_id :: string
  sn_title :: string
  sn_objective :: string
  sn_status :: goal_state
  sn_verified :: bool
  sn_stories :: stories
  sn_linked_runs :: "string list"
  sn_spec_hash :: "string option"
  sn_plan_hash :: "string option"
  sn_tail_sequence :: int
  sn_tail_hash :: string
  sn_revision :: int
  sn_created_at :: string
  sn_updated_at :: string
  sn_blocker :: "blocker option"
  sn_created_by :: "string option"
  sn_verified_run :: "string option"
  sn_verified_at :: "string option"

datatype snapshot_file = NoSnapshot | UnreadableSnapshot | ForeignSnapshot | Snapshot snapshot

record goal_files =
  g_snapshot :: snapshot_file
  g_ledger :: "ledger_line list option"
  g_backups :: "(string \<times> ledger_line list) list"

definition read_snapshot :: "goal_files \<Rightarrow> goal_exc + snapshot" where
  "read_snapshot files = (case g_snapshot files of Snapshot s \<Rightarrow> Inr s | _ \<Rightarrow> Inl GoalError)"

definition snapshot_matches :: "snapshot \<Rightarrow> event list \<Rightarrow> bool" where
  \<comment> \<open>\<open>_assert_snapshot_matches_ledger\<close> does not raise\<close>
  "snapshot_matches s events = (if events = [] then sn_tail_sequence s = 0 \<and> sn_tail_hash s = GENESIS_HASH
     else sn_tail_sequence s = e_sequence (last events) \<and> sn_tail_hash s = e_hash (last events))"

definition load_consistent :: "goal_files \<Rightarrow> goal_exc + snapshot \<times> event list" where
  "load_consistent files =
     bindE (read_snapshot files) (\<lambda>s.
     let (events, d) = scan_ledger (g_ledger files) in
     bindE (check (healthy d) GoalError) (\<lambda>_.
     bindE (check (snapshot_matches s events) GoalError) (\<lambda>_. Inr (s, events))))"

definition append_line :: "event \<Rightarrow> goal_files \<Rightarrow> goal_files" where
  \<comment> \<open>the first write: the line is appended to the ledger, which is created where it is missing\<close>
  "append_line e files = files\<lparr>g_ledger := Some ((case g_ledger files of None \<Rightarrow> [] | Some ls \<Rightarrow> ls) @ [EventLine e])\<rparr>"

definition stamp_snapshot :: "event \<Rightarrow> snapshot \<Rightarrow> snapshot" where
  "stamp_snapshot e s = s\<lparr>sn_tail_sequence := e_sequence e, sn_tail_hash := e_hash e, sn_updated_at := e_ts e,
     sn_revision := sn_revision s + 1\<rparr>"

definition append_event_and_snapshot :: "goal_files \<Rightarrow> snapshot \<Rightarrow> event \<Rightarrow> goal_files" where
  \<comment> \<open>the second write replaces the snapshot\<close>
  "append_event_and_snapshot files s e = (append_line e files)\<lparr>g_snapshot := Snapshot (stamp_snapshot e s)\<rparr>"

end
