(* ===== verification/GoalOps.thy ===== *)
theory GoalOps
  imports GoalLedger
begin

text \<open>
  The operations of a goal (\<open>goals.py\<close>).  Each checks the environment and the identifiers, takes the
  lock of the goal, loads a snapshot that agrees with its ledger, changes the snapshot, and appends one
  event; the change is a step from a snapshot to the body of the event and the new snapshot, or to
  nothing where the operation finds its work done.  Loaded runs, evidence files and proposals are
  arguments.  The value returned by each operation is the status of the goal, \<open>goal_status\<close>.
\<close>

section \<open>Calls\<close>

record goal_call =
  gc_safe :: bool
    \<comment> \<open>\<open>assert_safe_supervised_parent\<close> does not raise\<close>
  gc_ts :: string
  gc_at :: string
  gc_invocation :: string

type_synonym goal_store = "string \<Rightarrow> goal_files"

definition goal_op :: "goal_call \<Rightarrow> string \<Rightarrow> (string \<Rightarrow> goal_files \<Rightarrow> goal_exc + goal_files) \<Rightarrow> goal_store \<Rightarrow>
    goal_exc + goal_store" where
  "goal_op c goal_id f store =
     bindE (check (gc_safe c) RuntimeError) (\<lambda>_.
     bindE (validate_identifier goal_id) (\<lambda>gid.
     bindE (f gid (store gid)) (\<lambda>files. Inr (store(gid := files)))))"

type_synonym goal_change = "snapshot \<Rightarrow> goal_exc + (event_body \<times> snapshot) option"

definition next_link :: "bool \<Rightarrow> event list \<Rightarrow> goal_exc + string \<times> int" where
  \<comment> \<open>\<open>events[-1]\<close>; with the first argument an empty ledger is linked to the genesis hash\<close>
  "next_link or_genesis events = (if events \<noteq> [] then Inr (e_hash (last events), e_sequence (last events) + 1)
     else if or_genesis then Inr (GENESIS_HASH, 1) else Inl (GoalRaised IndexError))"

definition commit :: "goal_call \<Rightarrow> string \<Rightarrow> bool \<Rightarrow> goal_change \<Rightarrow> goal_files \<Rightarrow> goal_exc + goal_files" where
  "commit c gid or_genesis change files =
     bindE (load_consistent files) (\<lambda>(s, events).
     bindE (change s) (\<lambda>r. case r of
       None \<Rightarrow> Inr files
     | Some (body, s') \<Rightarrow>
         bindE (next_link or_genesis events) (\<lambda>(prev, sequence).
         bindE (build_event sequence prev body gid (gc_ts c) (Some (gc_invocation c))) (\<lambda>e.
         Inr (append_event_and_snapshot files s' e)))))"

section \<open>Creation\<close>

definition or_name :: "string option \<Rightarrow> string \<Rightarrow> string" where
  \<comment> \<open>\<open>v or other\<close>\<close>
  "or_name v other = (case v of Some (c # s) \<Rightarrow> c # s | _ \<Rightarrow> other)"

definition init_goal :: "goal_call \<Rightarrow> string \<Rightarrow> json list \<Rightarrow> string option \<Rightarrow> string option \<Rightarrow> string option \<Rightarrow> string option \<Rightarrow>
    goal_store \<Rightarrow> goal_exc + goal_store" where
  "init_goal c goal_id raws title spec_hash plan_hash objective = goal_op c goal_id (\<lambda>gid files.
     bindE (validate_story_graph raws) (\<lambda>story_map.
     bindE (check (g_snapshot files = NoSnapshot \<and> g_ledger files = None) GoalError) (\<lambda>_.
     let t = strip (or_name title gid); ob = strip (or_name objective []) in
     bindE (build_event 1 GENESIS_HASH (GoalCreated t ob spec_hash plan_hash (map snd story_map)) gid (gc_ts c)
         (Some (gc_invocation c))) (\<lambda>e.
     let s = \<lparr>sn_goal_id = gid, sn_title = t, sn_objective = ob, sn_status = Active, sn_verified = False,
           sn_stories = story_map, sn_linked_runs = [], sn_spec_hash = spec_hash, sn_plan_hash = plan_hash,
           sn_tail_sequence = 0, sn_tail_hash = GENESIS_HASH, sn_revision = 0, sn_created_at = e_ts e,
           sn_updated_at = e_ts e, sn_blocker = None, sn_created_by = Some (gc_invocation c),
           sn_verified_run = None, sn_verified_at = None\<rparr>
     in Inr (append_event_and_snapshot (files\<lparr>g_ledger := Some []\<rparr>) s e)))))"

section \<open>Stories\<close>

definition get_story :: "snapshot \<Rightarrow> string \<Rightarrow> goal_exc + story" where
  "get_story s sid = (case map_of (sn_stories s) sid of Some st \<Rightarrow> Inr st | None \<Rightarrow> Inl GoalError)"

definition set_story :: "string \<Rightarrow> (story \<Rightarrow> story) \<Rightarrow> snapshot \<Rightarrow> snapshot" where
  "set_story sid f s = s\<lparr>sn_stories := update_story sid f (sn_stories s)\<rparr>"

definition all_complete :: "snapshot \<Rightarrow> bool" where
  "all_complete s \<longleftrightarrow> list_all (\<lambda>(k, st). st_status st = Complete) (sn_stories s)"

definition link_change :: "string \<Rightarrow> json \<Rightarrow> json \<Rightarrow> goal_change" where
  "link_change run_id mode status s = (if run_id \<in> set (sn_linked_runs s) then Inr None
     else Inr (Some (RunLinked run_id mode status, s\<lparr>sn_linked_runs := sn_linked_runs s @ [run_id]\<rparr>)))"

definition start_change :: "string \<Rightarrow> goal_change" where
  "start_change sid s =
     bindE (check (sn_status s \<noteq> Forensic) GoalError) (\<lambda>_.
     bindE (refresh_ready (sn_stories s)) (\<lambda>stories.
     let s = s\<lparr>sn_stories := stories\<rparr> in
     bindE (get_story s sid) (\<lambda>story.
     bindE (check (st_status story \<noteq> Blocked) GoalError) (\<lambda>_.
     bindE (check (st_status story = Ready) GoalError) (\<lambda>_.
     Inr (Some (StoryStarted sid, set_story sid (\<lambda>st. st\<lparr>st_status := InProgress, st_block_reason := None\<rparr>) s)))))))"

definition checkpoint_change :: "string \<Rightarrow> string \<Rightarrow> string \<Rightarrow> string \<Rightarrow> string \<Rightarrow> goal_change" where
  "checkpoint_change sid message path digest at_time s =
     bindE (get_story s sid) (\<lambda>story.
     bindE (check (st_status story = InProgress) GoalError) (\<lambda>_.
     Inr (Some (Checkpoint sid message path digest,
       set_story sid (\<lambda>st. st\<lparr>st_checkpoints := st_checkpoints st + 1, st_evidence := st_evidence st @
         [\<lparr>ce_path = path, ce_sha256 = digest, ce_message = message, ce_at = at_time\<rparr>]\<rparr>) s))))"

definition block_change :: "string \<Rightarrow> string \<Rightarrow> string option \<Rightarrow> goal_change" where
  "block_change sid reason next_step s =
     bindE (get_story s sid) (\<lambda>story.
     bindE (check (st_status story \<in> {InProgress, Ready}) GoalError) (\<lambda>_.
     Inr (Some (StoryBlocked sid reason next_step,
       (set_story sid (\<lambda>st. st\<lparr>st_status := Blocked, st_block_reason := Some reason, st_next_action := next_step\<rparr>) s)
         \<lparr>sn_status := GoalBlocked, sn_blocker := Some (StoryBlocker sid reason next_step)\<rparr>))))"

definition release_blocker :: "string \<Rightarrow> snapshot \<Rightarrow> goal_exc + snapshot" where
  \<comment> \<open>\<open>snapshot.get("blocker", {}).get("story_id") == story_id\<close>: the key is there with the value null\<close>
  "release_blocker sid s = (case sn_blocker s of
     None \<Rightarrow> Inl (GoalRaised AttributeError)
   | Some (StoryBlocker b r n) \<Rightarrow> Inr (if b = sid then s\<lparr>sn_blocker := None, sn_status := Active\<rparr> else s)
   | Some (ForensicBlocker d) \<Rightarrow> Inr s)"

definition resumed :: "string \<Rightarrow> snapshot \<Rightarrow> snapshot" where
  "resumed sid s = set_story sid (\<lambda>st. st\<lparr>st_status := InProgress, st_block_reason := None, st_next_action := None\<rparr>) s"

definition resume_change :: "string \<Rightarrow> goal_change" where
  "resume_change sid s =
     bindE (get_story s sid) (\<lambda>story.
     bindE (check (st_status story = Blocked) GoalError) (\<lambda>_.
     bindE (release_blocker sid (resumed sid s)) (\<lambda>s'. Inr (Some (StoryResumed sid, s')))))"

definition complete_change :: "string \<Rightarrow> goal_change" where
  "complete_change sid s =
     bindE (get_story s sid) (\<lambda>story.
     bindE (check (st_status story = InProgress) GoalError) (\<lambda>_.
     bindE (check (\<not> st_checkpoints story < 1) GoalError) (\<lambda>_.
     let s = set_story sid (\<lambda>st. st\<lparr>st_status := Complete, st_block_reason := None\<rparr>) s in
     bindE (refresh_ready (sn_stories s)) (\<lambda>stories.
     let s = s\<lparr>sn_stories := stories\<rparr> in
     Inr (Some (StoryCompleted sid,
       if all_complete s then s\<lparr>sn_status := GoalComplete\<rparr>
       else if sn_status s = GoalBlocked \<and> sn_blocker s = None then s\<lparr>sn_status := Active\<rparr> else s))))))"

definition import_change :: "string \<Rightarrow> string \<Rightarrow> string \<Rightarrow> goal_change" where
  "import_change path digest note s = Inr (Some (ProposalImported path digest note, s))"

record run_view =
  rv_mode :: json
  rv_status :: json
  rv_verified :: bool
  rv_trusted :: bool
  rv_stamped :: bool
    \<comment> \<open>the last two are \<open>is_trusted_acceptance\<close> and \<open>is_cli_acceptance_result\<close>, False where they raise\<close>

fun find_verified :: "(string \<Rightarrow> run_view option) \<Rightarrow> string list \<Rightarrow> string list \<Rightarrow> goal_exc + string option" where
  "find_verified load_run linked [] = Inr None"
| "find_verified load_run linked (rid # rids) =
     (if rid \<notin> set linked then Inl GoalError
      else case load_run rid of
        None \<Rightarrow> find_verified load_run linked rids
      | Some run \<Rightarrow>
          if (rv_verified run \<or> text_in (rv_status run) [''verified'']) \<and> (rv_trusted run \<or> rv_stamped run)
          then Inr (Some rid) else find_verified load_run linked rids)"

definition verify_change :: "(string \<Rightarrow> run_view option) \<Rightarrow> string option \<Rightarrow> string \<Rightarrow> goal_change" where
  "verify_change load_run run_id ts s =
     (if sn_verified s then Inr None else
      bindE (check (sn_status s = GoalComplete) GoalError) (\<lambda>_.
      bindE (check (sn_linked_runs s \<noteq> []) GoalError) (\<lambda>_.
      bindE (find_verified load_run (sn_linked_runs s)
          (case run_id of Some (c # r) \<Rightarrow> [c # r] | _ \<Rightarrow> sn_linked_runs s)) (\<lambda>found.
      case found of
        None \<Rightarrow> Inl GoalError
      | Some rid \<Rightarrow> Inr (Some (GoalVerified rid,
          s\<lparr>sn_verified := True, sn_status := GoalIsVerified, sn_verified_run := Some rid, sn_verified_at := Some ts\<rparr>))))))"

section \<open>The operations\<close>

definition story_op :: "goal_call \<Rightarrow> string \<Rightarrow> string \<Rightarrow> (string \<Rightarrow> goal_exc + goal_change) \<Rightarrow> goal_store \<Rightarrow> goal_exc + goal_store" where
  \<comment> \<open>an operation on a story: the checks of its further arguments come before the lock\<close>
  "story_op c goal_id story_id change_of = goal_op c goal_id (\<lambda>gid files.
     bindE (validate_identifier story_id) (\<lambda>sid.
     bindE (change_of sid) (\<lambda>change. commit c gid False change files)))"

definition link_run :: "goal_call \<Rightarrow> string \<Rightarrow> string \<Rightarrow> (string \<Rightarrow> run_view option) \<Rightarrow> goal_store \<Rightarrow> goal_exc + goal_store" where
  "link_run c goal_id run_id load_run = goal_op c goal_id (\<lambda>gid files.
     bindE (validate_identifier run_id) (\<lambda>rid. case load_run rid of
       None \<Rightarrow> Inl GoalError
     | Some run \<Rightarrow> commit c gid True (link_change rid (rv_mode run) (rv_status run)) files))"

definition start_story :: "goal_call \<Rightarrow> string \<Rightarrow> string \<Rightarrow> goal_store \<Rightarrow> goal_exc + goal_store" where
  "start_story c goal_id story_id = story_op c goal_id story_id (\<lambda>sid. Inr (start_change sid))"

definition checkpoint :: "goal_call \<Rightarrow> string \<Rightarrow> string \<Rightarrow> (string \<times> bytes) option \<Rightarrow> string \<Rightarrow> goal_store \<Rightarrow> goal_exc + goal_store" where
  \<comment> \<open>the evidence file, if there is one: its path below the root and its bytes\<close>
  "checkpoint c goal_id story_id evidence message = story_op c goal_id story_id (\<lambda>sid.
     bindE (check (strip message \<noteq> []) GoalError) (\<lambda>_. case evidence of
       None \<Rightarrow> Inl GoalError
     | Some (path, data) \<Rightarrow> Inr (checkpoint_change sid (strip message) path (sha256_hex data) (gc_at c))))"

definition block_story :: "goal_call \<Rightarrow> string \<Rightarrow> string \<Rightarrow> string \<Rightarrow> string option \<Rightarrow> goal_store \<Rightarrow> goal_exc + goal_store" where
  "block_story c goal_id story_id reason next_step = story_op c goal_id story_id (\<lambda>sid.
     bindE (check (strip reason \<noteq> []) GoalError) (\<lambda>_.
     let n = strip (or_name next_step []) in Inr (block_change sid (strip reason) (if n = [] then None else Some n))))"

definition resume_story :: "goal_call \<Rightarrow> string \<Rightarrow> string \<Rightarrow> goal_store \<Rightarrow> goal_exc + goal_store" where
  "resume_story c goal_id story_id = story_op c goal_id story_id (\<lambda>sid. Inr (resume_change sid))"

definition complete_story :: "goal_call \<Rightarrow> string \<Rightarrow> string \<Rightarrow> goal_store \<Rightarrow> goal_exc + goal_store" where
  "complete_story c goal_id story_id = story_op c goal_id story_id (\<lambda>sid. Inr (complete_change sid))"

definition import_proposal_event :: "goal_call \<Rightarrow> string \<Rightarrow> (string option \<times> bytes) option \<Rightarrow> string \<Rightarrow> string \<Rightarrow> goal_store \<Rightarrow>
    goal_exc + goal_store" where
  \<comment> \<open>the proposal file, if there is one: its path relative to the root, None outside it, and its bytes\<close>
  "import_proposal_event c goal_id proposal expected note = goal_op c goal_id (\<lambda>gid files. case proposal of
     None \<Rightarrow> Inl GoalError
   | Some (rel, data) \<Rightarrow>
       bindE (check (sha256_hex data = expected) GoalError) (\<lambda>_. case rel of
         None \<Rightarrow> Inl GoalError
       | Some path \<Rightarrow>
           bindE (check (starts_with path ''.omg/artifacts/proposals/'') GoalError) (\<lambda>_.
           commit c gid False (import_change path (sha256_hex data) (strip note)) files)))"

definition verify_goal :: "goal_call \<Rightarrow> string \<Rightarrow> string option \<Rightarrow> (string \<Rightarrow> run_view option) \<Rightarrow> goal_store \<Rightarrow> goal_exc + goal_store" where
  "verify_goal c goal_id run_id load_run = goal_op c goal_id (\<lambda>gid files.
     commit c gid False (verify_change load_run run_id (gc_ts c)) files)"

end
