(* ===== verification/GoalRepair.thy ===== *)
theory GoalRepair
  imports GoalOps
begin

text \<open>
  Replay, status and repair of a goal (\<open>goals.py\<close>): the snapshot is rebuilt from the events of the ledger, a
  damaged last line is cut off after a backup, every other damage is marked and refused.  The
  digest of the ledger file and the name of a backup depend on bytes the model does not have and are
  arguments, as is the text that describes a diagnosis.
\<close>

section \<open>Replay\<close>

definition story_at :: "snapshot \<Rightarrow> string \<Rightarrow> goal_exc + story" where
  \<comment> \<open>\<open>snapshot["stories"][sid]\<close>\<close>
  "story_at s sid = (case map_of (sn_stories s) sid of Some st \<Rightarrow> Inr st | None \<Rightarrow> Inl (GoalRaised KeyError))"

definition replay_story :: "string \<Rightarrow> (story \<Rightarrow> story) \<Rightarrow> snapshot \<Rightarrow> goal_exc + snapshot" where
  "replay_story sid f s = bindE (story_at s sid) (\<lambda>_. Inr (set_story sid f s))"

fun replay_body :: "string \<Rightarrow> event_body \<Rightarrow> snapshot \<Rightarrow> goal_exc + snapshot" where
  \<comment> \<open>the first argument is the time of the event\<close>
  "replay_body ts (RunLinked rid m st) s =
     Inr (if rid \<noteq> [] \<and> rid \<notin> set (sn_linked_runs s) then s\<lparr>sn_linked_runs := sn_linked_runs s @ [rid]\<rparr> else s)"
| "replay_body ts (StoryStarted sid) s =
     replay_story sid (\<lambda>st. st\<lparr>st_status := InProgress, st_block_reason := None\<rparr>) s"
| "replay_body ts (Checkpoint sid message path digest) s =
     replay_story sid (\<lambda>st. st\<lparr>st_checkpoints := st_checkpoints st + 1, st_evidence := st_evidence st @
       [\<lparr>ce_path = path, ce_sha256 = digest, ce_message = message, ce_at = ts\<rparr>]\<rparr>) s"
| "replay_body ts (StoryBlocked sid reason next_step) s =
     bindE (replay_story sid (\<lambda>st. st\<lparr>st_status := Blocked, st_block_reason := Some reason, st_next_action := next_step\<rparr>) s)
       (\<lambda>s. Inr (s\<lparr>sn_status := GoalBlocked, sn_blocker := Some (StoryBlocker sid reason next_step)\<rparr>))"
| "replay_body ts (StoryResumed sid) s =
     bindE (replay_story sid (\<lambda>st. st\<lparr>st_status := InProgress, st_block_reason := None, st_next_action := None\<rparr>) s)
       (release_blocker sid)"
| "replay_body ts (StoryCompleted sid) s =
     bindE (replay_story sid (\<lambda>st. st\<lparr>st_status := Complete\<rparr>) s) (\<lambda>s.
     bindE (refresh_ready (sn_stories s)) (\<lambda>stories.
     let s = s\<lparr>sn_stories := stories\<rparr> in Inr (if all_complete s then s\<lparr>sn_status := GoalComplete\<rparr> else s)))"
| "replay_body ts (GoalVerified rid) s =
     Inr (s\<lparr>sn_verified := True, sn_status := GoalIsVerified, sn_verified_run := Some rid, sn_verified_at := Some ts\<rparr>)"
| "replay_body ts body s = Inr s"

definition replay_event :: "snapshot \<Rightarrow> event \<Rightarrow> goal_exc + snapshot" where
  "replay_event s e = bindE (replay_body (e_ts e) (e_body e) s) (\<lambda>s.
     Inr (s\<lparr>sn_tail_sequence := e_sequence e, sn_tail_hash := e_hash e,
       sn_updated_at := (if e_ts e = [] then sn_updated_at s else e_ts e)\<rparr>))"

fun replay_events :: "snapshot \<Rightarrow> event list \<Rightarrow> goal_exc + snapshot" where
  "replay_events s [] = Inr s"
| "replay_events s (e # es) = bindE (replay_event s e) (\<lambda>s. replay_events s es)"

definition blank_snapshot :: "string \<Rightarrow> string \<Rightarrow> snapshot" where
  \<comment> \<open>the snapshot of a goal without events\<close>
  "blank_snapshot gid now = \<lparr>sn_goal_id = gid, sn_title = gid, sn_objective = [], sn_status = Active, sn_verified = False,
     sn_stories = [], sn_linked_runs = [], sn_spec_hash = None, sn_plan_hash = None, sn_tail_sequence = 0,
     sn_tail_hash = GENESIS_HASH, sn_revision = 0, sn_created_at = now, sn_updated_at = now, sn_blocker = None,
     sn_created_by = None, sn_verified_run = None, sn_verified_at = None\<rparr>"

definition put_story :: "stories \<Rightarrow> story \<Rightarrow> stories" where
  \<comment> \<open>\<open>stories[s["id"]] = s\<close>\<close>
  "put_story stories s = (if st_id s \<in> set (map fst stories) then update_story (st_id s) (\<lambda>_. s) stories
     else stories @ [(st_id s, s)])"

definition created_snapshot :: "string \<Rightarrow> string \<Rightarrow> event \<Rightarrow> goal_exc + snapshot" where
  "created_snapshot gid now e = (case e_body e of
     GoalCreated t ob sh ph ss \<Rightarrow>
       let at_time = (if e_ts e = [] then now else e_ts e) in
       Inr \<lparr>sn_goal_id = gid, sn_title = (if t = [] then gid else t), sn_objective = ob, sn_status = Active,
         sn_verified = False, sn_stories = foldl put_story [] ss, sn_linked_runs = [],
         sn_spec_hash = sh, sn_plan_hash = ph, sn_tail_sequence = e_sequence e, sn_tail_hash = e_hash e,
         sn_revision = 0, sn_created_at = at_time, sn_updated_at = at_time, sn_blocker = None,
         sn_created_by = e_invocation e, sn_verified_run = None, sn_verified_at = None\<rparr>
   | _ \<Rightarrow> Inl GoalError)"

definition rebuild_snapshot_from_events :: "string \<Rightarrow> string \<Rightarrow> event list \<Rightarrow> goal_exc + snapshot" where
  "rebuild_snapshot_from_events gid now events = (case events of
     [] \<Rightarrow> Inr (blank_snapshot gid now)
   | e # es \<Rightarrow> bindE (created_snapshot gid now e) (\<lambda>s. replay_events s es))"

section \<open>Status\<close>

record goal_report =
  gr_ok :: bool
  gr_snapshot :: "snapshot option"
  gr_diagnosis :: "diagnosis option"
  gr_event_count :: nat

definition goal_status :: "goal_files \<Rightarrow> goal_report" where
  \<comment> \<open>an unreadable snapshot is reported as such; the count of a damaged ledger is that of its prefix\<close>
  "goal_status files = (case read_snapshot files of
     Inl e \<Rightarrow> \<lparr>gr_ok = False, gr_snapshot = None, gr_diagnosis = Some SnapshotUnreadable, gr_event_count = 0\<rparr>
   | Inr s \<Rightarrow>
       let (events, d) = scan_ledger (g_ledger files);
           d = (if healthy d \<and> \<not> snapshot_matches s events then SnapshotDisagreement else d)
       in \<lparr>gr_ok = healthy d, gr_snapshot = Some s, gr_diagnosis = (if healthy d then None else Some d),
           gr_event_count = (if healthy d \<or> eligible d then length events else 0)\<rparr>)"

definition active_story_for_handoff :: "stories \<Rightarrow> story option" where
  "active_story_for_handoff stories =
     (case find (\<lambda>s. st_status s = InProgress) (map snd stories) of
       Some s \<Rightarrow> Some s
     | None \<Rightarrow> find (\<lambda>s. st_status s = Ready) (map snd stories))"

section \<open>Repair\<close>

definition diagnose_repair :: "goal_files \<Rightarrow> goal_exc + event list \<times> diagnosis" where
  \<comment> \<open>the events that stay and the diagnosis\<close>
  "diagnose_repair files =
     bindE (check (g_ledger files \<noteq> None) GoalError) (\<lambda>_.
     let (events, d) = scan_ledger (g_ledger files) in
     Inr (events, case read_snapshot files of
         Inl e \<Rightarrow> SnapshotUnreadable
       | Inr s \<Rightarrow> if healthy d \<and> \<not> snapshot_matches s events then SnapshotDisagreement else d))"

definition forensic_snapshot :: "string \<Rightarrow> diagnosis \<Rightarrow> string \<Rightarrow> goal_files \<Rightarrow> snapshot" where
  "forensic_snapshot gid d now files =
     (case read_snapshot files of Inr s \<Rightarrow> s | Inl e \<Rightarrow> (blank_snapshot gid now)\<lparr>sn_title := []\<rparr>)
       \<lparr>sn_status := Forensic, sn_blocker := Some (ForensicBlocker d), sn_updated_at := now\<rparr>"

definition prefix_link :: "event list \<Rightarrow> string \<times> int" where
  "prefix_link events = (if events = [] then (GENESIS_HASH, 0) else (e_hash (last events), e_sequence (last events)))"

record repair_call =
  rc_call :: goal_call
  rc_sha :: "ledger_line list \<Rightarrow> string"
  rc_backup :: "string \<Rightarrow> string \<Rightarrow> string"
    \<comment> \<open>the path of the backup, from the goal and the digest of the ledger\<close>
  rc_reason :: "diagnosis \<Rightarrow> string"
  rc_kind :: "diagnosis \<Rightarrow> string"

fun share_evidence :: "stories \<Rightarrow> story list \<Rightarrow> story list" where
  \<comment> \<open>\<open>dict(s)\<close> copies a story but not its list of evidence, so what replay appends is appended to the event too;
    of several stories with one identifier the dictionary keeps the last\<close>
  "share_evidence stories [] = []"
| "share_evidence stories (s # ss) =
     (if st_id s \<in> set (map st_id ss) then s
      else case map_of stories (st_id s) of
        None \<Rightarrow> s
      | Some t \<Rightarrow> s\<lparr>st_evidence := st_evidence t\<rparr>) # share_evidence stories ss"

definition after_replay :: "event list \<Rightarrow> snapshot \<Rightarrow> event list" where
  \<comment> \<open>the events as their replay to the snapshot leaves them\<close>
  "after_replay events s = (case events of
     [] \<Rightarrow> []
   | e # es \<Rightarrow> (case e_body e of
       GoalCreated t ob sh ph ss \<Rightarrow> e\<lparr>e_body := GoalCreated t ob sh ph (share_evidence (sn_stories s) ss)\<rparr>
     | _ \<Rightarrow> e) # es)"

definition cut_and_record :: "repair_call \<Rightarrow> string \<Rightarrow> event list \<Rightarrow> diagnosis \<Rightarrow> goal_files \<Rightarrow> goal_exc + goal_files" where
  \<comment> \<open>the repair after the backup: replay, cut, append; the hash of an event is the stored one\<close>
  "cut_and_record rc gid events d files = (case g_ledger files of
     None \<Rightarrow> Inl GoalError
   | Some lines \<Rightarrow>
       let c = rc_call rc; sha = rc_sha rc lines; (prev, sequence) = prefix_link events in
       bindE (rebuild_snapshot_from_events gid (gc_ts c) events) (\<lambda>s.
       bindE (build_event (sequence + 1) prev
           (LedgerRepaired sha (rc_backup rc gid sha) sha sequence prev (rc_reason rc d) (rc_kind rc d))
           gid (gc_ts c) (Some (gc_invocation c))) (\<lambda>e.
       Inr (append_event_and_snapshot (files\<lparr>g_ledger := Some (map EventLine (after_replay events s))\<rparr>) s e))))"

definition repair_goal :: "repair_call \<Rightarrow> string \<Rightarrow> bool \<Rightarrow> bool \<Rightarrow> goal_files \<Rightarrow> (goal_exc + string) \<times> goal_files" where
  \<comment> \<open>the action taken or the exception, and the files it leaves\<close>
  "repair_goal rc gid dry_run yes files = (case diagnose_repair files of
     Inl e \<Rightarrow> (Inl e, files)
   | Inr (events, d) \<Rightarrow>
       if healthy d then (Inr ''none'', files)
       else if dry_run \<or> \<not> yes then (Inr ''dry_run'', files)
       else if \<not> eligible d
       then (Inl GoalRepairRefused, files\<lparr>g_snapshot := Snapshot (forensic_snapshot gid d (gc_ts (rc_call rc)) files)\<rparr>)
       else
         let lines = (case g_ledger files of Some ls \<Rightarrow> ls | None \<Rightarrow> []);
             files = files\<lparr>g_backups := g_backups files @ [(rc_backup rc gid (rc_sha rc lines), lines)]\<rparr>
         in (case cut_and_record rc gid events d files of
             Inl e \<Rightarrow> (Inl e, files)
           | Inr files' \<Rightarrow> (Inr ''repaired'', files')))"

end
