(* ===== verification/GoalFacts.thy ===== *)
theory GoalFacts
  imports GoalRepair
begin

text \<open>
  Facts about the chain of events and the stories of a goal: what the scanner accepts, the invariant
  of the stories, and that refreshing their readiness changes nothing while it holds.
\<close>

section \<open>The chain\<close>

fun linked :: "string \<Rightarrow> int \<Rightarrow> event list \<Rightarrow> bool" where
  \<comment> \<open>numbered from \<open>n\<close>, each event with the hash of the one before it and its own\<close>
  "linked prev_hash n [] = True"
| "linked prev_hash n (e # es) = (e_sequence e = n \<and> e_prev_hash e = prev_hash \<and> e_hash e = compute_event_hash prev_hash e
     \<and> linked (e_hash e) (n + 1) es)"

definition link_hash :: "string \<Rightarrow> event list \<Rightarrow> string" where
  "link_hash prev_hash es = (if es = [] then prev_hash else e_hash (last es))"

lemma linked_append: "linked prev_hash n (es @ fs) \<longleftrightarrow>
    linked prev_hash n es \<and> linked (link_hash prev_hash es) (n + int (length es)) fs"
  by (induction es arbitrary: prev_hash n) (auto simp: link_hash_def ac_simps)

lemma linked_last: "linked prev_hash n es \<Longrightarrow> es \<noteq> [] \<Longrightarrow> e_sequence (last es) = n + int (length es) - 1"
  by (induction es arbitrary: prev_hash n) auto

lemma scan_linked: "linked prev_hash n es \<Longrightarrow>
    scan_lines acc prev_hash n (map EventLine es @ lines) = scan_lines (acc @ es) (link_hash prev_hash es) (n + int (length es)) lines"
  by (induction es arbitrary: acc prev_hash n) (auto simp: link_hash_def ac_simps)

lemma scan_valid: "scan_lines acc prev_hash n lines = (events, LedgerValid) \<longleftrightarrow>
    (\<exists>es. lines = map EventLine es \<and> linked prev_hash n es \<and> events = acc @ es)"
proof
  show "scan_lines acc prev_hash n lines = (events, LedgerValid) \<Longrightarrow>
    \<exists>es. lines = map EventLine es \<and> linked prev_hash n es \<and> events = acc @ es"
  proof (induction acc prev_hash n lines rule: scan_lines.induct)
    case (5 acc prev_hash n e lines)
    then have e: "e_sequence e = n" "e_prev_hash e = prev_hash" "e_hash e = compute_event_hash prev_hash e"
      and "scan_lines (acc @ [e]) (e_hash e) (n + 1) lines = (events, LedgerValid)"
      by (auto split: if_splits)
    with 5 obtain es where "lines = map EventLine es" "linked (e_hash e) (n + 1) es" "events = (acc @ [e]) @ es" by metis
    with e show ?case by (intro exI [of _ "e # es"]) simp
  qed (auto split: if_splits)
qed (auto simp: scan_linked [of _ _ _ _ "[]", simplified])

lemma compute_event_hash_own [simp]: "compute_event_hash prev_hash (e\<lparr>e_hash := h\<rparr>) = compute_event_hash prev_hash e"
  by (simp add: compute_event_hash_def hashed_bytes_def event_without_hash_def)

lemma build_event_Inr:
  "build_event n prev_hash body gid ts invocation = Inr e \<Longrightarrow> linked prev_hash n [e] \<and> e_body e = body \<and> e_ts e = ts
    \<and> e_goal_id e = gid \<and> e_sequence e = n \<and> e_invocation e = (case invocation of Some [] \<Rightarrow> None | i \<Rightarrow> i)"
  by (auto simp: build_event_def Let_def result_simps compute_event_hash_def hashed_bytes_def event_without_hash_def)

section \<open>Stories\<close>

lemma map_of_update_story: "map_of (update_story sid f ss) k = (if k = sid then map_option f (map_of ss k) else map_of ss k)"
  by (induction ss) (auto simp: update_story_def)

lemma keys_update_story [simp]: "map fst (update_story sid f ss) = map fst ss"
  by (simp add: update_story_def comp_def case_prod_unfold)

definition completed :: "stories \<Rightarrow> string \<Rightarrow> bool" where
  "completed ss k \<longleftrightarrow> (\<exists>s. map_of ss k = Some s \<and> st_status s = Complete)"

definition deps_done :: "(string \<Rightarrow> bool) \<Rightarrow> story \<Rightarrow> bool" where
  "deps_done P s \<longleftrightarrow> (\<forall>d \<in> set (st_depends_on s). P d)"

definition story_ok :: "(string \<Rightarrow> bool) \<Rightarrow> story \<Rightarrow> bool" where
  \<comment> \<open>under the predicate of the complete stories\<close>
  "story_ok P s \<longleftrightarrow> (if st_status s = Pending then \<not> deps_done P s else deps_done P s)
     \<and> (st_status s \<noteq> Blocked \<longrightarrow> st_block_reason s = None \<and> st_next_action s = None)
     \<and> (st_status s = Complete \<longrightarrow> 1 \<le> st_checkpoints s)
     \<and> st_checkpoints s = int (length (st_evidence s))"

definition needs :: "stories \<Rightarrow> (string \<times> string) set" where
  \<comment> \<open>the dependency, the story that depends on it\<close>
  "needs ss = {(d, k). \<exists>s. map_of ss k = Some s \<and> d \<in> set (st_depends_on s)}"

definition stories_inv :: "stories \<Rightarrow> bool" where
  "stories_inv ss \<longleftrightarrow> ss \<noteq> [] \<and> distinct (map fst ss) \<and> acyclic (needs ss)
     \<and> (\<forall>k s. map_of ss k = Some s \<longrightarrow> st_id s = k \<and> set (st_depends_on s) \<subseteq> set (map fst ss) \<and> story_ok (completed ss) s)"

lemma stories_invD:
  assumes "stories_inv ss" "map_of ss k = Some s"
  shows "st_id s = k" "set (st_depends_on s) \<subseteq> set (map fst ss)" "story_ok (completed ss) s"
  using assms by (auto simp: stories_inv_def)

lemma stories_inv_update:
  assumes inv: "stories_inv ss" and s: "map_of ss sid = Some s"
    and same: "st_id (f s) = st_id s" "st_depends_on (f s) = st_depends_on s" "st_status (f s) = Complete \<longleftrightarrow> st_status s = Complete"
    and ok: "story_ok (completed ss) (f s)"
  shows "stories_inv (update_story sid f ss)"
proof -
  have fin: "completed (update_story sid f ss) = completed ss"
    using s same(3) by (auto simp: completed_def map_of_update_story fun_eq_iff)
  have needs: "needs (update_story sid f ss) = needs ss"
    using s same(2) by (auto simp: needs_def map_of_update_story split: if_splits)
  have "update_story sid f ss \<noteq> []" using inv by (auto simp: stories_inv_def update_story_def)
  then show ?thesis
    using inv s same ok
    by (auto simp: stories_inv_def fin needs map_of_update_story simp del: set_map split: if_splits)
qed

lemma deps_complete_known: "set ds \<subseteq> set (map fst ss) \<Longrightarrow> deps_complete ss ds = Inr (\<forall>d \<in> set ds. completed ss d)"
  by (induction ds) (auto simp: completed_def split: option.splits dest: map_of_SomeD simp: map_of_eq_None_iff)

definition refreshed :: "(string \<Rightarrow> bool) \<Rightarrow> story \<Rightarrow> story" where
  "refreshed P s = (if st_status s \<in> {Pending, Ready} then s\<lparr>st_status := (if deps_done P s then Ready else Pending)\<rparr> else s)"

lemma refresh_ready_known:
  assumes "\<And>k s. (k, s) \<in> set ss \<Longrightarrow> set (st_depends_on s) \<subseteq> set (map fst ss)"
  shows "refresh_ready ss = Inr (map (\<lambda>(k, s). (k, refreshed (completed ss) s)) ss)"
proof -
  have "refresh_ready ss = Inr (map (\<lambda>p. (fst p, refreshed (completed ss) (snd p))) ss)"
    unfolding refresh_ready_def
  proof (rule mapE_Inr_map)
    fix p assume p: "p \<in> set ss"
    obtain k s where ks: "p = (k, s)" by fastforce
    have "deps_complete ss (st_depends_on s) = Inr (deps_done (completed ss) s)"
      using deps_complete_known assms [of k s] p unfolding ks deps_done_def by blast
    then show "(case p of (sid, s) \<Rightarrow> if st_status s \<notin> {Pending, Ready} then Inr (sid, s)
        else bindE (deps_complete ss (st_depends_on s)) (\<lambda>deps_ok. Inr (sid, s\<lparr>st_status := if deps_ok then Ready else Pending\<rparr>)))
      = Inr (fst p, refreshed (completed ss) (snd p))"
      unfolding ks by (simp add: refreshed_def)
  qed
  then show ?thesis by (simp add: case_prod_unfold)
qed

lemma stories_inv_known: "stories_inv ss \<Longrightarrow> (k, s) \<in> set ss \<Longrightarrow> set (st_depends_on s) \<subseteq> set (map fst ss)"
  using stories_invD(2) [of ss k s] by (auto simp: stories_inv_def)

lemma refreshed_ok: "story_ok P s \<Longrightarrow> refreshed P s = s"
  by (cases "st_status s") (auto simp: refreshed_def story_ok_def)

lemma refresh_ready_inv: "stories_inv ss \<Longrightarrow> refresh_ready ss = Inr ss"
proof -
  assume inv: "stories_inv ss"
  have "refreshed (completed ss) s = s" if "(k, s) \<in> set ss" for k s
    using refreshed_ok stories_invD(3) [OF inv] inv that by (auto simp: stories_inv_def)
  then have "map (\<lambda>(k, s). (k, refreshed (completed ss) s)) ss = ss" by (intro map_idI) auto
  then show ?thesis using refresh_ready_known [of ss] stories_inv_known [OF inv] by simp
qed

end
