(* ===== verification/GoalReplay.thy ===== *)
theory GoalReplay
  imports GoalFacts
begin

text \<open>
  Replay against the live snapshot.  The two agree up to what the events do not carry: the revision
  counter, the time a piece of evidence was taken (replay takes the time of the event), and an empty
  title, which replay replaces by the identifier of the goal.  \<open>view\<close> forgets exactly these.
\<close>

section \<open>The view\<close>

definition story_view :: "story \<Rightarrow> story" where
  "story_view s = s\<lparr>st_evidence := map (\<lambda>e. e\<lparr>ce_at := []\<rparr>) (st_evidence s)\<rparr>"

definition stories_view :: "stories \<Rightarrow> stories" where
  "stories_view ss = map (\<lambda>(k, s). (k, story_view s)) ss"

definition view :: "snapshot \<Rightarrow> snapshot" where
  "view s = s\<lparr>sn_stories := stories_view (sn_stories s), sn_revision := 0,
     sn_title := (if sn_title s = [] then sn_goal_id s else sn_title s)\<rparr>"

lemma story_view_simps [simp]:
  "st_id (story_view s) = st_id s" "st_status (story_view s) = st_status s"
  "st_depends_on (story_view s) = st_depends_on s" "st_checkpoints (story_view s) = st_checkpoints s"
  "st_block_reason (story_view s) = st_block_reason s" "st_next_action (story_view s) = st_next_action s"
  "length (st_evidence (story_view s)) = length (st_evidence s)" "story_view (story_view s) = story_view s"
  "story_view (s\<lparr>st_status := x\<rparr>) = (story_view s)\<lparr>st_status := x\<rparr>"
  "story_view (s\<lparr>st_block_reason := b\<rparr>) = (story_view s)\<lparr>st_block_reason := b\<rparr>"
  "story_view (s\<lparr>st_next_action := n\<rparr>) = (story_view s)\<lparr>st_next_action := n\<rparr>"
  "story_view (s\<lparr>st_checkpoints := i\<rparr>) = (story_view s)\<lparr>st_checkpoints := i\<rparr>"
  by (simp_all add: story_view_def comp_def)

lemma map_of_stories_view [simp]: "map_of (stories_view ss) k = map_option story_view (map_of ss k)"
  by (induction ss) (auto simp: stories_view_def)

lemma stories_view_idem [simp]: "stories_view (stories_view ss) = stories_view ss"
  by (simp add: stories_view_def comp_def case_prod_unfold)

lemma view_idem [simp]: "view (view s) = view s"
  by (simp add: view_def)

lemma view_fields:
  "sn_stories (view s) = stories_view (sn_stories s)" "sn_linked_runs (view s) = sn_linked_runs s"
  "sn_blocker (view s) = sn_blocker s" "sn_status (view s) = sn_status s" "sn_updated_at (view s) = sn_updated_at s"
  by (simp_all add: view_def)

lemma view_updates:
  "view (s\<lparr>sn_stories := ss\<rparr>) = (view s)\<lparr>sn_stories := stories_view ss\<rparr>"
  "view (s\<lparr>sn_linked_runs := rs\<rparr>) = (view s)\<lparr>sn_linked_runs := rs\<rparr>"
  "view (s\<lparr>sn_status := st\<rparr>) = (view s)\<lparr>sn_status := st\<rparr>" "view (s\<lparr>sn_blocker := b\<rparr>) = (view s)\<lparr>sn_blocker := b\<rparr>"
  "view (s\<lparr>sn_verified := v\<rparr>) = (view s)\<lparr>sn_verified := v\<rparr>" "view (s\<lparr>sn_verified_run := r\<rparr>) = (view s)\<lparr>sn_verified_run := r\<rparr>"
  "view (s\<lparr>sn_verified_at := v'\<rparr>) = (view s)\<lparr>sn_verified_at := v'\<rparr>"
  "view (s\<lparr>sn_tail_sequence := n\<rparr>) = (view s)\<lparr>sn_tail_sequence := n\<rparr>"
  "view (s\<lparr>sn_tail_hash := h\<rparr>) = (view s)\<lparr>sn_tail_hash := h\<rparr>"
  "view (s\<lparr>sn_updated_at := t\<rparr>) = (view s)\<lparr>sn_updated_at := t\<rparr>" "view (s\<lparr>sn_revision := i\<rparr>) = view s"
  by (simp_all add: view_def)

lemma keys_stories_view [simp]: "map fst (stories_view ss) = map fst ss"
  by (simp add: stories_view_def comp_def case_prod_unfold)

lemma stories_view_update:
  "(\<And>s. story_view (f (story_view s)) = story_view (f s)) \<Longrightarrow>
     stories_view (update_story sid f (stories_view ss)) = stories_view (update_story sid f ss)"
  by (induction ss) (auto simp: stories_view_def update_story_def)

lemma view_set_story:
  "(\<And>x. story_view (f (story_view x)) = story_view (f x)) \<Longrightarrow> view (set_story sid f (view s)) = view (set_story sid f s)"
  by (simp add: set_story_def view_updates view_fields stories_view_update)

lemma deps_complete_view: "deps_complete (stories_view ss) ds = deps_complete ss ds"
  by (induction ds) (auto split: option.splits)

lemma mapE_view:
  "(\<And>x. map_sum id g (f (v x)) = map_sum id g (f' x)) \<Longrightarrow>
     map_sum id (map g) (mapE f (map v xs)) = map_sum id (map g) (mapE f' xs)"
proof (induction xs)
  case (Cons x xs)
  have "map_sum id g (f (v x)) = map_sum id g (f' x)" by (rule Cons.prems)
  then show ?case using Cons by (cases "f (v x)"; cases "f' x"; cases "mapE f (map v xs)"; cases "mapE f' xs") auto
qed simp

lemma refresh_ready_view: "map_sum id stories_view (refresh_ready (stories_view ss)) = map_sum id stories_view (refresh_ready ss)"
proof -
  let ?v = "\<lambda>(k, s). (k, story_view s)"
  let ?f = "\<lambda>ts (sid, s). if st_status s \<notin> {Pending, Ready} then Inr (sid, s)
     else bindE (deps_complete ts (st_depends_on s)) (\<lambda>deps_ok. Inr (sid, s\<lparr>st_status := (if deps_ok then Ready else Pending)\<rparr>))"
  have step: "map_sum id ?v (?f (stories_view ss) (?v x)) = map_sum id ?v (?f ss x)" for x :: "string \<times> story"
    by (cases x; cases "deps_complete ss (st_depends_on (snd x))") (simp_all add: deps_complete_view)
  have "map_sum id (map ?v) (mapE (?f (stories_view ss)) (map ?v ss)) = map_sum id (map ?v) (mapE (?f ss) ss)"
    by (rule mapE_view) (rule step)
  moreover have "stories_view = map ?v" by (rule ext) (simp add: stories_view_def)
  ultimately show ?thesis unfolding refresh_ready_def by simp
qed

section \<open>Replay respects the view\<close>

lemma replay_story_view:
  assumes "\<And>x. story_view (f (story_view x)) = story_view (f x)"
  shows "map_sum id view (replay_story sid f (view s)) = map_sum id view (replay_story sid f s)"
  using view_set_story [of f sid s, OF assms]
  by (cases "map_of (sn_stories s) sid") (simp_all add: replay_story_def story_at_def view_fields)

lemma release_blocker_view: "view r = view s \<Longrightarrow>
    map_sum id view (release_blocker sid r) = map_sum id view (release_blocker sid s)"
proof -
  assume "view r = view s"
  then have "sn_blocker r = sn_blocker s" by (metis view_fields(3))
  with \<open>view r = view s\<close> show ?thesis
    by (cases "sn_blocker s" rule: option.exhaust [case_names None Some])
      (simp_all add: release_blocker_def view_updates split: blocker.splits)
qed

lemma bindE_view:
  assumes "map_sum id view m = map_sum id view n" "\<And>r s. view r = view s \<Longrightarrow> map_sum id view (f r) = map_sum id view (g s)"
  shows "map_sum id view (bindE m f) = map_sum id view (bindE n g)"
  using assms by (cases m; cases n) auto

lemma all_complete_view: "view r = view s \<Longrightarrow> all_complete r = all_complete s"
proof -
  have "all_complete s = list_all (\<lambda>(k, st). st_status st = Complete) (sn_stories (view s))" for s
    by (simp add: all_complete_def view_fields stories_view_def list_all_iff case_prod_unfold)
  then show "view r = view s \<Longrightarrow> all_complete r = all_complete s" by simp
qed

lemma refresh_step_view:
  assumes "view r = view s"
  shows "map_sum id view (bindE (refresh_ready (sn_stories r)) (\<lambda>stories. let s = r\<lparr>sn_stories := stories\<rparr> in
        Inr (if all_complete s then s\<lparr>sn_status := GoalComplete\<rparr> else s)))
    = map_sum id view (bindE (refresh_ready (sn_stories s)) (\<lambda>stories. let s = s\<lparr>sn_stories := stories\<rparr> in
        Inr (if all_complete s then s\<lparr>sn_status := GoalComplete\<rparr> else s)))"
proof -
  have "stories_view (sn_stories r) = stories_view (sn_stories s)" using assms by (metis view_fields(1))
  then have same: "map_sum id stories_view (refresh_ready (sn_stories r)) = map_sum id stories_view (refresh_ready (sn_stories s))"
    using refresh_ready_view [of "sn_stories r"] refresh_ready_view [of "sn_stories s"] by simp
  show ?thesis
  proof (cases "refresh_ready (sn_stories r)")
    case (Inr a)
    with same obtain b where b: "refresh_ready (sn_stories s) = Inr b" "stories_view a = stories_view b"
      by (cases "refresh_ready (sn_stories s)") auto
    then have same_view: "view (r\<lparr>sn_stories := a\<rparr>) = view (s\<lparr>sn_stories := b\<rparr>)" by (simp add: view_updates assms)
    show ?thesis
      unfolding Inr b(1) bindE_Inr Let_def all_complete_view [OF same_view] using same_view by (simp add: view_updates assms b(2))
  next
    case (Inl e)
    with same have "refresh_ready (sn_stories s) = Inl e" by (cases "refresh_ready (sn_stories s)") auto
    with Inl show ?thesis by simp
  qed
qed

lemma replay_body_view_own: "map_sum id view (replay_body ts b (view s)) = map_sum id view (replay_body ts b s)"
proof (cases b)
  case (StoryResumed sid)
  have step: "map_sum id view (replay_story sid f (view s)) = map_sum id view (replay_story sid f s)"
    if "\<And>x. story_view (f (story_view x)) = story_view (f x)" for f
    by (rule replay_story_view) (rule that)
  show ?thesis unfolding StoryResumed replay_body.simps by (rule bindE_view [OF step release_blocker_view]) simp_all
next
  case (StoryCompleted sid)
  show ?thesis unfolding StoryCompleted replay_body.simps
    by (rule bindE_view [OF replay_story_view refresh_step_view]) simp_all
next
  case (StoryBlocked sid reason next_step)
  show ?thesis unfolding StoryBlocked replay_body.simps
    by (rule bindE_view [OF replay_story_view]) (simp_all add: view_updates)
next
  case (Checkpoint sid m p h)
  show ?thesis unfolding Checkpoint replay_body.simps
    by (rule replay_story_view) (simp add: story_view_def comp_def)
next
  case (StoryStarted sid)
  show ?thesis unfolding StoryStarted replay_body.simps by (rule replay_story_view) simp
qed (simp_all add: view_updates view_fields)

lemma replay_body_view: "view r = view s \<Longrightarrow> map_sum id view (replay_body ts b r) = map_sum id view (replay_body ts b s)"
  by (metis replay_body_view_own)

lemma replay_event_view:
  assumes "view r = view s" "replay_body (e_ts e) (e_body e) s = Inr s'" "e_ts e \<noteq> []"
  shows "\<exists>r'. replay_event r e = Inr r' \<and> view r' = view (stamp_snapshot e s')"
proof -
  obtain r1 where r1: "replay_body (e_ts e) (e_body e) r = Inr r1" "view r1 = view s'"
    using replay_body_view [OF assms(1), of "e_ts e" "e_body e"] assms(2)
    by (cases "replay_body (e_ts e) (e_body e) r") auto
  then show ?thesis using assms(3) by (simp add: replay_event_def stamp_snapshot_def view_updates)
qed

lemma replay_events_append: "replay_events s (es @ fs) = bindE (replay_events s es) (\<lambda>s. replay_events s fs)"
proof (induction es arbitrary: s)
  case (Cons e es)
  then show ?case by (cases "replay_event s e") simp_all
qed simp

lemma rebuild_append:
  assumes "events \<noteq> []"
  shows "rebuild_snapshot_from_events gid now (events @ [e]) =
    bindE (rebuild_snapshot_from_events gid now events) (\<lambda>s. replay_event s e)"
proof -
  obtain c es where events: "events = c # es" using assms by (cases events) auto
  have last: "bindE m (\<lambda>s. bindE (replay_event s e) Inr) = bindE m (\<lambda>s. replay_event s e)" for m :: "goal_exc + snapshot"
  proof -
    have "bindE n Inr = n" for n :: "goal_exc + snapshot" by (cases n) simp_all
    then show ?thesis by simp
  qed
  show ?thesis
    unfolding events rebuild_snapshot_from_events_def
    by (cases "created_snapshot gid now c") (simp_all add: replay_events_append last)
qed

end
