(* ===== verification/GoalInvariant.thy ===== *)
theory GoalInvariant
  imports GoalReplay
begin

text \<open>
  The invariant of a snapshot and of the files of a goal, and the locale \<open>sound_change\<close> of the changes that
  keep the first and are replayed by their events: committing such a change keeps the second.
\<close>

section \<open>The invariant of a snapshot\<close>

definition goal_inv :: "snapshot \<Rightarrow> bool" where
  "goal_inv s \<longleftrightarrow> stories_inv (sn_stories s) \<and> sn_status s \<noteq> Forensic
     \<and> (sn_status s \<in> {GoalComplete, GoalIsVerified} \<longrightarrow> all_complete s)
     \<and> (sn_verified s \<longleftrightarrow> sn_status s = GoalIsVerified)
     \<and> (sn_verified s \<longrightarrow> (\<exists>r \<in> set (sn_linked_runs s). sn_verified_run s = Some r))
     \<and> (sn_status s = GoalBlocked \<longrightarrow> sn_blocker s \<noteq> None)"

lemma all_complete_iff: "stories_inv (sn_stories s) \<Longrightarrow>
    all_complete s \<longleftrightarrow> (\<forall>k st. map_of (sn_stories s) k = Some st \<longrightarrow> st_status st = Complete)"
  by (auto simp: all_complete_def stories_inv_def list_all_iff)

lemma goal_inv_open:
  \<comment> \<open>while a story is not complete the goal is neither complete nor verified\<close>
  assumes "goal_inv s" "map_of (sn_stories s) k = Some st" "st_status st \<noteq> Complete"
  shows "sn_status s \<notin> {GoalComplete, GoalIsVerified, Forensic}" "\<not> sn_verified s" "\<not> all_complete s"
  using assms all_complete_iff [of s] by (auto simp: goal_inv_def)

lemma get_story_Inr [result_simps]: "get_story s sid = Inr st \<longleftrightarrow> map_of (sn_stories s) sid = Some st"
  by (auto simp: get_story_def split: option.splits)

lemma set_story_fields [simp]:
  "sn_stories (set_story sid f s) = update_story sid f (sn_stories s)" "sn_status (set_story sid f s) = sn_status s"
  "sn_verified (set_story sid f s) = sn_verified s" "sn_linked_runs (set_story sid f s) = sn_linked_runs s"
  "sn_blocker (set_story sid f s) = sn_blocker s" "sn_verified_run (set_story sid f s) = sn_verified_run s"
  "sn_goal_id (set_story sid f s) = sn_goal_id s"
  by (simp_all add: set_story_def)

lemma goal_inv_set_story:
  \<comment> \<open>a change to a story that is not and does not become complete\<close>
  assumes inv: "goal_inv s" and st: "map_of (sn_stories s) sid = Some st" "st_status st \<noteq> Complete"
    and same: "st_id (f st) = st_id st" "st_depends_on (f st) = st_depends_on st" "st_status (f st) \<noteq> Complete"
    and ok: "story_ok (completed (sn_stories s)) (f st)"
  shows "goal_inv (set_story sid f s)"
proof -
  have "stories_inv (update_story sid f (sn_stories s))"
    using inv st same ok by (intro stories_inv_update [OF _ st(1)]) (auto simp: goal_inv_def)
  then show ?thesis using inv goal_inv_open [OF inv st] by (auto simp: goal_inv_def)
qed

section \<open>Completing a story\<close>

lemma completed_update:
  assumes "map_of ss sid = Some st" "st_status (f st) = Complete"
  shows "completed (update_story sid f ss) = (\<lambda>k. completed ss k \<or> k = sid)"
  using assms by (auto simp: completed_def map_of_update_story fun_eq_iff)

definition refreshed_all :: "stories \<Rightarrow> stories" where
  "refreshed_all ss = map (\<lambda>(k, s). (k, refreshed (completed ss) s)) ss"

lemma refreshed_fields [simp]:
  "st_id (refreshed P s) = st_id s" "st_depends_on (refreshed P s) = st_depends_on s"
  "st_status (refreshed P s) = Complete \<longleftrightarrow> st_status s = Complete"
  by (auto simp: refreshed_def)

lemma map_of_refreshed_all: "map_of (refreshed_all ss) k = map_option (refreshed (completed ss)) (map_of ss k)"
proof -
  have "map_of (map (\<lambda>(k, s). (k, g s)) xs) k = map_option g (map_of xs k)" for g :: "story \<Rightarrow> story" and xs :: stories
    by (induction xs) auto
  then show ?thesis by (simp add: refreshed_all_def)
qed

lemma completed_refreshed_all [simp]: "completed (refreshed_all ss) = completed ss"
  by (auto simp: completed_def map_of_refreshed_all fun_eq_iff)

lemma needs_refreshed_all [simp]: "needs (refreshed_all ss) = needs ss"
  by (auto simp: needs_def map_of_refreshed_all)

lemma refreshed_story_ok:
  assumes "story_ok P s" "\<And>k. P k \<Longrightarrow> Q k"
  shows "story_ok Q (refreshed Q s)"
  using assms by (cases "st_status s") (auto simp: story_ok_def refreshed_def deps_done_def)

lemma stories_inv_complete:
  assumes inv: "stories_inv ss" and st: "map_of ss sid = Some st" "st_status st = InProgress" "1 \<le> st_checkpoints st"
    and f: "f st = st\<lparr>st_status := Complete, st_block_reason := None\<rparr>"
  defines "ss' \<equiv> update_story sid f ss"
  shows "refresh_ready ss' = Inr (refreshed_all ss')" "stories_inv (refreshed_all ss')"
proof -
  have fin: "completed ss' = (\<lambda>k. completed ss k \<or> k = sid)"
    unfolding ss'_def using st f by (intro completed_update) auto
  have dist: "distinct (map fst ss')" "ss' \<noteq> []" "map fst ss' = map fst ss"
    using inv by (auto simp: ss'_def stories_inv_def update_story_def comp_def case_prod_unfold)
  have old: "\<exists>s. map_of ss k = Some s \<and> s' = (if k = sid then f s else s)" if "map_of ss' k = Some s'" for k s'
    using that by (auto simp: ss'_def map_of_update_story split: if_splits)
  have known: "set (st_depends_on s') \<subseteq> set (map fst ss')" if s': "map_of ss' k = Some s'" for k s'
  proof -
    obtain s where "map_of ss k = Some s" "st_depends_on s' = st_depends_on s"
      using old [OF s'] st f by (auto split: if_splits)
    then show ?thesis using stories_invD(2) [OF inv] dist(3) by metis
  qed
  then show "refresh_ready ss' = Inr (refreshed_all ss')"
    unfolding refreshed_all_def using dist(1) by (intro refresh_ready_known) (auto simp: map_of_eq_Some_iff)
  have own: "st_id s' = k \<and> story_ok (completed ss') (refreshed (completed ss') s')" if s': "map_of ss' k = Some s'" for k s'
  proof -
    obtain s where s: "map_of ss k = Some s" "s' = (if k = sid then f s else s)" using old [OF s'] by blast
    note ok = stories_invD [OF inv s(1)]
    show ?thesis
    proof (cases "k = sid")
      case True
      then have "s' = st\<lparr>st_status := Complete, st_block_reason := None\<rparr>" using s st f by simp
      moreover have "s = st" using True s st by simp
      ultimately show ?thesis using ok st fin by (auto simp: story_ok_def refreshed_def deps_done_def)
    next
      case False
      then show ?thesis using s ok refreshed_story_ok [OF ok(3), of "completed ss'"] fin by auto
    qed
  qed
  have needs: "needs ss' = needs ss"
    using st f by (auto simp: ss'_def needs_def map_of_update_story split: if_splits)
  have keys: "map fst (refreshed_all ss') = map fst ss'" by (simp add: refreshed_all_def comp_def case_prod_unfold)
  show "stories_inv (refreshed_all ss')"
    unfolding stories_inv_def keys needs_refreshed_all needs completed_refreshed_all
  proof (intro conjI allI impI)
    show "refreshed_all ss' \<noteq> []" using dist(2) by (simp add: refreshed_all_def)
    show "acyclic (needs ss)" using inv by (simp add: stories_inv_def)
    show "distinct (map fst ss')" by (rule dist(1))
  next
    fix k t assume "map_of (refreshed_all ss') k = Some t"
    then obtain s' where s': "map_of ss' k = Some s'" and t: "t = refreshed (completed ss') s'"
      by (auto simp: map_of_refreshed_all)
    show "st_id t = k" "set (st_depends_on t) \<subseteq> set (map fst ss')" "story_ok (completed ss') t"
      using own [OF s'] known [OF s'] unfolding t by simp_all
  qed
qed

section \<open>The files of a goal\<close>

definition fresh_start :: "event list \<Rightarrow> bool" where
  \<comment> \<open>the first event creates the goal, with stories that have no evidence\<close>
  "fresh_start events \<longleftrightarrow> (\<exists>t ob sh ph ss. e_body (hd events) = GoalCreated t ob sh ph ss
     \<and> distinct (map st_id ss) \<and> (\<forall>st \<in> set ss. st_evidence st = []))"

definition files_inv :: "string \<Rightarrow> goal_files \<Rightarrow> bool" where
  "files_inv gid files \<longleftrightarrow> (\<exists>s events. g_snapshot files = Snapshot s \<and> g_ledger files = Some (map EventLine events)
     \<and> events \<noteq> [] \<and> linked GENESIS_HASH 1 events \<and> snapshot_matches s events \<and> goal_inv s \<and> sn_goal_id s = gid
     \<and> fresh_start events \<and> (\<forall>now. \<exists>r. rebuild_snapshot_from_events gid now events = Inr r \<and> view r = view s))"

lemma scan_files: "linked GENESIS_HASH 1 events \<Longrightarrow> events \<noteq> [] \<Longrightarrow>
    scan_ledger (Some (map EventLine events)) = (events, LedgerValid)"
  using scan_linked [of GENESIS_HASH 1 events "[]" "[]"] by (simp add: scan_ledger_def)

lemma load_valid:
  assumes "g_snapshot files = Snapshot s" "g_ledger files = Some (map EventLine events)" "events \<noteq> []"
    "linked GENESIS_HASH 1 events" "snapshot_matches s events"
  shows "load_consistent files = Inr (s, events)"
  using assms by (simp add: load_consistent_def read_snapshot_def scan_files healthy_def)

lemma view_stamp: "view r = view s \<Longrightarrow> view (stamp_snapshot e r) = view (stamp_snapshot e s)"
  by (simp add: stamp_snapshot_def view_updates)

lemma linked_snoc: "events \<noteq> [] \<Longrightarrow> linked GENESIS_HASH 1 (events @ [e]) \<longleftrightarrow>
    linked GENESIS_HASH 1 events \<and> linked (e_hash (last events)) (e_sequence (last events) + 1) [e]"
  using linked_last [of GENESIS_HASH 1 events] by (auto simp: linked_append link_hash_def)

lemma stamp_fields [simp]:
  "goal_inv (stamp_snapshot e s) = goal_inv s" "sn_goal_id (stamp_snapshot e s) = sn_goal_id s"
  by (simp_all add: stamp_snapshot_def goal_inv_def all_complete_def)

lemma appended_inv:
  \<comment> \<open>one more event and the stamped snapshot\<close>
  assumes "linked GENESIS_HASH 1 events" "events \<noteq> []" "linked (e_hash (last events)) (e_sequence (last events) + 1) [e]"
    and "g_ledger files = Some (map EventLine events)" "goal_inv s'" "sn_goal_id s' = gid" "e_ts e \<noteq> []"
    and start: "fresh_start events"
    and replay: "\<And>now. \<exists>r r'. rebuild_snapshot_from_events gid now events = Inr r \<and> view r = view s
      \<and> replay_body (e_ts e) (e_body e) s = Inr r' \<and> view r' = view s'"
  shows "files_inv gid (append_event_and_snapshot files s' e)"
proof -
  have "\<exists>q. rebuild_snapshot_from_events gid now (events @ [e]) = Inr q \<and> view q = view (stamp_snapshot e s')" for now
  proof -
    obtain r r' where r: "rebuild_snapshot_from_events gid now events = Inr r" "view r = view s"
      and r': "replay_body (e_ts e) (e_body e) s = Inr r'" "view r' = view s'" using replay by blast
    show ?thesis
      using replay_event_view [OF r(2) r'(1) assms(7)] r(1) view_stamp [OF r'(2)]
      by (simp add: rebuild_append [OF assms(2)])
  qed
  moreover have "g_ledger (append_event_and_snapshot files s' e) = Some (map EventLine (events @ [e]))"
    using assms(4) by (simp add: append_event_and_snapshot_def append_line_def)
  moreover have "g_snapshot (append_event_and_snapshot files s' e) = Snapshot (stamp_snapshot e s')"
    by (simp add: append_event_and_snapshot_def)
  moreover have "snapshot_matches (stamp_snapshot e s') (events @ [e])"
    by (simp add: snapshot_matches_def stamp_snapshot_def)
  moreover have "fresh_start (events @ [e])" using start assms(2) by (simp add: fresh_start_def)
  ultimately show ?thesis
    unfolding files_inv_def using assms(1-3,5,6) linked_snoc [of events e]
    by (intro exI [of _ "stamp_snapshot e s'"] exI [of _ "events @ [e]"]) simp
qed

section \<open>Sound changes\<close>

locale sound_change =
  fixes change :: goal_change and ts :: string
  assumes keeps: "goal_inv s \<Longrightarrow> change s = Inr (Some (body, s')) \<Longrightarrow> goal_inv s' \<and> sn_goal_id s' = sn_goal_id s"
    and replays: "goal_inv s \<Longrightarrow> change s = Inr (Some (body, s')) \<Longrightarrow> \<exists>r. replay_body ts body s = Inr r \<and> view r = view s'"
begin

lemma commit_keeps:
  assumes inv: "files_inv gid files" and run: "commit c gid or_genesis change files = Inr files'"
    and now: "gc_ts c = ts" "ts \<noteq> []"
  shows "files_inv gid files'"
proof -
  obtain s events where f: "g_snapshot files = Snapshot s" "g_ledger files = Some (map EventLine events)" "events \<noteq> []"
    "linked GENESIS_HASH 1 events" "snapshot_matches s events" "goal_inv s" "sn_goal_id s = gid" "fresh_start events"
    and replay: "\<And>now. \<exists>r. rebuild_snapshot_from_events gid now events = Inr r \<and> view r = view s"
    using inv by (auto simp: files_inv_def)
  obtain r where r: "change s = Inr r" and rest: "(case r of None \<Rightarrow> Inr files
     | Some (body, s') \<Rightarrow> bindE (next_link or_genesis events) (\<lambda>(prev, sequence).
         bindE (build_event sequence prev body gid (gc_ts c) (Some (gc_invocation c))) (\<lambda>e.
         Inr (append_event_and_snapshot files s' e)))) = Inr files'"
    using run unfolding commit_def load_valid [OF f(1-5)] by (auto simp: bindE_eq_Inr)
  show ?thesis
  proof (cases r)
    case None
    then show ?thesis using rest inv by simp
  next
    case (Some p)
    obtain body s' where p: "r = Some (body, s')" using Some by (cases p) simp
    obtain e where built: "build_event (e_sequence (last events) + 1) (e_hash (last events)) body gid ts (Some (gc_invocation c)) = Inr e"
      and files': "files' = append_event_and_snapshot files s' e"
      using rest f(3) now(1) unfolding p by (auto simp: next_link_def bindE_eq_Inr)
    note e = build_event_Inr [OF built]
    show ?thesis
      unfolding files'
    proof (rule appended_inv [OF f(4,3) _ f(2)])
      show "linked (e_hash (last events)) (e_sequence (last events) + 1) [e]" using e by blast
      show "goal_inv s'" "sn_goal_id s' = gid" using keeps [OF f(6), of body s'] r f(7) unfolding p by simp_all
      show "e_ts e \<noteq> []" "fresh_start events" using e now(2) f(8) by simp_all
      show "\<exists>r r'. rebuild_snapshot_from_events gid now events = Inr r \<and> view r = view s
          \<and> replay_body (e_ts e) (e_body e) s = Inr r' \<and> view r' = view s'" for now
        using replay [of now] replays [OF f(6), of body s'] r e unfolding p by auto
    qed
  qed
qed

end

end
