(* ===== verification/GoalHistory.thy ===== *)
theory GoalHistory
  imports GoalInvariant
begin

text \<open>
  Every change of an operation is sound (the interpretations of \<open>sound_change\<close>), so every operation keeps
  the files of every goal in order.
\<close>

section \<open>The changes are sound\<close>

lemma replay_story_known: "map_of (sn_stories s) sid = Some st \<Longrightarrow> replay_story sid f s = Inr (set_story sid f s)"
  by (simp add: replay_story_def story_at_def)

interpretation link_c: sound_change "link_change (ch # rid) mode status" ts for ch rid mode status ts
  by unfold_locales (auto simp: link_change_def goal_inv_def all_complete_def split: if_splits)

interpretation import_c: sound_change "import_change path digest remark" ts for path digest remark ts
  by unfold_locales (auto simp: import_change_def)

lemma start_change_Inr:
  assumes "goal_inv s" "start_change sid s = Inr (Some (body, s'))"
  shows "\<exists>st. map_of (sn_stories s) sid = Some st \<and> st_status st = Ready \<and> body = StoryStarted sid
    \<and> s' = set_story sid (\<lambda>st. st\<lparr>st_status := InProgress, st_block_reason := None\<rparr>) s"
proof -
  have "refresh_ready (sn_stories s) = Inr (sn_stories s)"
    using assms(1) by (intro refresh_ready_inv) (simp add: goal_inv_def)
  then show ?thesis using assms(2) by (auto simp: start_change_def Let_def result_simps)
qed

interpretation start_c: sound_change "start_change sid" ts for sid ts
proof unfold_locales
  fix s body s' assume inv: "goal_inv s" and run: "start_change sid s = Inr (Some (body, s'))"
  obtain st where st: "map_of (sn_stories s) sid = Some st" "st_status st = Ready" and body: "body = StoryStarted sid"
    and s': "s' = set_story sid (\<lambda>st. st\<lparr>st_status := InProgress, st_block_reason := None\<rparr>) s"
    using start_change_Inr [OF inv run] by blast
  have "stories_inv (sn_stories s)" using inv by (simp add: goal_inv_def)
  from stories_invD(3) [OF this st(1)] have "story_ok (completed (sn_stories s)) (st\<lparr>st_status := InProgress, st_block_reason := None\<rparr>)"
    using st(2) by (auto simp: story_ok_def deps_done_def)
  then show "goal_inv s' \<and> sn_goal_id s' = sn_goal_id s"
    unfolding s' using st inv by (auto intro!: goal_inv_set_story [OF inv st(1)])
  show "\<exists>r. replay_body ts body s = Inr r \<and> view r = view s'"
    unfolding body s' by (simp add: replay_story_known [OF st(1)])
qed

interpretation checkpoint_c: sound_change "checkpoint_change sid message path digest at_time" ts
  for sid message path digest at_time ts
proof unfold_locales
  let ?f = "\<lambda>at st. st\<lparr>st_checkpoints := st_checkpoints st + 1, st_evidence := st_evidence st @
    [\<lparr>ce_path = path, ce_sha256 = digest, ce_message = message, ce_at = at\<rparr>]\<rparr>"
  fix s body s' assume inv: "goal_inv s" and run: "checkpoint_change sid message path digest at_time s = Inr (Some (body, s'))"
  then obtain st where st: "map_of (sn_stories s) sid = Some st" "st_status st = InProgress"
    and body: "body = Checkpoint sid message path digest" and s': "s' = set_story sid (?f at_time) s"
    by (auto simp: checkpoint_change_def result_simps)
  have "stories_inv (sn_stories s)" using inv by (simp add: goal_inv_def)
  from stories_invD(3) [OF this st(1)] have "story_ok (completed (sn_stories s)) (?f at_time st)"
    using st(2) by (auto simp: story_ok_def deps_done_def)
  then show "goal_inv s' \<and> sn_goal_id s' = sn_goal_id s"
    unfolding s' using st inv by (auto intro!: goal_inv_set_story [OF inv st(1)])
  have "stories_view (update_story sid (?f ts) ss) = stories_view (update_story sid (?f at_time) ss)" for ss
    by (induction ss) (auto simp: stories_view_def update_story_def story_view_def)
  then have "view (set_story sid (?f ts) s) = view (set_story sid (?f at_time) s)"
    by (simp add: set_story_def view_updates)
  then show "\<exists>r. replay_body ts body s = Inr r \<and> view r = view s'"
    unfolding body s' by (simp add: replay_story_known [OF st(1)])
qed

interpretation block_c: sound_change "block_change sid reason next_step" ts for sid reason next_step ts
proof unfold_locales
  let ?f = "\<lambda>st. st\<lparr>st_status := Blocked, st_block_reason := Some reason, st_next_action := next_step\<rparr>"
  fix s body s' assume inv: "goal_inv s" and run: "block_change sid reason next_step s = Inr (Some (body, s'))"
  then obtain st where st: "map_of (sn_stories s) sid = Some st" "st_status st \<in> {InProgress, Ready}"
    and body: "body = StoryBlocked sid reason next_step"
    and s': "s' = (set_story sid ?f s)\<lparr>sn_status := GoalBlocked, sn_blocker := Some (StoryBlocker sid reason next_step)\<rparr>"
    by (auto simp: block_change_def result_simps)
  have "stories_inv (sn_stories s)" using inv by (simp add: goal_inv_def)
  from stories_invD(3) [OF this st(1)] have "story_ok (completed (sn_stories s)) (?f st)"
    using st(2) by (auto simp: story_ok_def deps_done_def)
  then have "goal_inv (set_story sid ?f s)" using st by (intro goal_inv_set_story [OF inv st(1)]) auto
  moreover have "\<not> sn_verified s" using goal_inv_open [OF inv st(1)] st(2) by auto
  ultimately show "goal_inv s' \<and> sn_goal_id s' = sn_goal_id s"
    unfolding s' by (simp add: goal_inv_def)
  show "\<exists>r. replay_body ts body s = Inr r \<and> view r = view s'"
    unfolding body s' by (simp add: replay_story_known [OF st(1)])
qed

interpretation resume_c: sound_change "resume_change sid" ts for sid ts
proof unfold_locales
  let ?f = "\<lambda>st. st\<lparr>st_status := InProgress, st_block_reason := None, st_next_action := None\<rparr>"
  fix s body s' assume inv: "goal_inv s" and run: "resume_change sid s = Inr (Some (body, s'))"
  then obtain st where st: "map_of (sn_stories s) sid = Some st" "st_status st = Blocked"
    and body: "body = StoryResumed sid" and s': "release_blocker sid (set_story sid ?f s) = Inr s'"
    by (auto simp: resume_change_def resumed_def result_simps)
  have "stories_inv (sn_stories s)" using inv by (simp add: goal_inv_def)
  from stories_invD(3) [OF this st(1)] have "story_ok (completed (sn_stories s)) (?f st)"
    using st(2) by (auto simp: story_ok_def deps_done_def)
  then have "goal_inv (set_story sid ?f s)" using st by (intro goal_inv_set_story [OF inv st(1)]) auto
  moreover have "\<not> sn_verified s" using goal_inv_open [OF inv st(1)] st(2) by auto
  ultimately show "goal_inv s' \<and> sn_goal_id s' = sn_goal_id s"
    using s' by (auto simp: release_blocker_def goal_inv_def split: option.splits blocker.splits if_splits)
  show "\<exists>r. replay_body ts body s = Inr r \<and> view r = view s'"
    using s' unfolding body by (simp add: replay_story_known [OF st(1)])
qed

lemma update_story_cong:
  assumes "distinct (map fst ss)" "map_of ss sid = Some st" "f st = g st"
  shows "update_story sid f ss = update_story sid g ss"
proof -
  have "x = st" if "(sid, x) \<in> set ss" for x using that assms(1,2) by (metis map_of_eq_Some_iff option.inject)
  then show ?thesis using assms(3) by (auto simp: update_story_def)
qed

interpretation complete_c: sound_change "complete_change sid" ts for sid ts
proof unfold_locales
  let ?f = "\<lambda>st. st\<lparr>st_status := Complete, st_block_reason := None\<rparr>" and ?g = "\<lambda>st. st\<lparr>st_status := Complete\<rparr>"
  fix s body s' assume inv: "goal_inv s" and run: "complete_change sid s = Inr (Some (body, s'))"
  let ?ss = "update_story sid ?f (sn_stories s)"
  obtain st where st: "map_of (sn_stories s) sid = Some st" "st_status st = InProgress" "1 \<le> st_checkpoints st"
    using run by (auto simp: complete_change_def result_simps not_less)
  have sinv: "stories_inv (sn_stories s)" using inv by (simp add: goal_inv_def)
  have refresh: "refresh_ready ?ss = Inr (refreshed_all ?ss)" and inv': "stories_inv (refreshed_all ?ss)"
    by (rule stories_inv_complete [OF sinv st], simp)+
  let ?s2 = "(set_story sid ?f s)\<lparr>sn_stories := refreshed_all ?ss\<rparr>"
  have blocked: "\<not> (sn_status s = GoalBlocked \<and> sn_blocker s = None)" using inv by (auto simp: goal_inv_def)
  have body: "body = StoryCompleted sid" and s': "s' = (if all_complete ?s2 then ?s2\<lparr>sn_status := GoalComplete\<rparr> else ?s2)"
    using run st refresh blocked by (auto simp: complete_change_def result_simps Let_def split: if_splits)
  have open_goal: "sn_status s \<notin> {GoalComplete, GoalIsVerified, Forensic}" "\<not> sn_verified s"
    using goal_inv_open [OF inv st(1)] st(2) by auto
  have "all_complete (?s2\<lparr>sn_status := GoalComplete\<rparr>) = all_complete ?s2" by (simp add: all_complete_def)
  then show "goal_inv s' \<and> sn_goal_id s' = sn_goal_id s"
    unfolding s' using inv inv' open_goal by (auto simp: goal_inv_def)
  have "st_block_reason st = None"
    using stories_invD(3) [OF sinv st(1)] st(2) by (auto simp: story_ok_def)
  then have "?f st = ?g st" by simp
  then have "update_story sid ?g (sn_stories s) = ?ss"
    using sinv by (intro update_story_cong [OF _ st(1)]) (auto simp: stories_inv_def)
  then have "set_story sid ?g s = set_story sid ?f s" by (simp add: set_story_def)
  then show "\<exists>r. replay_body ts body s = Inr r \<and> view r = view s'"
    unfolding body s' by (simp add: replay_story_known [OF st(1)] refresh Let_def)
qed

lemma find_verified_linked: "find_verified load_run runs rids = Inr (Some rid) \<Longrightarrow> rid \<in> set runs"
  by (induction rids) (auto split: if_splits option.splits)

interpretation verify_c: sound_change "verify_change load_run run_id ts" ts for load_run run_id ts
proof unfold_locales
  fix s body s' assume inv: "goal_inv s" and run: "verify_change load_run run_id ts s = Inr (Some (body, s'))"
  then obtain rid where rid: "rid \<in> set (sn_linked_runs s)" and complete: "sn_status s = GoalComplete"
    and body: "body = GoalVerified rid"
    and s': "s' = s\<lparr>sn_verified := True, sn_status := GoalIsVerified, sn_verified_run := Some rid, sn_verified_at := Some ts\<rparr>"
    by (auto simp: verify_change_def result_simps dest!: find_verified_linked split: option.splits if_splits)
  have "all_complete s' = all_complete s" unfolding s' by (simp add: all_complete_def)
  then show "goal_inv s' \<and> sn_goal_id s' = sn_goal_id s"
    using inv rid complete by (auto simp: s' goal_inv_def)
  show "\<exists>r. replay_body ts body s = Inr r \<and> view r = view s'" unfolding body s' by simp
qed

section \<open>The operations keep every goal in order\<close>

definition keeps_goals :: "(goal_store \<Rightarrow> goal_exc + goal_store) \<Rightarrow> bool" where
  "keeps_goals op \<longleftrightarrow> (\<forall>store store' gid. op store = Inr store' \<longrightarrow> files_inv gid (store gid) \<longrightarrow> files_inv gid (store' gid))"

lemma keeps_goals_op:
  assumes "\<And>gid files files'. f gid files = Inr files' \<Longrightarrow> files_inv gid files \<Longrightarrow> files_inv gid files'"
  shows "keeps_goals (goal_op c goal_id f)"
  using assms by (auto simp: keeps_goals_def goal_op_def result_simps)

lemma identifier_nonempty: "validate_identifier s = Inr i \<Longrightarrow> i \<noteq> []"
  by (auto simp: validate_identifier_def Let_def IDENTIFIER_RE_def split: if_splits)

lemma link_run_keeps: "gc_ts c \<noteq> [] \<Longrightarrow> keeps_goals (link_run c goal_id run_id load_run)"
  unfolding link_run_def
proof (rule keeps_goals_op)
  fix gid files files' assume now: "gc_ts c \<noteq> []" and inv: "files_inv gid files"
    and run: "bindE (validate_identifier run_id) (\<lambda>rid. case load_run rid of None \<Rightarrow> Inl GoalError
      | Some run \<Rightarrow> commit c gid True (link_change rid (rv_mode run) (rv_status run)) files) = Inr files'"
  then obtain rid where rid: "validate_identifier run_id = Inr rid"
    and rest: "(case load_run rid of None \<Rightarrow> Inl GoalError
      | Some v \<Rightarrow> commit c gid True (link_change rid (rv_mode v) (rv_status v)) files) = Inr files'"
    unfolding bindE_eq_Inr by blast
  obtain ch rid' where name: "rid = ch # rid'" using identifier_nonempty [OF rid] by (cases rid) auto
  show "files_inv gid files'"
  proof (cases "load_run rid")
    case (Some v)
    then have "commit c gid True (link_change (ch # rid') (rv_mode v) (rv_status v)) files = Inr files'"
      using rest unfolding name by simp
    from link_c.commit_keeps [OF inv this refl now] show ?thesis .
  qed (use rest in simp)
qed

lemma story_op_keeps:
  assumes "\<And>sid change gid files files'. change_of sid = Inr change \<Longrightarrow> files_inv gid files \<Longrightarrow>
    commit c gid False change files = Inr files' \<Longrightarrow> files_inv gid files'"
  shows "keeps_goals (story_op c goal_id story_id change_of)"
  unfolding story_op_def by (rule keeps_goals_op) (use assms in \<open>auto simp: result_simps\<close>)

lemma story_ops_keep:
  assumes now: "gc_ts c \<noteq> []"
  shows "keeps_goals (start_story c goal_id story_id)" "keeps_goals (resume_story c goal_id story_id)"
    "keeps_goals (complete_story c goal_id story_id)" "keeps_goals (checkpoint c goal_id story_id evidence message)"
    "keeps_goals (block_story c goal_id story_id reason next_step)"
  unfolding start_story_def resume_story_def complete_story_def checkpoint_def block_story_def
  by (rule story_op_keeps; auto simp: result_simps Let_def split: option.splits
      intro: start_c.commit_keeps [OF _ _ refl now] resume_c.commit_keeps [OF _ _ refl now]
        complete_c.commit_keeps [OF _ _ refl now] checkpoint_c.commit_keeps [OF _ _ refl now]
        block_c.commit_keeps [OF _ _ refl now])+

lemma goal_ops_keep:
  assumes now: "gc_ts c \<noteq> []"
  shows "keeps_goals (import_proposal_event c goal_id proposal expected remark)"
    "keeps_goals (verify_goal c goal_id run_id load_run)"
  unfolding import_proposal_event_def verify_goal_def
  by (rule keeps_goals_op; auto simp: result_simps split: option.splits
      intro: import_c.commit_keeps [OF _ _ refl now] verify_c.commit_keeps [OF _ _ refl now])+

end
