(* ===== verification/GoalGraph.thy ===== *)
theory GoalGraph
  imports GoalFacts
begin

text \<open>
  The validation of the story graph: Kahn's loop puts every story after the stories it depends on and
  reaches all of them exactly when no story depends on itself through others.
\<close>

section \<open>The loop\<close>

definition after_deps :: "open_deps \<Rightarrow> string list \<Rightarrow> bool" where
  \<comment> \<open>each story after the stories it depends on\<close>
  "after_deps graph order \<longleftrightarrow> (\<forall>pre k post. order = pre @ k # post \<longrightarrow> (\<exists>ds. (k, ds) \<in> set graph \<and> set ds \<subseteq> set pre))"

definition still_open :: "open_deps \<Rightarrow> string list \<Rightarrow> open_deps" where
  "still_open graph order = map (\<lambda>(k, ds). (k, filter (\<lambda>d. d \<notin> set order) ds)) graph"

definition kahn_inv :: "open_deps \<Rightarrow> string list \<Rightarrow> string list \<Rightarrow> bool" where
  "kahn_inv graph stack order \<longleftrightarrow> after_deps graph order \<and> distinct (order @ stack)
     \<and> set order \<union> set stack = {k. \<exists>ds. (k, ds) \<in> set graph \<and> set ds \<subseteq> set order}"

lemma still_open_settle: "settle sid (still_open graph order) = still_open graph (order @ [sid])"
  by (auto simp: settle_def still_open_def intro: filter_cong)

lemma mem_freed: "k \<in> set (freed sid order g) \<longleftrightarrow> (\<exists>ds. (k, ds) \<in> set g \<and> sid \<in> set ds \<and> set ds \<subseteq> {sid} \<and> k \<notin> set order)"
proof (induction g)
  case (Cons p g)
  have "filter (\<lambda>d. d \<noteq> sid) ds = [] \<longleftrightarrow> set ds \<subseteq> {sid}" for ds by (auto simp: filter_empty_conv)
  then have "freed sid order (p # g) = (if sid \<in> set (snd p) \<and> set (snd p) \<subseteq> {sid} \<and> fst p \<notin> set order
      then fst p # freed sid order g else freed sid order g)"
    by (cases p) (simp add: freed_def)
  then show ?case using Cons by (cases p) auto
qed (simp add: freed_def)

lemma mem_still_open: "(k, es) \<in> set (still_open graph order) \<longleftrightarrow> (\<exists>ds. (k, ds) \<in> set graph \<and> es = filter (\<lambda>d. d \<notin> set order) ds)"
  by (auto simp: still_open_def)

lemma freed_still_open:
  "set (freed sid (order @ [sid]) (still_open graph order)) =
     {k. \<exists>ds. (k, ds) \<in> set graph \<and> sid \<in> set ds \<and> sid \<notin> set order \<and> set ds \<subseteq> insert sid (set order)} - set (order @ [sid])"
  (is "?l = ?r")
proof (rule set_eqI)
  fix k
  have "k \<in> ?l \<longleftrightarrow> (\<exists>ds. (k, ds) \<in> set graph \<and> sid \<in> set (filter (\<lambda>d. d \<notin> set order) ds)
      \<and> set (filter (\<lambda>d. d \<notin> set order) ds) \<subseteq> {sid} \<and> k \<notin> set (order @ [sid]))"
    unfolding mem_freed mem_still_open by blast
  then show "k \<in> ?l \<longleftrightarrow> k \<in> ?r" by auto
qed

lemma distinct_freed: "distinct (map fst graph) \<Longrightarrow> distinct (freed sid order graph)"
  unfolding freed_def by (rule distinct_map_filter)

lemma after_deps_snoc: "after_deps graph (order @ [k]) \<longleftrightarrow>
    after_deps graph order \<and> (\<exists>ds. (k, ds) \<in> set graph \<and> set ds \<subseteq> set order)"
proof -
  have "order @ [k] = pre @ j # post \<longleftrightarrow> (post = [] \<and> pre = order \<and> j = k) \<or> (\<exists>post'. post = post' @ [k] \<and> order = pre @ j # post')"
    for pre j post by (cases post rule: rev_exhaust) auto
  then show ?thesis unfolding after_deps_def by (metis (no_types, lifting))
qed

lemma kahn_inv_step:
  assumes dist: "distinct (map fst graph)" and inv: "kahn_inv graph (sid # stack) order"
  shows "kahn_inv graph (rev (freed sid (order @ [sid]) (still_open graph order)) @ stack) (order @ [sid])"
proof -
  let ?new = "freed sid (order @ [sid]) (still_open graph order)"
  have known: "set order \<union> insert sid (set stack) = {k. \<exists>ds. (k, ds) \<in> set graph \<and> set ds \<subseteq> set order}"
    and "after_deps graph order" and dis: "distinct (order @ sid # stack)"
    using inv by (auto simp: kahn_inv_def)
  then have "after_deps graph (order @ [sid])" by (auto simp: after_deps_snoc)
  moreover have "distinct ?new"
    by (rule distinct_freed) (use dist in \<open>simp add: still_open_def comp_def case_prod_unfold\<close>)
  moreover have ds: "ds = ds'" if "(k, ds) \<in> set graph" "(k, ds') \<in> set graph" for k ds ds'
    using dist that by (metis map_of_eq_Some_iff option.inject)
  have "set ?new \<inter> (set order \<union> insert sid (set stack)) = {}"
    unfolding known freed_still_open using ds dis by fastforce
  moreover have "set (order @ [sid]) \<union> set (rev ?new @ stack) = {k. \<exists>ds. (k, ds) \<in> set graph \<and> set ds \<subseteq> set (order @ [sid])}"
  proof -
    have "set (order @ [sid]) \<union> set (rev ?new @ stack) = (set order \<union> insert sid (set stack)) \<union> set ?new" by auto
    also have "\<dots> = {k. \<exists>ds. (k, ds) \<in> set graph \<and> set ds \<subseteq> insert sid (set order)}" (is "?l = ?r")
    proof
      show "?l \<subseteq> ?r" unfolding known freed_still_open by blast
      show "?r \<subseteq> ?l"
      proof
        fix k assume "k \<in> ?r"
        then obtain ds where k: "(k, ds) \<in> set graph" "set ds \<subseteq> insert sid (set order)" by blast
        show "k \<in> ?l"
        proof (cases "sid \<in> set ds \<and> k \<notin> set (order @ [sid])")
          case True
          then show ?thesis using k dis unfolding freed_still_open by auto
        next
          case False
          then have "k \<in> set order \<union> {sid} \<or> set ds \<subseteq> set order" using k by auto
          then have "k \<in> set order \<union> insert sid (set stack)" using k(1) known by blast
          then show ?thesis by blast
        qed
      qed
    qed
    finally show ?thesis by simp
  qed
  ultimately show ?thesis using dis by (auto simp: kahn_inv_def)
qed

lemma kahn_result:
  assumes "distinct (map fst graph)"
  shows "kahn_inv graph stack order \<Longrightarrow> kahn_inv graph [] (kahn stack order (still_open graph order))"
proof (induction stack order "still_open graph order" arbitrary: rule: kahn.induct)
  case (2 sid stack order)
  show ?case
    using 2(1) [OF still_open_settle] kahn_inv_step [OF assms 2(2)] by (simp add: still_open_settle)
qed simp

lemma kahn_start: "distinct (map fst graph) \<Longrightarrow> kahn_inv graph (rev (map fst (filter (\<lambda>(k, ds). ds = []) graph))) []"
  by (auto simp: kahn_inv_def after_deps_def distinct_map_filter image_iff)

section \<open>Acyclic graphs\<close>

definition edges :: "open_deps \<Rightarrow> (string \<times> string) set" where
  "edges graph = {(d, k). \<exists>ds. (k, ds) \<in> set graph \<and> d \<in> set ds}"

lemma kahn_complete_acyclic:
  assumes dist: "distinct (map fst graph)" and inv: "kahn_inv graph [] order" and all: "set order = set (map fst graph)"
  shows "acyclic (edges graph)"
proof -
  let ?pos = "\<lambda>v. length (takeWhile (\<lambda>x. x \<noteq> v) order)"
  have "?pos d < ?pos k" if e: "(d, k) \<in> edges graph" for d k
  proof -
    obtain ds where ds: "(k, ds) \<in> set graph" "d \<in> set ds" using e by (auto simp: edges_def)
    then have "k \<in> set order" unfolding all by force
    then obtain pre post where o: "order = pre @ k # post" by (meson split_list)
    then obtain ds' where "(k, ds') \<in> set graph" "set ds' \<subseteq> set pre"
      using inv unfolding kahn_inv_def after_deps_def by blast
    then have "d \<in> set pre" using ds dist by (metis map_of_eq_Some_iff option.inject subsetD)
    moreover have "k \<notin> set pre" using inv o by (simp add: kahn_inv_def)
    ultimately have "?pos k = length pre" unfolding o by (subst takeWhile_append2) auto
    moreover have "length (takeWhile (\<lambda>x. x \<noteq> d) (pre @ k # post)) < length pre"
      using \<open>d \<in> set pre\<close> by (induction pre) auto
    ultimately show ?thesis unfolding o by simp
  qed
  then have "edges graph \<subseteq> measure ?pos" by auto
  then show ?thesis using wf_subset wf_acyclic wf_measure by metis
qed

lemma kahn_acyclic_complete:
  assumes inv: "kahn_inv graph [] order" and acyc: "acyclic (edges graph)"
    and known: "\<And>k ds. (k, ds) \<in> set graph \<Longrightarrow> set ds \<subseteq> set (map fst graph)"
  shows "set order = set (map fst graph)"
proof (rule ccontr)
  let ?K = "set (map fst graph)"
  have sub: "set order = {k. \<exists>ds. (k, ds) \<in> set graph \<and> set ds \<subseteq> set order}" using inv by (simp add: kahn_inv_def)
  then have "set order \<subseteq> ?K" by force
  moreover assume "set order \<noteq> ?K"
  ultimately obtain v where v: "v \<in> ?K - set order" by blast
  have "d \<in> ?K \<and> k \<in> ?K" if "(d, k) \<in> edges graph" for d k
    using that known unfolding edges_def by (auto simp: image_iff) force+
  then have "edges graph \<subseteq> ?K \<times> ?K" by auto
  then have "finite (edges graph)" by (rule finite_subset) simp
  then have "wf (edges graph)" using acyc by (rule finite_acyclic_wf)
  then obtain m where m: "m \<in> ?K - set order" and least: "\<And>d. (d, m) \<in> edges graph \<Longrightarrow> d \<notin> ?K - set order"
    using wfE_min [OF _ v] by metis
  obtain ds where ds: "(m, ds) \<in> set graph" using m by auto
  have "d \<in> set order" if "d \<in> set ds" for d
    using least [of d] known [OF ds] that ds by (auto simp: edges_def)
  then have "m \<in> set order" using ds sub by blast
  then show False using m by simp
qed

lemma still_open_Nil [simp]: "still_open graph [] = graph"
  by (simp add: still_open_def case_prod_unfold)

lemma kahn_all_iff:
  assumes dist: "distinct (map fst graph)" and known: "\<And>k ds. (k, ds) \<in> set graph \<Longrightarrow> set ds \<subseteq> set (map fst graph)"
  shows "length (kahn (rev (map fst (filter (\<lambda>(k, ds). ds = []) graph))) [] graph) = length graph \<longleftrightarrow> acyclic (edges graph)"
proof -
  let ?order = "kahn (rev (map fst (filter (\<lambda>(k, ds). ds = []) graph))) [] graph"
  have inv: "kahn_inv graph [] ?order" using kahn_result [OF dist kahn_start [OF dist]] by simp
  then have "set ?order = {k. \<exists>ds. (k, ds) \<in> set graph \<and> set ds \<subseteq> set ?order}" by (simp add: kahn_inv_def)
  then have sub: "set ?order \<subseteq> set (map fst graph)" by force
  have "distinct ?order" using inv by (simp add: kahn_inv_def)
  then have "length ?order = card (set ?order)" "length graph = card (set (map fst graph))"
    using distinct_card [OF dist] by (simp_all add: distinct_card)
  then have "length ?order = length graph \<longleftrightarrow> set ?order = set (map fst graph)"
    using sub by (metis List.finite_set card_subset_eq)
  then show ?thesis
    using kahn_complete_acyclic [OF dist inv] kahn_acyclic_complete [OF inv] known by metis
qed

section \<open>The accepted stories\<close>

definition fresh_story :: "string \<Rightarrow> story \<Rightarrow> bool" where
  "fresh_story k s \<longleftrightarrow> st_id s = k \<and> st_status s = Pending \<and> st_block_reason s = None \<and> st_next_action s = None
     \<and> st_evidence s = [] \<and> st_checkpoints s = 0"

lemma read_story_Inr: "read_story by_id raw = Inr (k, s) \<Longrightarrow> k \<notin> set (map fst by_id) \<and> fresh_story k s"
proof (cases raw)
  case (JObj d)
  show "read_story by_id raw = Inr (k, s) \<Longrightarrow> k \<notin> set (map fst by_id) \<and> fresh_story k s"
    unfolding JObj read_story_def json.case bindE_eq_Inr Let_def check_eq_Inr
    by (elim exE conjE) (auto simp: fresh_story_def)
qed (simp_all add: read_story_def)

lemma read_stories_Inr:
  "read_stories raws by_id = Inr ss \<Longrightarrow> distinct (map fst by_id) \<Longrightarrow> (\<forall>(k, s) \<in> set by_id. fresh_story k s) \<Longrightarrow>
     distinct (map fst ss) \<and> (\<forall>(k, s) \<in> set ss. fresh_story k s) \<and> length ss = length by_id + length raws"
proof (induction raws arbitrary: by_id)
  case (Cons raw raws)
  then obtain k s where "read_story by_id raw = Inr (k, s)" and rest: "read_stories raws (by_id @ [(k, s)]) = Inr ss"
    by (auto simp: result_simps)
  from read_story_Inr [OF this(1)] Cons.prems have "distinct (map fst (by_id @ [(k, s)]))"
    "\<forall>(k, s) \<in> set (by_id @ [(k, s)]). fresh_story k s" by auto
  from Cons.IH [OF rest this] show ?case by simp
qed simp

lemma edges_open_of: "distinct (map fst by_id) \<Longrightarrow> edges (open_of by_id) = needs by_id"
  by (force simp: edges_def needs_def open_of_def map_of_eq_Some_iff)

definition unknown_free :: "stories \<Rightarrow> bool" where
  "unknown_free ss \<longleftrightarrow> (\<forall>(k, s) \<in> set ss. set (st_depends_on s) \<subseteq> set (map fst ss))"

lemma story_order_iff:
  assumes "distinct (map fst by_id)" "unknown_free by_id"
  shows "length (story_order by_id) = length by_id \<longleftrightarrow> acyclic (needs by_id)"
proof -
  have keys: "map fst (open_of by_id) = map fst by_id" by (simp add: open_of_def comp_def case_prod_unfold)
  have "length (story_order by_id) = length (open_of by_id) \<longleftrightarrow> acyclic (edges (open_of by_id))"
    unfolding story_order_def
  proof (rule kahn_all_iff)
    show "distinct (map fst (open_of by_id))" using assms(1) by (simp only: keys)
    show "set ds \<subseteq> set (map fst (open_of by_id))" if "(k, ds) \<in> set (open_of by_id)" for k ds
      using that assms(2) unfolding keys by (force simp: open_of_def unknown_free_def)
  qed
  then show ?thesis unfolding edges_open_of [OF assms(1)] by (simp add: open_of_def)
qed

definition initial_stories :: "stories \<Rightarrow> stories" where
  "initial_stories by_id = map (\<lambda>(k, s). (k, s\<lparr>st_status := (if st_depends_on s = [] then Ready else Pending)\<rparr>)) by_id"

lemma validate_story_graph_Inr:
  "validate_story_graph raws = Inr ss \<longleftrightarrow> raws \<noteq> [] \<and> (\<exists>by_id. read_stories raws [] = Inr by_id \<and> unknown_free by_id
     \<and> acyclic (needs by_id) \<and> ss = initial_stories by_id)"
proof -
  have "length (story_order by_id) = length by_id \<longleftrightarrow> acyclic (needs by_id)"
    if "read_stories raws [] = Inr by_id" "unknown_free by_id" for by_id
    by (rule story_order_iff) (use read_stories_Inr [OF that(1)] that(2) in simp_all)
  then show ?thesis
    unfolding validate_story_graph_def bindE_eq_Inr check_eq_Inr initial_stories_def
    by (auto simp: unknown_free_def list_all_iff simp del: set_map)
qed

lemma initial_stories_inv:
  assumes "by_id \<noteq> []" "distinct (map fst by_id)" "\<forall>(k, s) \<in> set by_id. fresh_story k s" "unknown_free by_id" "acyclic (needs by_id)"
  shows "stories_inv (initial_stories by_id)"
proof -
  have look: "map_of (initial_stories by_id) k = map_option (\<lambda>s. s\<lparr>st_status := (if st_depends_on s = [] then Ready else Pending)\<rparr>)
      (map_of by_id k)" for k
    by (induction by_id) (auto simp: initial_stories_def)
  have none: "\<not> completed (initial_stories by_id) k" for k
    by (auto simp: completed_def look split: if_splits)
  have needs: "needs (initial_stories by_id) = needs by_id"
    by (auto simp: needs_def look) (metis story.select_convs(3) story.surjective story.update_convs(5))
  have keys: "map fst (initial_stories by_id) = map fst by_id" by (simp add: initial_stories_def comp_def case_prod_unfold)
  have "st_id t = k \<and> set (st_depends_on t) \<subseteq> set (map fst by_id) \<and> story_ok (completed (initial_stories by_id)) t"
    if t: "map_of (initial_stories by_id) k = Some t" for k t
  proof -
    obtain s where s: "(k, s) \<in> set by_id" and t: "t = s\<lparr>st_status := (if st_depends_on s = [] then Ready else Pending)\<rparr>"
      using t by (auto simp: look dest: map_of_SomeD)
    have "fresh_story k s" "set (st_depends_on s) \<subseteq> set (map fst by_id)" using assms(3,4) s by (auto simp: unknown_free_def)
    moreover have "deps_done (completed (initial_stories by_id)) t \<longleftrightarrow> st_depends_on s = []"
      using none by (auto simp: deps_done_def t)
    ultimately show ?thesis by (auto simp: t fresh_story_def story_ok_def)
  qed
  then show ?thesis
    unfolding stories_inv_def keys needs using assms by (auto simp: initial_stories_def simp del: set_map)
qed

end
