(* ===== verification/GoalReachable.thy ===== *)
theory GoalReachable
  imports GoalHistory GoalGraph
begin

text \<open>
  The reachable stores of a goal: its creation, every operation, and the repair of a torn last line keep
  the files in order.
\<close>

section \<open>The invariant depends on the view alone\<close>

lemma stories_inv_view: "stories_inv (stories_view ss) = stories_inv ss"
proof -
  have fin: "completed (stories_view ss) = completed ss" by (auto simp: completed_def fun_eq_iff)
  have needs: "needs (stories_view ss) = needs ss" by (auto simp: needs_def)
  have ok: "story_ok P (story_view s) = story_ok P s" for P s
    by (simp add: story_ok_def deps_done_def)
  have all: "(\<forall>k s. map_of (stories_view ss) k = Some s \<longrightarrow> Q k s) \<longleftrightarrow> (\<forall>k s. map_of ss k = Some s \<longrightarrow> Q k (story_view s))" for Q
    by auto
  have "stories_view ss = [] \<longleftrightarrow> ss = []" by (simp add: stories_view_def)
  then show ?thesis unfolding stories_inv_def keys_stories_view fin needs all by (simp only: ok story_view_simps)
qed

lemma goal_inv_view: "goal_inv (view s) = goal_inv s" "sn_goal_id (view s) = sn_goal_id s"
proof -
  have "all_complete (view s) = all_complete s" by (rule all_complete_view) simp
  then show "goal_inv (view s) = goal_inv s"
    by (simp add: goal_inv_def stories_inv_view view_fields) (simp add: view_def)
qed (simp add: view_def)

lemma goal_inv_same_view: "view r = view s \<Longrightarrow> goal_inv r = goal_inv s \<and> sn_goal_id r = sn_goal_id s"
  by (metis goal_inv_view)

section \<open>Creation\<close>

lemma foldl_put_story:
  "distinct (map fst (acc @ ss)) \<Longrightarrow> \<forall>(k, s) \<in> set ss. st_id s = k \<Longrightarrow> foldl put_story acc (map snd ss) = acc @ ss"
proof (induction ss arbitrary: acc)
  case (Cons p ss)
  obtain k s where p: "p = (k, s)" by fastforce
  then have "st_id s = k" "k \<notin> set (map fst acc)" using Cons.prems by auto
  then have "put_story acc s = acc @ [p]" by (simp add: put_story_def p)
  then show ?case using Cons.IH [of "acc @ [p]"] Cons.prems p by simp
qed simp

lemma init_goal_files:
  assumes run: "init_goal c goal_id raws title spec_hash plan_hash objective store = Inr store'"
    and gid: "validate_identifier goal_id = Inr gid" and now: "gc_ts c \<noteq> []" "gc_invocation c \<noteq> []"
  shows "files_inv gid (store' gid)" "\<And>g. g \<noteq> gid \<Longrightarrow> store' g = store g"
proof -
  obtain ss e where graph: "validate_story_graph raws = Inr ss"
    and e: "build_event 1 GENESIS_HASH (GoalCreated (strip (or_name title gid)) (strip (or_name objective [])) spec_hash plan_hash
        (map snd ss)) gid (gc_ts c) (Some (gc_invocation c)) = Inr e"
    and store': "store' = store(gid := append_event_and_snapshot ((store gid)\<lparr>g_ledger := Some []\<rparr>)
       \<lparr>sn_goal_id = gid, sn_title = strip (or_name title gid), sn_objective = strip (or_name objective []),
         sn_status = Active, sn_verified = False, sn_stories = ss, sn_linked_runs = [], sn_spec_hash = spec_hash,
         sn_plan_hash = plan_hash, sn_tail_sequence = 0, sn_tail_hash = GENESIS_HASH, sn_revision = 0, sn_created_at = e_ts e,
         sn_updated_at = e_ts e, sn_blocker = None, sn_created_by = Some (gc_invocation c), sn_verified_run = None,
         sn_verified_at = None\<rparr> e)"
    using run gid by (auto simp: init_goal_def goal_op_def result_simps Let_def)
  show "store' g = store g" if "g \<noteq> gid" for g using that by (simp add: store')
  note built = build_event_Inr [OF e]
  obtain by_id where by_id: "read_stories raws [] = Inr by_id" "unknown_free by_id" "acyclic (needs by_id)" "raws \<noteq> []"
    and ss: "ss = initial_stories by_id"
    using graph unfolding validate_story_graph_Inr by blast
  have fresh: "distinct (map fst by_id)" "\<forall>(k, s) \<in> set by_id. fresh_story k s" "by_id \<noteq> []"
    using read_stories_Inr [OF by_id(1)] by_id(4) by auto
  have inv: "stories_inv ss" unfolding ss by (rule initial_stories_inv [OF fresh(3,1,2) by_id(2,3)])
  have keyed: "\<forall>(k, s) \<in> set ss. st_id s = k" and bare: "\<forall>st \<in> set (map snd ss). st_evidence st = []"
    using fresh(2) by (auto simp: ss initial_stories_def fresh_story_def)
  then have dict: "foldl put_story [] (map snd ss) = ss"
    using foldl_put_story [of "[]" ss] inv by (simp add: stories_inv_def)
  let ?s = "\<lparr>sn_goal_id = gid, sn_title = strip (or_name title gid), sn_objective = strip (or_name objective []),
         sn_status = Active, sn_verified = False, sn_stories = ss, sn_linked_runs = [], sn_spec_hash = spec_hash,
         sn_plan_hash = plan_hash, sn_tail_sequence = 0, sn_tail_hash = GENESIS_HASH, sn_revision = 0, sn_created_at = e_ts e,
         sn_updated_at = e_ts e, sn_blocker = None, sn_created_by = Some (gc_invocation c), sn_verified_run = None,
         sn_verified_at = None\<rparr>"
  have "e_invocation e = Some (gc_invocation c)" "e_ts e \<noteq> []"
    using built now by (auto split: list.splits)
  then have "\<exists>r. rebuild_snapshot_from_events gid t [e] = Inr r \<and> view r = view (stamp_snapshot e ?s)" for t
    using built dict by (simp add: rebuild_snapshot_from_events_def created_snapshot_def Let_def view_def stamp_snapshot_def)
  moreover have "goal_inv (stamp_snapshot e ?s)" unfolding stamp_fields(1) using inv by (simp add: goal_inv_def)
  moreover have "snapshot_matches (stamp_snapshot e ?s) [e]" by (simp add: snapshot_matches_def stamp_snapshot_def)
  moreover have keys: "map st_id (map snd ss) = map fst ss" using keyed by (induction ss) auto
  have "distinct (map st_id (map snd ss))" unfolding keys using inv by (simp add: stories_inv_def)
  then have "fresh_start [e]" using built bare by (simp add: fresh_start_def)
  ultimately show "files_inv gid (store' gid)"
    unfolding files_inv_def store' append_event_and_snapshot_def append_line_def using built
    by (intro exI [of _ "stamp_snapshot e ?s"] exI [of _ "[e]"]) simp
qed

section \<open>Repair\<close>

definition no_evidence :: "snapshot \<Rightarrow> bool" where
  "no_evidence s \<longleftrightarrow> (\<forall>(k, st) \<in> set (sn_stories s). st_evidence st = [])"

lemma no_evidence_view: "view r = view s \<Longrightarrow> no_evidence r = no_evidence s"
proof -
  have "no_evidence s \<longleftrightarrow> (\<forall>(k, st) \<in> set (sn_stories (view s)). st_evidence st = [])" for s
    by (auto simp: no_evidence_def view_def stories_view_def story_view_def)
  then show "view r = view s \<Longrightarrow> no_evidence r = no_evidence s" by simp
qed

lemma share_no_evidence:
  "\<forall>st \<in> set ss. st_evidence st = [] \<Longrightarrow> \<forall>(k, st) \<in> set stories. st_evidence st = [] \<Longrightarrow> share_evidence stories ss = ss"
proof (induction ss)
  case (Cons s ss)
  have "s\<lparr>st_evidence := st_evidence t\<rparr> = s" if "map_of stories k = Some t" for k t
    using Cons.prems map_of_SomeD [OF that] by (cases s) auto
  then show ?case using Cons by (auto split: option.splits)
qed simp

lemma after_replay_no_evidence: "fresh_start events \<Longrightarrow> events \<noteq> [] \<Longrightarrow> no_evidence s \<Longrightarrow> after_replay events s = events"
proof -
  assume start: "fresh_start events" "events \<noteq> []" and s: "no_evidence s"
  obtain e es where events: "events = e # es" using start(2) by (cases events) auto
  obtain t ob sh ph ss where body: "e_body e = GoalCreated t ob sh ph ss" and bare: "\<forall>st \<in> set ss. st_evidence st = []"
    using start(1) by (auto simp: fresh_start_def events)
  have "share_evidence (sn_stories s) ss = ss" using share_no_evidence [OF bare] s by (simp add: no_evidence_def)
  then have "e\<lparr>e_body := GoalCreated t ob sh ph (share_evidence (sn_stories s) ss)\<rparr> = e" using body by (cases e) simp
  then show ?thesis by (simp add: events after_replay_def body)
qed

definition torn :: "ledger_line \<Rightarrow> goal_files \<Rightarrow> goal_files" where
  \<comment> \<open>the crash within the first write of an operation: a part of its line is in the ledger\<close>
  "torn line files = files\<lparr>g_ledger := Some ((case g_ledger files of None \<Rightarrow> [] | Some ls \<Rightarrow> ls) @ [line])\<rparr>"

lemma diagnose_torn:
  assumes "files_inv gid files" "line \<in> {BlankLine, BadLine}"
  obtains s events d where "g_snapshot files = Snapshot s" "g_ledger files = Some (map EventLine events)"
    "scan_ledger (g_ledger (torn line files)) = (events, d)" "eligible d" "\<not> healthy d"
    "diagnose_repair (torn line files) = Inr (events, d)"
proof -
  obtain s events where f: "g_snapshot files = Snapshot s" "g_ledger files = Some (map EventLine events)"
    "linked GENESIS_HASH 1 events" using assms(1) by (auto simp: files_inv_def)
  define d where "d = (if line = BlankLine then TruncatedTail else InvalidFinalJson)"
  have "scan_lines [] GENESIS_HASH 1 (map EventLine events @ [line]) = (events, d)"
    using assms(2) by (auto simp: scan_linked [OF f(3)] d_def)
  then have scan: "scan_ledger (g_ledger (torn line files)) = (events, d)"
    by (simp add: scan_ledger_def torn_def f)
  have d: "eligible d" "\<not> healthy d" by (auto simp: d_def eligible_def healthy_def)
  have "diagnose_repair (torn line files) = Inr (events, d)"
    using scan d f(1) by (simp add: diagnose_repair_def read_snapshot_def) (simp add: torn_def)
  then show ?thesis using that f(1,2) scan d by blast
qed

lemma repair_torn_runs:
  assumes inv: "files_inv gid files" and line: "line \<in> {BlankLine, BadLine}"
  obtains s events r e name where "g_snapshot files = Snapshot s" "g_ledger files = Some (map EventLine events)" "events \<noteq> []"
    "linked GENESIS_HASH 1 events" "goal_inv s" "sn_goal_id s = gid" "fresh_start events"
    "\<And>t. \<exists>r. rebuild_snapshot_from_events gid t events = Inr r \<and> view r = view s"
    "rebuild_snapshot_from_events gid (gc_ts (rc_call rc)) events = Inr r" "view r = view s"
    "linked (e_hash (last events)) (e_sequence (last events) + 1) [e]" "e_ts e = gc_ts (rc_call rc)"
    "event_type (e_body e) = ''ledger_repaired''" "\<And>t s. replay_body t (e_body e) s = Inr s"
    "repair_goal rc gid False True (torn line files) = (Inr ''repaired'',
      append_event_and_snapshot (files\<lparr>g_ledger := Some (map EventLine (after_replay events r)),
        g_backups := g_backups files @ [(name, map EventLine events @ [line])]\<rparr>) r e)"
proof -
  obtain s events d where f: "g_snapshot files = Snapshot s" "g_ledger files = Some (map EventLine events)"
    and d: "eligible d" "\<not> healthy d" and diagnosed: "diagnose_repair (torn line files) = Inr (events, d)"
    by (rule diagnose_torn [OF inv line])
  obtain s' events' where f': "g_snapshot files = Snapshot s'" "g_ledger files = Some (map EventLine events')" "events' \<noteq> []"
    "linked GENESIS_HASH 1 events'" "goal_inv s'" "sn_goal_id s' = gid" "fresh_start events'"
    and replay: "\<And>t. \<exists>r. rebuild_snapshot_from_events gid t events' = Inr r \<and> view r = view s'"
    using inv unfolding files_inv_def by blast
  have "s' = s" "events' = events" using f f'(1,2) by (simp_all add: inj_map_eq_map inj_def)
  note f' = f'(3-7) [unfolded this] and replay = replay [unfolded this]
  let ?lines = "map EventLine events @ [line]" and ?c = "rc_call rc"
  let ?sha = "rc_sha rc ?lines" and ?last = "last events"
  obtain r where r: "rebuild_snapshot_from_events gid (gc_ts ?c) events = Inr r" "view r = view s" using replay by blast
  let ?body = "LedgerRepaired ?sha (rc_backup rc gid ?sha) ?sha (e_sequence ?last) (e_hash ?last) (rc_reason rc d) (rc_kind rc d)"
  obtain e where built: "build_event (e_sequence ?last + 1) (e_hash ?last) ?body gid (gc_ts ?c) (Some (gc_invocation ?c)) = Inr e"
    by (simp add: build_event_def EVENT_TYPES_def Let_def)
  note ev = build_event_Inr [OF built]
  let ?saved = "(torn line files)\<lparr>g_backups := g_backups files @ [(rc_backup rc gid ?sha, ?lines)]\<rparr>"
  let ?files' = "append_event_and_snapshot (?saved\<lparr>g_ledger := Some (map EventLine (after_replay events r))\<rparr>) r e"
  have ledger: "g_ledger (torn line files) = Some ?lines" "g_backups (torn line files) = g_backups files"
    by (simp_all add: torn_def f)
  have "cut_and_record rc gid events d ?saved = Inr ?files'"
    using r(1) built f'(1) ledger(1) by (simp add: cut_and_record_def Let_def prefix_link_def)
  then have "repair_goal rc gid False True (torn line files) = (Inr ''repaired'', ?files')"
    using diagnosed d ledger by (simp add: repair_goal_def Let_def)
  moreover have "?saved\<lparr>g_ledger := l\<rparr> = files\<lparr>g_ledger := l, g_backups := g_backups files @ [(rc_backup rc gid ?sha, ?lines)]\<rparr>" for l
    by (simp add: torn_def)
  ultimately have repaired: "repair_goal rc gid False True (torn line files) = (Inr ''repaired'',
      append_event_and_snapshot (files\<lparr>g_ledger := Some (map EventLine (after_replay events r)),
        g_backups := g_backups files @ [(rc_backup rc gid ?sha, ?lines)]\<rparr>) r e)" by simp
  have "event_type (e_body e) = ''ledger_repaired''" "replay_body t (e_body e) s = Inr s" for t s using ev by simp_all
  with repaired show ?thesis using that [OF f f' replay r] ev by blast
qed

lemma repair_torn:
  assumes inv: "files_inv gid files" and line: "line \<in> {BlankLine, BadLine}"
    and now: "gc_ts (rc_call rc) \<noteq> []" and bare: "\<And>s. g_snapshot files = Snapshot s \<Longrightarrow> no_evidence s"
  shows "\<exists>files' name. repair_goal rc gid False True (torn line files) = (Inr ''repaired'', files') \<and> files_inv gid files'
    \<and> (\<exists>s events e r. g_snapshot files = Snapshot s \<and> g_ledger files = Some (map EventLine events) \<and> view r = view s
         \<and> g_ledger files' = Some (map EventLine (events @ [e])) \<and> g_snapshot files' = Snapshot (stamp_snapshot e r)
         \<and> event_type (e_body e) = ''ledger_repaired''
         \<and> g_backups files' = g_backups files @ [(name, map EventLine events @ [line])])"
proof -
  obtain s events r e name where f: "g_snapshot files = Snapshot s" "g_ledger files = Some (map EventLine events)" "events \<noteq> []"
    "linked GENESIS_HASH 1 events" "goal_inv s" "sn_goal_id s = gid" "fresh_start events"
    and replay: "\<And>t. \<exists>r. rebuild_snapshot_from_events gid t events = Inr r \<and> view r = view s" and r: "view r = view s"
    and e: "linked (e_hash (last events)) (e_sequence (last events) + 1) [e]" "e_ts e = gc_ts (rc_call rc)"
      "event_type (e_body e) = ''ledger_repaired''" "\<And>t s. replay_body t (e_body e) s = Inr s"
    and repaired: "repair_goal rc gid False True (torn line files) = (Inr ''repaired'',
      append_event_and_snapshot (files\<lparr>g_ledger := Some (map EventLine (after_replay events r)),
        g_backups := g_backups files @ [(name, map EventLine events @ [line])]\<rparr>) r e)"
    by (rule repair_torn_runs [OF inv line, of rc]) blast
  let ?cut = "files\<lparr>g_ledger := Some (map EventLine events), g_backups := g_backups files @ [(name, map EventLine events @ [line])]\<rparr>"
  have kept: "after_replay events r = events"
    using after_replay_no_evidence [OF f(7,3)] no_evidence_view [OF r] bare [OF f(1)] by simp
  have r_inv: "goal_inv r" "sn_goal_id r = gid" using goal_inv_same_view [OF r] f(5,6) by simp_all
  have "files_inv gid (append_event_and_snapshot ?cut r e)"
  proof (rule appended_inv [OF f(4,3) e(1)])
    show "goal_inv r" "sn_goal_id r = gid" "fresh_start events" by (fact r_inv f(7))+
    show "e_ts e \<noteq> []" using e(2) now by simp
    show "\<exists>q r'. rebuild_snapshot_from_events gid t events = Inr q \<and> view q = view r
        \<and> replay_body (e_ts e) (e_body e) r = Inr r' \<and> view r' = view r" for t
      using replay [of t] r e(4) by auto
  qed simp
  then show ?thesis
    using repaired [unfolded kept] f(1,2) r e(3)
    by (intro exI [of _ "append_event_and_snapshot ?cut r e"] exI [of _ name] conjI exI [of _ s] exI [of _ events] exI [of _ e]
      exI [of _ r]) (simp_all add: append_event_and_snapshot_def append_line_def)
qed

section \<open>Reachable stores\<close>

inductive goal_step :: "goal_call \<Rightarrow> goal_store \<Rightarrow> goal_store \<Rightarrow> bool" for c where
  \<comment> \<open>an operation that succeeds, on any goal\<close>
  step_init: "init_goal c g raws title sh ph ob store = Inr store' \<Longrightarrow> goal_step c store store'"
| step_link: "link_run c g rid load_run store = Inr store' \<Longrightarrow> goal_step c store store'"
| step_start: "start_story c g sid store = Inr store' \<Longrightarrow> goal_step c store store'"
| step_checkpoint: "checkpoint c g sid evidence message store = Inr store' \<Longrightarrow> goal_step c store store'"
| step_block: "block_story c g sid reason next_step store = Inr store' \<Longrightarrow> goal_step c store store'"
| step_resume: "resume_story c g sid store = Inr store' \<Longrightarrow> goal_step c store store'"
| step_complete: "complete_story c g sid store = Inr store' \<Longrightarrow> goal_step c store store'"
| step_import: "import_proposal_event c g proposal expected remark store = Inr store' \<Longrightarrow> goal_step c store store'"
| step_verify: "verify_goal c g run_id load_run store = Inr store' \<Longrightarrow> goal_step c store store'"

inductive goal_reach :: "string \<Rightarrow> goal_store \<Rightarrow> bool" for gid where
  \<comment> \<open>the goal is created in any store; the CLI's clock and invocation identifier are never empty;
    a torn line is repaired as long as there is no evidence\<close>
  goal_created: "init_goal c g raws title sh ph ob store = Inr store' \<Longrightarrow> validate_identifier g = Inr gid \<Longrightarrow>
     gc_ts c \<noteq> [] \<Longrightarrow> gc_invocation c \<noteq> [] \<Longrightarrow> goal_reach gid store'"
| goal_next: "goal_reach gid store \<Longrightarrow> goal_step c store store' \<Longrightarrow> gc_ts c \<noteq> [] \<Longrightarrow> goal_reach gid store'"
| goal_mended: "goal_reach gid store \<Longrightarrow> line \<in> {BlankLine, BadLine} \<Longrightarrow> gc_ts (rc_call rc) \<noteq> [] \<Longrightarrow>
     g_snapshot (store gid) = Snapshot s \<Longrightarrow> no_evidence s \<Longrightarrow>
     repair_goal rc gid False True (torn line (store gid)) = (action, files') \<Longrightarrow> goal_reach gid (store(gid := files'))"

lemma init_goal_keeps: "keeps_goals (init_goal c goal_id raws title sh ph ob)"
  unfolding init_goal_def
  by (rule keeps_goals_op) (auto simp: result_simps files_inv_def)

lemma keeps_goalsD: "keeps_goals op \<Longrightarrow> op store = Inr store' \<Longrightarrow> files_inv gid (store gid) \<Longrightarrow> files_inv gid (store' gid)"
  by (auto simp: keeps_goals_def)

lemma goal_step_keeps:
  assumes "goal_step c store store'" "gc_ts c \<noteq> []" "files_inv gid (store gid)"
  shows "files_inv gid (store' gid)"
  using assms(1)
proof cases
  case step_init
  then show ?thesis by (rule keeps_goalsD [OF init_goal_keeps]) (rule assms(3))
next
  case step_link
  then show ?thesis by (rule keeps_goalsD [OF link_run_keeps [OF assms(2)]]) (rule assms(3))
next
  case step_start
  then show ?thesis by (rule keeps_goalsD [OF story_ops_keep(1) [OF assms(2)]]) (rule assms(3))
next
  case step_checkpoint
  then show ?thesis by (rule keeps_goalsD [OF story_ops_keep(4) [OF assms(2)]]) (rule assms(3))
next
  case step_block
  then show ?thesis by (rule keeps_goalsD [OF story_ops_keep(5) [OF assms(2)]]) (rule assms(3))
next
  case step_resume
  then show ?thesis by (rule keeps_goalsD [OF story_ops_keep(2) [OF assms(2)]]) (rule assms(3))
next
  case step_complete
  then show ?thesis by (rule keeps_goalsD [OF story_ops_keep(3) [OF assms(2)]]) (rule assms(3))
next
  case step_import
  then show ?thesis by (rule keeps_goalsD [OF goal_ops_keep(1) [OF assms(2)]]) (rule assms(3))
next
  case step_verify
  then show ?thesis by (rule keeps_goalsD [OF goal_ops_keep(2) [OF assms(2)]]) (rule assms(3))
qed

lemma goal_reach_inv: "goal_reach gid store \<Longrightarrow> files_inv gid (store gid)"
proof (induction rule: goal_reach.induct)
  case (goal_created c g raws title sh ph ob store store')
  then show ?case by (rule init_goal_files(1))
next
  case (goal_next store c store')
  from goal_step_keeps [OF goal_next(2,3,4)] show ?case .
next
  case (goal_mended store line rc s action files')
  from repair_torn [OF goal_mended(7,2,3)] goal_mended(4,5,6) show ?case by auto
qed

lemma goal_reach_load:
  assumes "goal_reach gid store"
  obtains s events where "load_consistent (store gid) = Inr (s, events)" "events \<noteq> []" "goal_inv s" "sn_goal_id s = gid"
    "g_snapshot (store gid) = Snapshot s" "g_ledger (store gid) = Some (map EventLine events)" "linked GENESIS_HASH 1 events"
    "snapshot_matches s events" "fresh_start events" "\<And>now. \<exists>r. rebuild_snapshot_from_events gid now events = Inr r \<and> view r = view s"
proof -
  have "files_inv gid (store gid)" by (rule goal_reach_inv [OF assms])
  then obtain s events where f: "g_snapshot (store gid) = Snapshot s" "g_ledger (store gid) = Some (map EventLine events)" "events \<noteq> []"
    "linked GENESIS_HASH 1 events" "snapshot_matches s events" "goal_inv s" "sn_goal_id s = gid" "fresh_start events"
    and r: "\<forall>now. \<exists>r. rebuild_snapshot_from_events gid now events = Inr r \<and> view r = view s"
    unfolding files_inv_def by blast
  show thesis by (rule that [OF load_valid [OF f(1-5)] f(3,6,7,1,2,4,5,8)]) (use r in blast)
qed

section \<open>What a step does to the files\<close>

definition extends :: "goal_files \<Rightarrow> goal_files \<Rightarrow> bool" where
  \<comment> \<open>nothing, or one event and the snapshot it stamps\<close>
  "extends files files' \<longleftrightarrow> files' = files \<or> (\<exists>s e. files' = append_event_and_snapshot files s e)"

lemma commit_extends: "commit c gid or_genesis change files = Inr files' \<Longrightarrow> extends files files'"
  unfolding commit_def bindE_eq_Inr by (elim exE conjE) (auto simp: extends_def result_simps split: option.splits prod.splits)

lemma goal_op_extends:
  assumes "\<And>g files files'. f g files = Inr files' \<Longrightarrow> g_ledger files \<noteq> None \<Longrightarrow> extends files files'"
    and "goal_op c goal_id f store = Inr store'" "g_ledger (store gid) \<noteq> None"
  shows "extends (store gid) (store' gid)"
  using assms by (auto simp: goal_op_def result_simps) (auto simp: extends_def)

lemma story_op_extends:
  "story_op c g sid change_of store = Inr store' \<Longrightarrow> g_ledger (store gid) \<noteq> None \<Longrightarrow> extends (store gid) (store' gid)"
  unfolding story_op_def by (erule goal_op_extends [rotated]) (auto simp: result_simps dest: commit_extends)

lemma goal_step_extends:
  assumes "goal_step c store store'" "g_ledger (store gid) \<noteq> None"
  shows "extends (store gid) (store' gid)"
  using assms(1)
proof cases
  case step_init
  then show ?thesis
    unfolding init_goal_def by (rule goal_op_extends [where store = store and gid = gid, rotated, OF _ assms(2)]) (auto simp: result_simps)
next
  case step_link
  then show ?thesis
    unfolding link_run_def
    by (rule goal_op_extends [where store = store and gid = gid, rotated, OF _ assms(2)]) (auto simp: result_simps dest: commit_extends split: option.splits)
next
  case step_import
  then show ?thesis
    unfolding import_proposal_event_def
    by (rule goal_op_extends [where store = store and gid = gid, rotated, OF _ assms(2)]) (auto simp: result_simps dest: commit_extends split: option.splits)
next
  case step_verify
  then show ?thesis
    unfolding verify_goal_def by (rule goal_op_extends [where store = store and gid = gid, rotated, OF _ assms(2)]) (auto dest: commit_extends)
qed (simp_all add: start_story_def checkpoint_def block_story_def resume_story_def complete_story_def
    story_op_extends [where store = store and gid = gid, OF _ assms(2)])

lemma reach_commit:
  \<comment> \<open>an operation that commits: what it loaded, and what the next one loads\<close>
  assumes "goal_reach gid store" "files_inv gid files'" "commit c gid og change (store gid) = Inr files'"
  obtains s events where "load_consistent (store gid) = Inr (s, events)" "change s = Inr None" "files' = store gid"
  | s events body s' e where "load_consistent (store gid) = Inr (s, events)" "change s = Inr (Some (body, s'))"
      "load_consistent files' = Inr (stamp_snapshot e s', events @ [e])"
proof -
  obtain s events where load: "load_consistent (store gid) = Inr (s, events)" and ledger: "g_ledger (store gid) = Some (map EventLine events)"
    by (rule goal_reach_load [OF assms(1)]) blast
  show ?thesis
  proof (cases "change s")
    case (Inl e)
    then show ?thesis using assms(3) load by (simp add: commit_def)
  next
    case (Inr r)
    show ?thesis
    proof (cases r)
      case None
      then have "files' = store gid" using assms(3) load Inr by (simp add: commit_def)
      then show ?thesis using that(1) [OF load] Inr None by blast
    next
      case (Some p)
      obtain body s' where p: "p = (body, s')" by fastforce
      then obtain e where files': "files' = append_event_and_snapshot (store gid) s' e"
        using assms(3) Inr Some unfolding commit_def load by (auto simp: bindE_eq_Inr)
      obtain t events' where f': "g_snapshot files' = Snapshot t" "g_ledger files' = Some (map EventLine events')" "events' \<noteq> []"
        "linked GENESIS_HASH 1 events'" "snapshot_matches t events'" using assms(2) by (auto simp: files_inv_def)
      have "map EventLine events' = map EventLine (events @ [e])" "t = stamp_snapshot e s'"
        using f'(1,2) ledger by (simp_all add: files' append_event_and_snapshot_def append_line_def)
      moreover have "inj EventLine" by (simp add: inj_def)
      ultimately have "events' = events @ [e]" "t = stamp_snapshot e s'" using inj_map_eq_map by blast+
      then have "load_consistent files' = Inr (stamp_snapshot e s', events @ [e])"
        using load_valid [OF f'] by blast
      then show ?thesis using that(2) load Inr Some p by blast
    qed
  qed
qed

end
