(* ===== verification/GoalSafety.thy ===== *)
theory GoalSafety
  imports GoalReachable
begin

text \<open>
  The properties of goals: the snapshot agrees with the replay of the ledger, stories run in the order of
  their dependencies, a torn write is repaired and a missing snapshot write is not, and resuming a story
  can raise.
\<close>

section \<open>Running an operation\<close>

definition status_at :: "snapshot \<Rightarrow> string \<Rightarrow> story_status option" where
  "status_at s k = map_option st_status (map_of (sn_stories s) k)"

lemma status_at_stamp [simp]: "status_at (stamp_snapshot e s) = status_at s"
  by (rule ext) (simp add: status_at_def stamp_snapshot_def)

lemma stamp_snapshot_fields [simp]:
  "sn_stories (stamp_snapshot e s) = sn_stories s" "sn_blocker (stamp_snapshot e s) = sn_blocker s"
  "sn_status (stamp_snapshot e s) = sn_status s" "sn_linked_runs (stamp_snapshot e s) = sn_linked_runs s"
  by (simp_all add: stamp_snapshot_def)




section \<open>A goal to apply the theorems to\<close>

definition demo_call :: goal_call where
  "demo_call = \<lparr>gc_safe = True, gc_ts = ''t'', gc_at = ''t'', gc_invocation = ''i''\<rparr>"

definition demo_story :: "string \<Rightarrow> string list \<Rightarrow> json" where
  "demo_story sid ds = JObj [(''id'', JStr sid), (''acceptance'', JStr ''tests pass''), (''depends_on'', JList (map JStr ds))]"

definition demo_files :: goal_store where
  "demo_files gid = \<lparr>g_snapshot = NoSnapshot, g_ledger = None, g_backups = []\<rparr>"

definition demo_goal :: goal_store where
  \<comment> \<open>three stories, the last after the first two\<close>
  "demo_goal = (case init_goal demo_call ''g'' [demo_story ''a'' [], demo_story ''b'' [], demo_story ''c'' [''a'', ''b'']]
       None None None None demo_files of Inr store \<Rightarrow> store | Inl e \<Rightarrow> demo_files)"

lemma goal_demo_graph: "validate_story_graph [demo_story ''a'' [], demo_story ''b'' [], demo_story ''c'' [''a'', ''b'']]
  = Inr [(''a'', \<lparr>st_id = ''a'', st_title = ''a'', st_depends_on = [], st_acceptance = ''tests pass'', st_status = Ready,
      st_block_reason = None, st_next_action = None, st_evidence = [], st_checkpoints = 0\<rparr>),
    (''b'', \<lparr>st_id = ''b'', st_title = ''b'', st_depends_on = [], st_acceptance = ''tests pass'', st_status = Ready,
      st_block_reason = None, st_next_action = None, st_evidence = [], st_checkpoints = 0\<rparr>),
    (''c'', \<lparr>st_id = ''c'', st_title = ''c'', st_depends_on = [''a'', ''b''], st_acceptance = ''tests pass'', st_status = Pending,
      st_block_reason = None, st_next_action = None, st_evidence = [], st_checkpoints = 0\<rparr>)]"
  by code_simp

lemma goal_demo_run: "\<exists>s e. demo_goal = demo_files(''g'' := append_event_and_snapshot ((demo_files ''g'')\<lparr>g_ledger := Some []\<rparr>) s e)
    \<and> sn_linked_runs s = [] \<and> status_at s ''a'' = Some Ready \<and> status_at s ''b'' = Some Ready \<and> no_evidence s \<and> goal_reach ''g'' demo_goal
    \<and> (\<exists>ss. e_body e = GoalCreated ''g'' [] None None ss)"
proof -
  have gid: "validate_identifier ''g'' = Inr ''g''" by code_simp
  have strips: "strip ''g'' = ''g''" "strip [] = []" by code_simp+
  obtain s e where run: "init_goal demo_call ''g'' [demo_story ''a'' [], demo_story ''b'' [], demo_story ''c'' [''a'', ''b'']]
       None None None None demo_files = Inr (demo_files(''g'' := append_event_and_snapshot ((demo_files ''g'')\<lparr>g_ledger := Some []\<rparr>) s e))"
    and s: "sn_linked_runs s = [] \<and> status_at s ''a'' = Some Ready \<and> status_at s ''b'' = Some Ready \<and> no_evidence s
      \<and> (\<exists>ss. e_body e = GoalCreated ''g'' [] None None ss)"
    by (simp add: init_goal_def goal_op_def gid goal_demo_graph demo_call_def demo_files_def build_event_def EVENT_TYPES_def
        or_name_def strips Let_def status_at_def no_evidence_def)
  then have "demo_goal = demo_files(''g'' := append_event_and_snapshot ((demo_files ''g'')\<lparr>g_ledger := Some []\<rparr>) s e)"
    by (simp add: demo_goal_def)
  then show ?thesis using goal_created [OF run gid] s by (auto simp: demo_call_def)
qed

lemma goal_demo_reach: "goal_reach ''g'' demo_goal"
  using goal_demo_run by blast



lemma goal_demo_call_fields [simp]: "gc_safe demo_call" "gc_ts demo_call = ''t''"
  by (simp_all add: demo_call_def)

section \<open>Replay\<close>



section \<open>The order of the stories\<close>

lemma some_story_ready:
  \<comment> \<open>a story all of whose open dependencies are complete exists among the stories that are not complete\<close>
  assumes inv: "stories_inv ss" and st: "map_of ss k = Some st" "st_status st \<noteq> Complete"
    and idle: "\<And>k st. map_of ss k = Some st \<Longrightarrow> st_status st \<in> {Pending, Ready, Complete}"
  shows "\<exists>k st. map_of ss k = Some st \<and> st_status st = Ready"
proof -
  have "needs ss \<subseteq> set (map fst ss) \<times> set (map fst ss)"
    using stories_invD(2) [OF inv] by (auto simp: needs_def dest: map_of_SomeD) (auto dest!: map_of_SomeD intro: rev_image_eqI)
  then have "finite (needs ss)" by (rule finite_subset) simp
  then have wf: "wf (needs ss)" using inv by (intro finite_acyclic_wf) (auto simp: stories_inv_def)
  let ?open = "{k. \<exists>st. map_of ss k = Some st \<and> st_status st \<noteq> Complete}"
  have "k \<in> ?open" using st by blast
  with wf obtain m where m: "m \<in> ?open" "\<And>d. (d, m) \<in> needs ss \<Longrightarrow> d \<notin> ?open" by (rule wfE_min) blast
  then obtain s where s: "map_of ss m = Some s" "st_status s \<noteq> Complete" by blast
  have "deps_done (completed ss) s"
    unfolding deps_done_def
  proof
    fix d assume d: "d \<in> set (st_depends_on s)"
    then obtain t where "map_of ss d = Some t"
      using stories_invD(2) [OF inv s(1)] map_of_eq_None_iff [of ss d] by auto
    moreover have "(d, m) \<in> needs ss" using s(1) d by (auto simp: needs_def)
    ultimately show "completed ss d" using m(2) [of d] by (auto simp: completed_def)
  qed
  then have "st_status s = Ready"
    using idle [OF s(1)] s(2) stories_invD(3) [OF inv s(1)] by (auto simp: story_ok_def)
  then show ?thesis using s(1) by blast
qed

text \<open>C13: Stories run in the order of their dependencies and finish with evidence.  In every reachable goal a story that has been
  started, blocked or completed has only complete dependencies, and the recorded status of a story that has
  not been started says whether they are; a complete story has evidence; a goal that is complete or verified has
  only complete stories, and a verified one names a linked run; and as long as a story is open and none is running or
  blocked, some story can be started, so that a goal never gets stuck.\<close>
theorem goal_stories_in_order:
  assumes "goal_reach gid store"
  shows "\<exists>s events. load_consistent (store gid) = Inr (s, events)
    \<and> (\<forall>k st. map_of (sn_stories s) k = Some st \<longrightarrow>
        (st_status st \<noteq> Pending \<longleftrightarrow> (\<forall>d \<in> set (st_depends_on st). \<exists>t. map_of (sn_stories s) d = Some t \<and> st_status t = Complete))
        \<and> (st_status st = Complete \<longrightarrow> st_evidence st \<noteq> []))
    \<and> (sn_status s \<in> {GoalComplete, GoalIsVerified} \<longrightarrow> (\<forall>k st. map_of (sn_stories s) k = Some st \<longrightarrow> st_status st = Complete))
    \<and> (sn_verified s \<longleftrightarrow> sn_status s = GoalIsVerified)
    \<and> (sn_verified s \<longrightarrow> (\<exists>rid \<in> set (sn_linked_runs s). sn_verified_run s = Some rid))
    \<and> ((\<exists>k st. map_of (sn_stories s) k = Some st \<and> st_status st \<noteq> Complete) \<and>
        (\<forall>k st. map_of (sn_stories s) k = Some st \<longrightarrow> st_status st \<notin> {InProgress, Blocked}) \<longrightarrow>
        (\<exists>k st. map_of (sn_stories s) k = Some st \<and> st_status st = Ready))"
proof -
  obtain s events where load: "load_consistent (store gid) = Inr (s, events)" and inv: "goal_inv s"
    using goal_reach_load [OF assms] by metis
  have sinv: "stories_inv (sn_stories s)" using inv by (simp add: goal_inv_def)
  have own: "(st_status st \<noteq> Pending \<longleftrightarrow> (\<forall>d \<in> set (st_depends_on st). \<exists>t. map_of (sn_stories s) d = Some t \<and> st_status t = Complete))
      \<and> (st_status st = Complete \<longrightarrow> st_evidence st \<noteq> [])" if "map_of (sn_stories s) k = Some st" for k st
    using stories_invD(3) [OF sinv that] by (auto simp: story_ok_def deps_done_def completed_def split: if_splits)
  have busy: "\<exists>k st. map_of (sn_stories s) k = Some st \<and> st_status st = Ready"
    if "map_of (sn_stories s) k = Some st" "st_status st \<noteq> Complete"
      "\<forall>k st. map_of (sn_stories s) k = Some st \<longrightarrow> st_status st \<notin> {InProgress, Blocked}" for k st
    using that story_status.exhaust by (intro some_story_ready [OF sinv]) blast+
  show ?thesis
    using own inv busy all_complete_iff [OF sinv] unfolding goal_inv_def
    by (intro exI [of _ s] exI [of _ events] conjI) (rule load | blast)+
qed

lemma goal_stories_in_order_witness: "\<exists>s events. load_consistent (demo_goal ''g'') = Inr (s, events)
    \<and> (sn_verified s \<longleftrightarrow> sn_status s = GoalIsVerified)"
  using goal_stories_in_order [OF goal_demo_reach] by blast

section \<open>Crashes\<close>








section \<open>Resuming a story\<close>







end
