(* ===== verification/GoalTamper.thy ===== *)
theory GoalTamper
  imports GoalSafety CanonicalJsonFacts
begin

text \<open>
  The ledger of a goal as a hash chain: the last hash of a valid ledger fixes every event in it, unless two
  of the events collide under SHA-256; and the repair of a goal with evidence breaks its chain.
\<close>

section \<open>The hashed document of an event\<close>




lemma opt_str_plain [simp]: "distinct_keys (opt_str v)" "canonical_ok (opt_str v)"
  by (cases v; simp add: opt_str_def)+




section \<open>The chain\<close>


lemma utf8_append: "utf8 (s @ t) = utf8 s @ utf8 t"
  by (simp add: utf8_def)










section \<open>The repair of a goal with evidence\<close>













end
