(* ===== verification/HashText.thy ===== *)
theory HashText
  imports CanonicalJson
begin

text \<open>
  Unicode text as the list of its code points, and UTF-8 in full: the bytes of a file that the planner
  edits (\<open>hash_edit/planner.py\<close>) may hold any code point, whereas the texts of a descriptor are
  strings of the model.  \<open>decode_text\<close> is the strict decoder of Python: no overlong forms, no surrogates,
  nothing above \<open>10FFFF\<close>.
\<close>

type_synonym chars = "nat list"

definition chars_of :: "string \<Rightarrow> chars" where
  "chars_of s = map code_point s"

definition scalar :: "nat \<Rightarrow> bool" where
  "scalar n \<longleftrightarrow> n < 1114112 \<and> \<not> (55296 \<le> n \<and> n < 57344)"

definition encode_char :: "nat \<Rightarrow> bytes" where
  "encode_char n =
     (if n < 128 then [of_nat n]
      else if n < 2048 then [of_nat (192 + n div 64), of_nat (128 + n mod 64)]
      else if n < 65536 then [of_nat (224 + n div 4096), of_nat (128 + n div 64 mod 64), of_nat (128 + n mod 64)]
      else [of_nat (240 + n div 262144), of_nat (128 + n div 4096 mod 64), of_nat (128 + n div 64 mod 64),
        of_nat (128 + n mod 64)])"

definition encode_text :: "chars \<Rightarrow> bytes" where
  "encode_text t = concat (map encode_char t)"

definition continues :: "8 word \<Rightarrow> bool" where
  "continues b \<longleftrightarrow> 128 \<le> unat b \<and> unat b < 192"

definition six_bits :: "8 word \<Rightarrow> nat" where
  "six_bits b = unat b - 128"

fun decode_text :: "bytes \<Rightarrow> chars option" where
  "decode_text [] = Some []"
| "decode_text (b # bs) =
     (if unat b < 128 then map_option (Cons (unat b)) (decode_text bs)
      else if 194 \<le> unat b \<and> unat b < 224 then
        (case bs of
          b1 # rest \<Rightarrow>
            if continues b1 then map_option (Cons ((unat b - 192) * 64 + six_bits b1)) (decode_text rest) else None
        | _ \<Rightarrow> None)
      else if 224 \<le> unat b \<and> unat b < 240 then
        (case bs of
          b1 # b2 # rest \<Rightarrow>
            let n = (unat b - 224) * 4096 + six_bits b1 * 64 + six_bits b2 in
            if continues b1 \<and> continues b2 \<and> 2048 \<le> n \<and> scalar n then map_option (Cons n) (decode_text rest) else None
        | _ \<Rightarrow> None)
      else if 240 \<le> unat b \<and> unat b < 245 then
        (case bs of
          b1 # b2 # b3 # rest \<Rightarrow>
            let n = (unat b - 240) * 262144 + six_bits b1 * 4096 + six_bits b2 * 64 + six_bits b3 in
            if continues b1 \<and> continues b2 \<and> continues b3 \<and> 65536 \<le> n \<and> scalar n
            then map_option (Cons n) (decode_text rest) else None
        | _ \<Rightarrow> None)
      else None)"

section \<open>Round trips\<close>

lemma div_chain: "(n :: nat) div 64 div 64 = n div 4096" "(n :: nat) div 4096 div 64 = n div 262144"
  by (simp_all add: div_mult2_eq [symmetric])

lemma encode_text_simps [simp]:
  "encode_text [] = []" "encode_text (c # t) = encode_char c @ encode_text t" "encode_text (s @ t) = encode_text s @ encode_text t"
  by (simp_all add: encode_text_def)

lemma six_bits_of [simp]: "m < 64 \<Longrightarrow> six_bits (of_nat (128 + m)) = m" "m < 64 \<Longrightarrow> continues (of_nat (128 + m))"
  by (simp_all add: six_bits_def continues_def unat_of_nat del: of_nat_add)

lemma decode_encode_char: "scalar n \<Longrightarrow> decode_text (encode_char n @ bs) = map_option (Cons n) (decode_text bs)"
proof -
  assume n: "scalar n"
  consider "n < 128" | "128 \<le> n" "n < 2048" | "2048 \<le> n" "n < 65536" | "65536 \<le> n" "n < 1114112"
    using n unfolding scalar_def by linarith
  then show ?thesis
  proof cases
    case 1
    then show ?thesis by (simp add: encode_char_def unat_of_nat)
  next
    case 2
    then have "n div 64 < 32" "2 \<le> n div 64" by simp_all
    then show ?thesis using 2 by (simp add: encode_char_def unat_of_nat del: of_nat_add)
  next
    case 3
    have parts: "n div 4096 * 4096 + n div 64 mod 64 * 64 + n mod 64 = n"
      using div_mult_mod_eq [of n 64] div_mult_mod_eq [of "n div 64" 64] div_chain [of n] by linarith
    have "n div 4096 < 16" using 3 by simp
    then show ?thesis using 3 n parts by (simp add: encode_char_def unat_of_nat Let_def del: of_nat_add)
  next
    case 4
    have parts: "n div 262144 * 262144 + n div 4096 mod 64 * 4096 + n div 64 mod 64 * 64 + n mod 64 = n"
      using div_mult_mod_eq [of n 64] div_mult_mod_eq [of "n div 64" 64] div_mult_mod_eq [of "n div 4096" 64]
      div_chain [of n] by linarith
    have "n div 262144 < 5" using 4 by simp
    then show ?thesis using 4 n parts by (simp add: encode_char_def unat_of_nat Let_def del: of_nat_add)
  qed
qed

lemma decode_encode: "list_all scalar t \<Longrightarrow> decode_text (encode_text t) = Some t"
  by (induction t) (simp_all add: decode_encode_char)

lemma continues_six: "continues b \<Longrightarrow> six_bits b < 64 \<and> unat b = 128 + six_bits b"
  by (auto simp: continues_def six_bits_def)

lemma word_of_parts: "unat b = n \<Longrightarrow> of_nat n = (b :: 8 word)"
  using unsigned_less [of b, where ?'a = nat] by (simp add: word_unat_eq_iff unat_of_nat)

lemma split_64: "z < 64 \<Longrightarrow> (m * 64 + z) div 64 = m \<and> (m * 64 + z) mod 64 = (z :: nat)"
  by simp

lemma encode_two:
  assumes "194 \<le> unat b" "unat b < 224" "continues b1"
  shows "encode_char ((unat b - 192) * 64 + six_bits b1) = [b, b1]" "scalar ((unat b - 192) * 64 + six_bits b1)"
proof -
  define x y where "x = unat b - 192" and "y = six_bits b1"
  have xy: "2 \<le> x" "x < 32" "y < 64" "unat b = 192 + x" "unat b1 = 128 + y"
    using assms continues_six [OF assms(3)] by (auto simp: x_def y_def)
  have "(x * 64 + y) div 64 = x" "(x * 64 + y) mod 64 = y" using xy(3) by simp_all
  moreover have "\<not> x * 64 + y < 128" "x * 64 + y < 2048" using xy(1-3) by linarith+
  ultimately have "encode_char (x * 64 + y) = [of_nat (192 + x), of_nat (128 + y)]" by (simp add: encode_char_def del: of_nat_add)
  then show "encode_char ((unat b - 192) * 64 + six_bits b1) = [b, b1]"
    using word_of_parts [OF xy(4)] word_of_parts [OF xy(5)] by (simp add: x_def [symmetric] y_def [symmetric])
  show "scalar ((unat b - 192) * 64 + six_bits b1)"
    using \<open>x * 64 + y < 2048\<close> by (simp add: scalar_def x_def [symmetric] y_def [symmetric])
qed

lemma encode_three:
  assumes "224 \<le> unat b" "unat b < 240" "continues b1" "continues b2"
    and n: "n = (unat b - 224) * 4096 + six_bits b1 * 64 + six_bits b2" "2048 \<le> n"
  shows "encode_char n = [b, b1, b2]"
proof -
  define x y z where "x = unat b - 224" and "y = six_bits b1" and "z = six_bits b2"
  have xyz: "x < 16" "y < 64" "z < 64" "unat b = 224 + x" "unat b1 = 128 + y" "unat b2 = 128 + z"
    using assms(1,2) continues_six [OF assms(3)] continues_six [OF assms(4)] by (auto simp: x_def y_def z_def)
  have n': "n = (x * 64 + y) * 64 + z" using n(1) by (simp add: x_def y_def z_def)
  have "n div 64 = x * 64 + y" "n mod 64 = z" unfolding n' using split_64 [OF xyz(3)] by blast+
  then have "n div 4096 = x" "n div 64 mod 64 = y" "n mod 64 = z" using xyz(2) div_chain(1) [of n] by simp_all
  moreover have "x * 4096 + y * 64 + z < 65536" using xyz(1-3) by linarith
  then have "n < 65536" by (simp add: n')
  ultimately have "encode_char n = [of_nat (224 + x), of_nat (128 + y), of_nat (128 + z)]"
    using n(2) by (simp add: encode_char_def del: of_nat_add)
  then show ?thesis using word_of_parts [OF xyz(4)] word_of_parts [OF xyz(5)] word_of_parts [OF xyz(6)] by simp
qed

lemma encode_four:
  assumes "240 \<le> unat b" "unat b < 245" "continues b1" "continues b2" "continues b3"
    and n: "n = (unat b - 240) * 262144 + six_bits b1 * 4096 + six_bits b2 * 64 + six_bits b3" "65536 \<le> n"
  shows "encode_char n = [b, b1, b2, b3]"
proof -
  define w x y z where "w = unat b - 240" and "x = six_bits b1" and "y = six_bits b2" and "z = six_bits b3"
  have wxyz: "x < 64" "y < 64" "z < 64" "unat b = 240 + w" "unat b1 = 128 + x" "unat b2 = 128 + y" "unat b3 = 128 + z"
    using assms(1,2) continues_six [OF assms(3)] continues_six [OF assms(4)] continues_six [OF assms(5)]
    by (auto simp: w_def x_def y_def z_def)
  have n': "n = ((w * 64 + x) * 64 + y) * 64 + z" using n(1) by (simp add: w_def x_def y_def z_def)
  have 1: "n div 64 = (w * 64 + x) * 64 + y" "n mod 64 = z" unfolding n' using split_64 [OF wxyz(3)] by blast+
  then have 2: "n div 4096 = w * 64 + x" "n div 64 mod 64 = y"
    using split_64 [OF wxyz(2), of "w * 64 + x"] div_chain(1) [of n] by metis+
  then have "n div 262144 = w" "n div 4096 mod 64 = x" using wxyz(1) div_chain(2) [of n] by simp_all
  then have "encode_char n = [of_nat (240 + w), of_nat (128 + x), of_nat (128 + y), of_nat (128 + z)]"
    using n(2) 1(2) 2(2) by (simp add: encode_char_def del: of_nat_add)
  then show ?thesis
    using word_of_parts [OF wxyz(4)] word_of_parts [OF wxyz(5)] word_of_parts [OF wxyz(6)] word_of_parts [OF wxyz(7)] by simp
qed

lemma encode_one: "unat b < 128 \<Longrightarrow> encode_char (unat b) = [b] \<and> scalar (unat b)"
  using word_of_parts [of b "unat b"] by (simp add: encode_char_def scalar_def)

lemma encode_decode: "decode_text bs = Some t \<Longrightarrow> encode_text t = bs \<and> list_all scalar t"
proof (induction bs arbitrary: t rule: decode_text.induct)
  case (2 b bs)
  consider "unat b < 128" | "194 \<le> unat b" "unat b < 224" | "224 \<le> unat b" "unat b < 240" | "240 \<le> unat b" "unat b < 245"
    using "2.prems" by (auto split: if_splits)
  then show ?case
  proof cases
    case 1
    then show ?thesis using "2.prems" "2.IH"(1) encode_one [OF 1] by auto
  next
    case two: 2
    then show ?thesis using "2.prems" "2.IH"(2) encode_two [OF two] by (auto split: list.splits if_splits)
  next
    case 3
    then show ?thesis using "2.prems" "2.IH"(3) encode_three [OF 3 _ _ refl] by (auto simp: Let_def split: list.splits if_splits)
  next
    case 4
    then show ?thesis using "2.prems" "2.IH"(4) encode_four [OF 4 _ _ _ refl] by (auto simp: Let_def split: list.splits if_splits)
  qed
qed simp

lemma utf8_chars_of: "encode_text (chars_of s) = utf8 s"
proof -
  have "encode_char (code_point c) = utf8_char c" for c
    using less_trans [OF nat_of_char_less_256 [of c], of 2048] less_trans [OF nat_of_char_less_256 [of c], of 65536]
    by (simp add: encode_char_def utf8_char_def code_point_def Let_def)
  then show ?thesis by (simp add: chars_of_def utf8_def encode_text_def comp_def)
qed

end
