(* ===== verification/HashDiff.thy ===== *)
theory HashDiff
  imports HashText "HOL-Library.Product_Lexorder"
begin

text \<open>
  The unified diff of a plan (\<open>unified_diff_text\<close> of \<open>hash_edit/planner.py\<close>) with the matcher of Python's
  \<open>difflib\<close> that it uses, without junk and without the popularity heuristic: longest matching blocks,
  opcodes, and the groups of opcodes with three lines of context.
\<close>

section \<open>The longest match\<close>

type_synonym block = "nat \<times> nat \<times> nat"
  \<comment> \<open>position in the old and in the new sequence, and length\<close>

type_synonym lengths = "(nat \<times> nat) list"
  \<comment> \<open>\<open>j2len\<close>\<close>

definition length_before :: "lengths \<Rightarrow> nat \<Rightarrow> nat" where
  \<comment> \<open>\<open>j2len.get(j - 1, 0)\<close>\<close>
  "length_before j2len j = (if j = 0 then 0 else case map_of j2len (j - 1) of None \<Rightarrow> 0 | Some k \<Rightarrow> k)"

definition b2j :: "'a list \<Rightarrow> 'a \<Rightarrow> nat list" where
  "b2j b x = filter (\<lambda>j. b ! j = x) [0..<length b]"

fun match_line :: "nat \<Rightarrow> nat \<Rightarrow> nat \<Rightarrow> lengths \<Rightarrow> nat list \<Rightarrow> lengths \<Rightarrow> block \<Rightarrow> lengths \<times> block" where
  \<comment> \<open>the loop over the positions of \<open>a[i]\<close> in \<open>b\<close>\<close>
  "match_line i blo bhi j2len [] newj2len best = (newj2len, best)"
| "match_line i blo bhi j2len (j # js) newj2len best =
     (if j < blo then match_line i blo bhi j2len js newj2len best
      else if bhi \<le> j then (newj2len, best)
      else let k = length_before j2len j + 1 in
        match_line i blo bhi j2len js ((j, k) # newj2len)
          (if snd (snd best) < k then (i + 1 - k, j + 1 - k, k) else best))"

fun match_lines :: "'a list \<Rightarrow> 'a list \<Rightarrow> nat \<Rightarrow> nat \<Rightarrow> nat list \<Rightarrow> lengths \<Rightarrow> block \<Rightarrow> block" where
  "match_lines a b blo bhi [] j2len best = best"
| "match_lines a b blo bhi (i # is) j2len best =
     (case match_line i blo bhi j2len (b2j b (a ! i)) [] best of
       (newj2len, best') \<Rightarrow> match_lines a b blo bhi is newj2len best')"

fun extend_left :: "'a list \<Rightarrow> 'a list \<Rightarrow> nat \<Rightarrow> nat \<Rightarrow> nat \<Rightarrow> nat \<Rightarrow> nat \<Rightarrow> block" where
  \<comment> \<open>the first loop after the search\<close>
  "extend_left a b alo blo (Suc i) (Suc j) k =
     (if alo \<le> i \<and> blo \<le> j \<and> a ! i = b ! j then extend_left a b alo blo i j (k + 1) else (Suc i, Suc j, k))"
| "extend_left a b alo blo i j k = (i, j, k)"

function extend_right :: "'a list \<Rightarrow> 'a list \<Rightarrow> nat \<Rightarrow> nat \<Rightarrow> nat \<Rightarrow> nat \<Rightarrow> nat \<Rightarrow> nat" where
  "extend_right a b ahi bhi i j k =
     (if i + k < ahi \<and> j + k < bhi \<and> a ! (i + k) = b ! (j + k) then extend_right a b ahi bhi i j (k + 1) else k)"
  by auto
termination
  by (relation "measure (\<lambda>(a, b, ahi, bhi, i, j, k). ahi - (i + k))") auto

declare extend_right.simps [simp del]

definition find_longest_match :: "'a list \<Rightarrow> 'a list \<Rightarrow> nat \<Rightarrow> nat \<Rightarrow> nat \<Rightarrow> nat \<Rightarrow> block" where
  "find_longest_match a b alo ahi blo bhi =
     (case match_lines a b blo bhi [alo..<ahi] [] (alo, blo, 0) of
       (i, j, k) \<Rightarrow> (case extend_left a b alo blo i j k of
         (i', j', k') \<Rightarrow> (i', j', extend_right a b ahi bhi i' j' k')))"

section \<open>What a match is\<close>

definition matched :: "'a list \<Rightarrow> 'a list \<Rightarrow> nat \<Rightarrow> nat \<Rightarrow> nat \<Rightarrow> nat \<Rightarrow> block \<Rightarrow> bool" where
  \<comment> \<open>a block of equal elements within a region\<close>
  "matched a b alo ahi blo bhi = (\<lambda>(i, j, k).
     alo \<le> i \<and> i + k \<le> ahi \<and> blo \<le> j \<and> j + k \<le> bhi \<and> (\<forall>m < k. a ! (i + m) = b ! (j + m)))"

definition runs_ending :: "'a list \<Rightarrow> 'a list \<Rightarrow> nat \<Rightarrow> nat \<Rightarrow> nat \<Rightarrow> nat \<Rightarrow> nat \<Rightarrow> lengths \<Rightarrow> bool" where
  \<comment> \<open>every entry \<open>(j, k)\<close> is a match of length \<open>k\<close> that ends before line \<open>i\<close> and after \<open>b[j]\<close>\<close>
  "runs_ending a b alo ahi blo bhi i j2len \<longleftrightarrow>
     (\<forall>(j, k) \<in> set j2len. k \<le> i \<and> k \<le> j + 1 \<and> matched a b alo ahi blo bhi (i - k, j + 1 - k, k))"

lemma matched_grow:
  assumes "matched a b alo ahi blo bhi (i - k, j - k, k)" "k \<le> i" "k \<le> j" "i < ahi" "j < bhi" "a ! i = b ! j"
    and "alo \<le> i" "blo \<le> j"
  shows "matched a b alo ahi blo bhi (i + 1 - (k + 1), j + 1 - (k + 1), k + 1)"
proof -
  have "a ! (i - k + m) = b ! (j - k + m)" if "m < k + 1" for m
  proof (cases "m = k")
    case False
    then show ?thesis using assms(1) that by (simp add: matched_def)
  qed (use assms in simp)
  then show ?thesis using assms by (auto simp: matched_def)
qed

lemma matched_empty: "alo \<le> i \<Longrightarrow> i \<le> ahi \<Longrightarrow> blo \<le> j \<Longrightarrow> j \<le> bhi \<Longrightarrow> matched a b alo ahi blo bhi (i, j, 0)"
  by (simp add: matched_def)

lemma length_before_run:
  assumes "runs_ending a b alo ahi blo bhi i j2len" "alo \<le> i" "i < ahi" "blo \<le> j" "j < bhi" "a ! i = b ! j"
  shows "length_before j2len j \<le> i" "length_before j2len j \<le> j"
    "matched a b alo ahi blo bhi (i + 1 - (length_before j2len j + 1), j + 1 - (length_before j2len j + 1), length_before j2len j + 1)"
proof -
  define k where "k = length_before j2len j"
  have "k \<le> i \<and> k \<le> j \<and> matched a b alo ahi blo bhi (i - k, j - k, k)"
  proof (cases "j \<noteq> 0 \<and> map_of j2len (j - 1) = Some k")
    case True
    then have "(j - 1, k) \<in> set j2len" by (auto dest: map_of_SomeD)
    then show ?thesis using assms(1) True by (fastforce simp: runs_ending_def)
  next
    case False
    then have "k = 0" by (auto simp: k_def length_before_def split: option.splits)
    then show ?thesis using assms matched_empty [of alo i ahi blo j bhi a b] by simp
  qed
  then show "length_before j2len j \<le> i" "length_before j2len j \<le> j"
    "matched a b alo ahi blo bhi (i + 1 - (length_before j2len j + 1), j + 1 - (length_before j2len j + 1), length_before j2len j + 1)"
    using matched_grow [of a b alo ahi blo bhi i k j] assms unfolding k_def by auto
qed

lemma match_line_matched:
  assumes "runs_ending a b alo ahi blo bhi i j2len" "alo \<le> i" "i < ahi"
    and "\<forall>j \<in> set js. a ! i = b ! j" "runs_ending a b alo ahi blo bhi (i + 1) newj2len" "matched a b alo ahi blo bhi best"
    and "match_line i blo bhi j2len js newj2len best = (new, best')"
  shows "runs_ending a b alo ahi blo bhi (i + 1) new \<and> matched a b alo ahi blo bhi best'"
  using assms(4-)
proof (induction js arbitrary: newj2len best)
  case (Cons j js)
  let ?k = "length_before j2len j + 1"
  show ?case
  proof (cases "blo \<le> j \<and> j < bhi")
    case True
    then have k: "?k \<le> i + 1" "?k \<le> j + 1" "matched a b alo ahi blo bhi (i + 1 - ?k, j + 1 - ?k, ?k)"
      using length_before_run [OF assms(1-3), of j] Cons.prems(1) by auto
    then have "runs_ending a b alo ahi blo bhi (i + 1) ((j, ?k) # newj2len)"
      using Cons.prems(2) by (auto simp: runs_ending_def)
    then show ?thesis using Cons.IH Cons.prems k True by (auto simp: Let_def split: if_splits)
  qed (use Cons in \<open>auto split: if_splits\<close>)
qed simp

lemma match_lines_matched:
  assumes "alo \<le> i" "i \<le> ahi" "runs_ending a b alo ahi blo bhi i j2len" "matched a b alo ahi blo bhi best"
  shows "matched a b alo ahi blo bhi (match_lines a b blo bhi [i..<ahi] j2len best)"
  using assms
proof (induction "ahi - i" arbitrary: i j2len best)
  case (Suc n)
  obtain new best' where new: "match_line i blo bhi j2len (b2j b (a ! i)) [] best = (new, best')" by (metis prod.exhaust)
  have "\<forall>j \<in> set (b2j b (a ! i)). a ! i = b ! j" by (auto simp: b2j_def)
  then have "runs_ending a b alo ahi blo bhi (i + 1) new \<and> matched a b alo ahi blo bhi best'"
    using match_line_matched [OF Suc.prems(3,1) _ _ _ Suc.prems(4) new] Suc.hyps(2) by (simp add: runs_ending_def)
  then have "matched a b alo ahi blo bhi (match_lines a b blo bhi [i + 1..<ahi] new best')"
    using Suc by (intro Suc.hyps(1)) auto
  moreover have "[i..<ahi] = i # [i + 1..<ahi]" using Suc.hyps(2) by (simp add: upt_conv_Cons)
  ultimately show ?case using new by simp
qed simp

lemma extend_left_matched:
  "matched a b alo ahi blo bhi (i, j, k) \<Longrightarrow> matched a b alo ahi blo bhi (extend_left a b alo blo i j k)"
proof (induction a b alo blo i j k rule: extend_left.induct)
  case (1 a b alo blo i j k)
  have "a ! (i + m) = b ! (j + m)" if "a ! i = b ! j" "m < k + 1" for m
    using "1.prems" that by (cases m) (auto simp: matched_def)
  then show ?case using 1 by (auto simp: matched_def)
qed auto

lemma extend_right_matched:
  "matched a b alo ahi blo bhi (i, j, k) \<Longrightarrow> matched a b alo ahi blo bhi (i, j, extend_right a b ahi bhi i j k)"
proof (induction a b ahi bhi i j k rule: extend_right.induct)
  case (1 a b ahi bhi i j k)
  have "matched a b alo ahi blo bhi (i, j, k + 1)" if "i + k < ahi" "j + k < bhi" "a ! (i + k) = b ! (j + k)"
    using "1.prems" that by (auto simp: matched_def less_Suc_eq)
  then show ?case using 1 by (subst extend_right.simps) auto
qed

lemma find_longest_match_matched:
  assumes "alo \<le> ahi" "blo \<le> bhi"
  shows "matched a b alo ahi blo bhi (find_longest_match a b alo ahi blo bhi)"
proof -
  have "matched a b alo ahi blo bhi (match_lines a b blo bhi [alo..<ahi] [] (alo, blo, 0))"
    using assms by (intro match_lines_matched) (auto simp: runs_ending_def matched_def)
  then show ?thesis
    unfolding find_longest_match_def
    by (auto split: prod.splits intro!: extend_right_matched dest!: extend_left_matched)
qed

section \<open>Matching blocks\<close>

type_synonym region = "nat \<times> nat \<times> nat \<times> nat"

fun sub_regions :: "region \<Rightarrow> block \<Rightarrow> region list" where
  \<comment> \<open>the regions that are queued around a block\<close>
  "sub_regions (alo, ahi, blo, bhi) (i, j, k) =
     (if alo < i \<and> blo < j then [(alo, i, blo, j)] else [])
     @ (if i + k < ahi \<and> j + k < bhi then [(i + k, ahi, j + k, bhi)] else [])"

fun region_ok :: "region \<Rightarrow> bool" where
  "region_ok (alo, ahi, blo, bhi) \<longleftrightarrow> alo \<le> ahi \<and> blo \<le> bhi"

definition longest_in :: "'a list \<Rightarrow> 'a list \<Rightarrow> region \<Rightarrow> block" where
  "longest_in a b = (\<lambda>(alo, ahi, blo, bhi). find_longest_match a b alo ahi blo bhi)"

fun region_size :: "region \<Rightarrow> nat" where
  "region_size (alo, ahi, blo, bhi) = 2 * (ahi - alo) + 1"

lemma match_line_empty: "bhi \<le> blo \<Longrightarrow> match_line i blo bhi j2len js new best = (new, best)"
  by (induction js) auto

lemma match_lines_empty: "bhi \<le> blo \<Longrightarrow> match_lines a b blo bhi is j2len best = best"
  by (induction "is" arbitrary: j2len) (auto simp: match_line_empty)

lemma extend_left_stop: "i \<le> alo \<Longrightarrow> extend_left a b alo blo i j k = (i, j, k)"
  by (induction a b alo blo i j k rule: extend_left.induct) auto

lemma extend_right_stop: "ahi \<le> i + k \<or> bhi \<le> j + k \<Longrightarrow> extend_right a b ahi bhi i j k = k"
  by (subst extend_right.simps) auto

lemma longest_in_ok: "longest_in a b r = (i, j, k) \<Longrightarrow> k \<noteq> 0 \<Longrightarrow> region_ok r"
proof -
  assume run: "longest_in a b r = (i, j, k)" "k \<noteq> 0"
  obtain alo ahi blo bhi where r: "r = (alo, ahi, blo, bhi)" by (metis prod.exhaust)
  have False if "\<not> region_ok r"
  proof -
    have "match_lines a b blo bhi [alo..<ahi] [] (alo, blo, 0) = (alo, blo, 0)"
      using that by (cases "alo \<le> ahi") (auto simp: r match_lines_empty)
    then have "longest_in a b r = (alo, blo, 0)"
      using that by (auto simp: r longest_in_def find_longest_match_def extend_left_stop extend_right_stop)
    then show False using run by simp
  qed
  then show ?thesis by blast
qed

lemma longest_in_matched: "longest_in a b (alo, ahi, blo, bhi) = (i, j, k) \<Longrightarrow> k \<noteq> 0 \<Longrightarrow> matched a b alo ahi blo bhi (i, j, k)"
  using longest_in_ok [of a b "(alo, ahi, blo, bhi)" i j k] find_longest_match_matched [of alo ahi blo bhi a b]
  by (simp add: longest_in_def)

lemma sub_regions_smaller:
  assumes "longest_in a b r = (i, j, k)" "k \<noteq> 0"
  shows "sum_list (map region_size (sub_regions r (i, j, k))) < region_size r"
proof -
  obtain alo ahi blo bhi where r: "r = (alo, ahi, blo, bhi)" by (metis prod.exhaust)
  have "alo \<le> i" "i + k \<le> ahi" using longest_in_matched [OF assms [unfolded r]] by (simp_all add: matched_def)
  then have "(i - alo) + (ahi - (i + k)) + k = ahi - alo" by simp
  then show ?thesis using assms(2) by (simp add: r)
qed

function matching_blocks :: "'a list \<Rightarrow> 'a list \<Rightarrow> region list \<Rightarrow> block list \<Rightarrow> block list" where
  \<comment> \<open>the loop over the queue, whose end is its first element here since \<open>pop\<close> takes the last\<close>
  "matching_blocks a b [] blocks = blocks"
| "matching_blocks a b (r # queue) blocks =
     (case longest_in a b r of (i, j, k) \<Rightarrow>
       if k = 0 then matching_blocks a b queue blocks
       else matching_blocks a b (rev (sub_regions r (i, j, k)) @ queue) (blocks @ [(i, j, k)]))"
  by pat_completeness auto
termination
proof (relation "measure (\<lambda>(a, b, queue, blocks). sum_list (map region_size queue))", goal_cases)
  case (2 a b r queue blocks x i y j)
  then show ?case by (cases r) simp
next
  case (3 a b r queue blocks x i y j)
  then have "longest_in a b r = (x, y, j)" "j \<noteq> 0" by simp_all
  from sub_regions_smaller [OF this] this show ?case by (simp add: rev_map [symmetric] sum_list_rev)
qed simp

fun collapse :: "block \<Rightarrow> block list \<Rightarrow> block list" where
  \<comment> \<open>joins adjacent blocks\<close>
  "collapse (i1, j1, k1) [] = (if k1 \<noteq> 0 then [(i1, j1, k1)] else [])"
| "collapse (i1, j1, k1) ((i2, j2, k2) # blocks) =
     (if i1 + k1 = i2 \<and> j1 + k1 = j2 then collapse (i1, j1, k1 + k2) blocks
      else (if k1 \<noteq> 0 then [(i1, j1, k1)] else []) @ collapse (i2, j2, k2) blocks)"

definition get_matching_blocks :: "'a list \<Rightarrow> 'a list \<Rightarrow> block list" where
  "get_matching_blocks a b =
     collapse (0, 0, 0) (sort (matching_blocks a b [(0, length a, 0, length b)] [])) @ [(length a, length b, 0)]"

section \<open>Opcodes\<close>

datatype tag = Replace | Delete | Insert | Equal

type_synonym opcode = "tag \<times> nat \<times> nat \<times> nat \<times> nat"

fun opcodes_from :: "nat \<Rightarrow> nat \<Rightarrow> block list \<Rightarrow> opcode list" where
  "opcodes_from i j [] = []"
| "opcodes_from i j ((ai, bj, n) # blocks) =
     (if i < ai \<and> j < bj then [(Replace, i, ai, j, bj)]
      else if i < ai then [(Delete, i, ai, j, bj)]
      else if j < bj then [(Insert, i, ai, j, bj)] else [])
     @ (if n \<noteq> 0 then [(Equal, ai, ai + n, bj, bj + n)] else [])
     @ opcodes_from (ai + n) (bj + n) blocks"

definition get_opcodes :: "'a list \<Rightarrow> 'a list \<Rightarrow> opcode list" where
  "get_opcodes a b = opcodes_from 0 0 (get_matching_blocks a b)"

fun trim_first :: "nat \<Rightarrow> opcode \<Rightarrow> opcode" where
  "trim_first n (t, i1, i2, j1, j2) = (if t = Equal then (t, max i1 (i2 - n), i2, max j1 (j2 - n), j2) else (t, i1, i2, j1, j2))"

fun trim_last :: "nat \<Rightarrow> opcode \<Rightarrow> opcode" where
  "trim_last n (t, i1, i2, j1, j2) = (if t = Equal then (t, i1, min i2 (i1 + n), j1, min j2 (j1 + n)) else (t, i1, i2, j1, j2))"

fun group_codes :: "nat \<Rightarrow> opcode list \<Rightarrow> opcode list \<Rightarrow> opcode list list" where
  \<comment> \<open>the loop that yields groups\<close>
  "group_codes n grp [] =
     (if grp \<noteq> [] \<and> \<not> (length grp = 1 \<and> fst (hd grp) = Equal) then [grp] else [])"
| "group_codes n grp ((t, i1, i2, j1, j2) # codes) =
     (if t = Equal \<and> n + n < i2 - i1
      then (grp @ [(t, i1, min i2 (i1 + n), j1, min j2 (j1 + n))])
        # group_codes n [(t, max i1 (i2 - n), i2, max j1 (j2 - n), j2)] codes
      else group_codes n (grp @ [(t, i1, i2, j1, j2)]) codes)"

definition get_grouped_opcodes :: "nat \<Rightarrow> 'a list \<Rightarrow> 'a list \<Rightarrow> opcode list list" where
  "get_grouped_opcodes n a b =
     (let codes = get_opcodes a b;
          codes = (if codes = [] then [(Equal, 0, 1, 0, 1)] else codes);
          codes = trim_first n (hd codes) # tl codes;
          codes = butlast codes @ [trim_last n (last codes)]
      in group_codes n [] codes)"

section \<open>The text\<close>

fun split_keepends :: "chars \<Rightarrow> chars list" where
  \<comment> \<open>the lines with their line feeds\<close>
  "split_keepends [] = []"
| "split_keepends (c # t) = (if c = 10 then [c] # split_keepends t
     else (case split_keepends t of [] \<Rightarrow> [[c]] | l # ls \<Rightarrow> (c # l) # ls))"

definition hunk_span :: "nat \<Rightarrow> nat \<Rightarrow> chars" where
  "hunk_span start len = (if len = 0 then chars_of (dec (int start) @ '',0'')
     else chars_of (dec (int start + 1) @ '','' @ dec (int len)))"

definition emit_diff_line :: "string \<Rightarrow> chars \<Rightarrow> chars" where
  \<comment> \<open>both records of a line without line feed\<close>
  "emit_diff_line prefix line = (if line \<noteq> [] \<and> last line = 10 then chars_of prefix @ line
     else chars_of prefix @ line @ [10, 92] @ chars_of '' No newline at end of file'' @ [10])"

definition slice :: "nat \<Rightarrow> nat \<Rightarrow> 'a list \<Rightarrow> 'a list" where
  "slice i j xs = drop i (take j xs)"

definition emit_lines :: "string \<Rightarrow> nat \<Rightarrow> nat \<Rightarrow> chars list \<Rightarrow> chars" where
  "emit_lines prefix i j ls = concat (map (emit_diff_line prefix) (slice i j ls))"

fun emit_opcode :: "chars list \<Rightarrow> chars list \<Rightarrow> opcode \<Rightarrow> chars" where
  "emit_opcode old new (Equal, i1, i2, j1, j2) = emit_lines '' '' i1 i2 old"
| "emit_opcode old new (Replace, i1, i2, j1, j2) = emit_lines ''-'' i1 i2 old @ emit_lines ''+'' j1 j2 new"
| "emit_opcode old new (Delete, i1, i2, j1, j2) = emit_lines ''-'' i1 i2 old"
| "emit_opcode old new (Insert, i1, i2, j1, j2) = emit_lines ''+'' j1 j2 new"

definition emit_group :: "chars list \<Rightarrow> chars list \<Rightarrow> opcode list \<Rightarrow> chars" where
  "emit_group old new grp =
     (case (hd grp, last grp) of ((_, old_first, _, new_first, _), (_, _, old_last, _, new_last)) \<Rightarrow>
        chars_of ''@@ -'' @ hunk_span old_first (old_last - old_first) @ chars_of '' +'' @
        hunk_span new_first (new_last - new_first) @ chars_of '' @@'' @ [10])
     @ concat (map (emit_opcode old new) grp)"

definition UNIFIED_DIFF_CONTEXT :: nat where "UNIFIED_DIFF_CONTEXT = 3"

definition unified_diff_text :: "string \<Rightarrow> chars \<Rightarrow> chars \<Rightarrow> chars" where
  \<comment> \<open>\<open>if not groups\<close> is never true: the groups are a generator\<close>
  "unified_diff_text path before after =
     (let old = split_keepends before; new = split_keepends after in
      chars_of (''--- '' @ path) @ [10] @ chars_of (''+++ '' @ path) @ [10]
      @ concat (map (emit_group old new) (get_grouped_opcodes UNIFIED_DIFF_CONTEXT old new)))"

end
