(* ===== verification/HashDiffFacts.thy ===== *)
theory HashDiffFacts
  imports HashDiff
begin

text \<open>
  What the matcher computes: the matching blocks are ordered runs of equal lines, the opcodes tile both
  sequences, and between the groups of opcodes lie only lines that both sequences share.
\<close>

section \<open>Blocks are apart\<close>

definition apart :: "region \<Rightarrow> region \<Rightarrow> bool" where
  \<comment> \<open>one lies before the other in both sequences\<close>
  "apart = (\<lambda>(alo, ahi, blo, bhi) (alo', ahi', blo', bhi'). (ahi \<le> alo' \<and> bhi \<le> blo') \<or> (ahi' \<le> alo \<and> bhi' \<le> blo))"

definition within :: "region \<Rightarrow> region \<Rightarrow> bool" where
  "within = (\<lambda>(alo, ahi, blo, bhi) (alo', ahi', blo', bhi'). alo' \<le> alo \<and> ahi \<le> ahi' \<and> blo' \<le> blo \<and> bhi \<le> bhi')"

fun block_region :: "block \<Rightarrow> region" where
  "block_region (i, j, k) = (i, i + k, j, j + k)"

lemma apart_sym: "apart r s \<Longrightarrow> apart s r"
  by (auto simp: apart_def split: prod.splits)

lemma apart_within: "apart r s \<Longrightarrow> within r' r \<Longrightarrow> apart r' s" "apart s r \<Longrightarrow> within r' r \<Longrightarrow> apart s r'"
  by (auto simp: apart_def within_def split: prod.splits)

lemma around_block:
  assumes "longest_in a b r = (i, j, k)" "k \<noteq> 0"
  shows "within (block_region (i, j, k)) r" "\<forall>s \<in> set (sub_regions r (i, j, k)). within s r \<and> apart (block_region (i, j, k)) s"
    "sorted_wrt apart (rev (sub_regions r (i, j, k)))"
proof -
  obtain alo ahi blo bhi where r: "r = (alo, ahi, blo, bhi)" by (metis prod.exhaust)
  have "alo \<le> i" "i + k \<le> ahi" "blo \<le> j" "j + k \<le> bhi"
    using longest_in_matched [OF assms [unfolded r]] by (simp_all add: matched_def)
  then show "within (block_region (i, j, k)) r"
    "\<forall>s \<in> set (sub_regions r (i, j, k)). within s r \<and> apart (block_region (i, j, k)) s"
    "sorted_wrt apart (rev (sub_regions r (i, j, k)))"
    by (auto simp: r within_def apart_def)
qed

definition good_block :: "'a list \<Rightarrow> 'a list \<Rightarrow> block \<Rightarrow> bool" where
  "good_block a b = (\<lambda>(i, j, k). 0 < k \<and> matched a b 0 (length a) 0 (length b) (i, j, k))"

lemma matched_wider:
  "matched a b alo ahi blo bhi x \<Longrightarrow> within (alo, ahi, blo, bhi) (alo', ahi', blo', bhi') \<Longrightarrow> matched a b alo' ahi' blo' bhi' x"
  by (auto simp: matched_def within_def split: prod.splits)

lemma longest_good:
  assumes "longest_in a b r = (i, j, k)" "k \<noteq> 0" "within r (0, length a, 0, length b)"
  shows "good_block a b (i, j, k)"
proof -
  obtain alo ahi blo bhi where r: "r = (alo, ahi, blo, bhi)" by (metis prod.exhaust)
  show ?thesis
    using matched_wider [OF longest_in_matched [OF assms(1) [unfolded r] assms(2)] assms(3) [unfolded r]] assms(2)
    by (simp add: good_block_def)
qed

lemma within_trans: "within r s \<Longrightarrow> within s t \<Longrightarrow> within r t"
  by (auto simp: within_def split: prod.splits)

lemma apart_step:
  assumes "sorted_wrt apart (map block_region blocks @ r # queue)" "within (block_region x) r"
    and "\<forall>s \<in> set subs. within s r \<and> apart (block_region x) s" "sorted_wrt apart (rev subs)"
  shows "sorted_wrt apart (map block_region (blocks @ [x]) @ rev subs @ queue)"
proof -
  have "\<forall>y \<in> block_region ` set blocks. apart y r" "\<forall>y \<in> set queue. apart r y"
    using assms(1) by (auto simp: sorted_wrt_append simp del: block_region.simps)
  then have before: "y \<in> block_region ` set blocks \<Longrightarrow> within s r \<Longrightarrow> apart y s"
    and behind: "y \<in> set queue \<Longrightarrow> within s r \<Longrightarrow> apart s y" for y s
    using apart_within by blast+
  show ?thesis using assms before behind by (simp add: sorted_wrt_append ball_Un)
qed

lemma matching_blocks_apart:
  assumes "sorted_wrt apart (map block_region blocks @ queue)" "\<forall>x \<in> set blocks. good_block a b x"
    and "\<forall>r \<in> set queue. within r (0, length a, 0, length b)"
  shows "sorted_wrt apart (map block_region (matching_blocks a b queue blocks))
    \<and> (\<forall>x \<in> set (matching_blocks a b queue blocks). good_block a b x)"
  using assms
proof (induction a b queue blocks rule: matching_blocks.induct)
  case (2 a b r queue blocks)
  obtain i j k where run: "longest_in a b r = (i, j, k)" by (metis prod.exhaust)
  show ?case
  proof (cases "k = 0")
    case True
    then show ?thesis using 2 run by (auto simp: sorted_wrt_append)
  next
    case False
    note around = around_block [OF run False]
    have step: "sorted_wrt apart (map block_region (blocks @ [(i, j, k)]) @ rev (sub_regions r (i, j, k)) @ queue)"
      by (rule apart_step [OF "2.prems"(1) around])
    have "good_block a b (i, j, k)" using longest_good [OF run False] "2.prems"(3) by simp
    then have good: "\<forall>x \<in> set (blocks @ [(i, j, k)]). good_block a b x" using "2.prems"(2) by simp
    have inside: "\<forall>s \<in> set (rev (sub_regions r (i, j, k)) @ queue). within s (0, length a, 0, length b)"
      using "2.prems"(3) around(2) within_trans [of _ r] by (simp del: sub_regions.simps add: ball_Un)
    have "matching_blocks a b (r # queue) blocks
        = matching_blocks a b (rev (sub_regions r (i, j, k)) @ queue) (blocks @ [(i, j, k)])"
      using run False by simp
    then show ?thesis using "2.IH"(2) [OF run [symmetric] refl False step good inside] by presburger
  qed
qed simp

section \<open>Ordered blocks\<close>

fun chained :: "'a list \<Rightarrow> 'a list \<Rightarrow> nat \<Rightarrow> nat \<Rightarrow> block list \<Rightarrow> bool" where
  \<comment> \<open>matches that follow one another, from a position in both sequences\<close>
  "chained a b i j [] \<longleftrightarrow> True"
| "chained a b i j ((i', j', k) # blocks) \<longleftrightarrow> i \<le> i' \<and> j \<le> j'
     \<and> matched a b 0 (length a) 0 (length b) (i', j', k) \<and> chained a b (i' + k) (j' + k) blocks"

lemma chained_start: "chained a b i j blocks \<Longrightarrow> i' \<le> i \<Longrightarrow> j' \<le> j \<Longrightarrow> chained a b i' j' blocks"
  by (cases blocks) auto

lemma apart_sorted:
  assumes "\<forall>x \<in> set blocks. \<forall>y \<in> set blocks. x \<noteq> y \<longrightarrow> apart (block_region x) (block_region y)"
    and "\<forall>x \<in> set blocks. good_block a b x" "sorted blocks" "distinct blocks"
  shows "chained a b 0 0 blocks"
  using assms
proof (induction blocks)
  case (Cons x blocks)
  obtain i j k where x: "x = (i, j, k)" by (metis prod.exhaust)
  have "chained a b 0 0 blocks" using Cons by simp
  moreover have "i + k \<le> i' \<and> j + k \<le> j'" if "blocks = (i', j', k') # rest" for i' j' k' rest
  proof -
    have "apart (i, i + k, j, j + k) (i', i' + k', j', j' + k')" using Cons.prems(1,4) x that by force
    moreover have "i \<le> i'" "0 < k'"
      using Cons.prems(2,3) x that by (auto simp: good_block_def less_eq_prod_def)
    ultimately show ?thesis by (auto simp: apart_def)
  qed
  ultimately have "chained a b (i + k) (j + k) blocks" by (cases blocks) auto
  then show ?case using Cons.prems(2) x by (simp add: good_block_def)
qed simp

lemma apart_irrefl: "good_block a b x \<Longrightarrow> \<not> apart (block_region x) (block_region x)"
  by (auto simp: good_block_def apart_def split: prod.splits)

lemma matching_blocks_chained: "chained a b 0 0 (sort (matching_blocks a b [(0, length a, 0, length b)] []))"
proof -
  define blocks where "blocks = matching_blocks a b [(0, length a, 0, length b)] []"
  have "sorted_wrt apart (map block_region []  @ [(0, length a, 0, length b)])" "\<forall>x \<in> set []. good_block a b x"
    "\<forall>r \<in> set [(0, length a, 0, length b)]. within r (0, length a, 0, length b)"
    by (simp_all add: within_def)
  from matching_blocks_apart [OF this]
  have ok: "sorted_wrt apart (map block_region blocks)" "\<forall>x \<in> set blocks. good_block a b x" by (simp_all add: blocks_def)
  have pair: "m < n \<Longrightarrow> n < length blocks \<Longrightarrow> apart (block_region (blocks ! m)) (block_region (blocks ! n))" for m n
    using ok(1) by (simp add: sorted_wrt_iff_nth_less)
  have "blocks ! m \<noteq> blocks ! n" if "m < n" "n < length blocks" for m n
    proof -
    have "blocks ! m \<in> set blocks" using that by simp
    then have "\<not> apart (block_region (blocks ! m)) (block_region (blocks ! m))" using ok(2) apart_irrefl by blast
    then show ?thesis using pair [OF that] by metis
  qed
  then have "distinct blocks" unfolding distinct_conv_nth by (metis linorder_neqE_nat)
  moreover have "apart (block_region x) (block_region y)" if "x \<in> set blocks" "y \<in> set blocks" "x \<noteq> y" for x y
  proof -
    obtain m n where "m < length blocks" "n < length blocks" "x = blocks ! m" "y = blocks ! n"
      using \<open>x \<in> set blocks\<close> \<open>y \<in> set blocks\<close> by (metis in_set_conv_nth)
    then show ?thesis using pair that(3) by (metis apart_sym linorder_neqE_nat)
  qed
  ultimately have "chained a b 0 0 (sort blocks)" using ok(2) by (intro apart_sorted) auto
  then show ?thesis by (simp add: blocks_def)
qed

lemma matched_join:
  assumes "matched a b 0 la 0 lb (i, j, k)" "matched a b 0 la 0 lb (i + k, j + k, k')"
  shows "matched a b 0 la 0 lb (i, j, k + k')"
proof -
  have "a ! (i + m) = b ! (j + m)" if "m < k + k'" for m
  proof (cases "m < k")
    case False
    then have m: "m - k < k'" "i + k + (m - k) = i + m" "j + k + (m - k) = j + m" using that by simp_all
    have "\<forall>n < k'. a ! (i + k + n) = b ! (j + k + n)" using assms(2) by (simp add: matched_def)
    then show ?thesis using m by metis
  qed (use assms(1) in \<open>simp add: matched_def\<close>)
  then show ?thesis using assms by (simp add: matched_def)
qed

lemma collapse_chained:
  "chained a b i j ((i1, j1, k1) # blocks) \<Longrightarrow> chained a b i j (collapse (i1, j1, k1) blocks)"
proof (induction "(i1, j1, k1)" blocks arbitrary: i j i1 j1 k1 rule: collapse.induct)
  case (2 i1 j1 k1 i2 j2 k2 blocks)
  show ?case
  proof (cases "i1 + k1 = i2 \<and> j1 + k1 = j2")
    case True
    then have "chained a b i j ((i1, j1, k1 + k2) # blocks)" using "2.prems" by (auto intro: matched_join simp: add.assoc)
    then show ?thesis using "2.hyps"(1) [OF True] True by simp
  next
    case False
    have "chained a b (i1 + k1) (j1 + k1) (collapse (i2, j2, k2) blocks)" using "2.hyps"(2) [OF False] "2.prems" by simp
    then have "chained a b i j (collapse (i2, j2, k2) blocks)" if "k1 = 0"
      using "2.prems" chained_start [of a b i1 j1 _ i j] that by simp
    then show ?thesis using "2.prems" False \<open>chained a b (i1 + k1) (j1 + k1) (collapse (i2, j2, k2) blocks)\<close> by auto
  qed
qed auto

lemma chained_end: "chained a b i j blocks \<Longrightarrow> i \<le> length a \<Longrightarrow> j \<le> length b \<Longrightarrow> chained a b i j (blocks @ [(length a, length b, 0)])"
  by (induction a b i j blocks rule: chained.induct) (auto simp: matched_def)

lemma get_matching_blocks_chained: "chained a b 0 0 (get_matching_blocks a b)"
proof -
  have "chained a b 0 0 ((0, 0, 0) # sort (matching_blocks a b [(0, length a, 0, length b)] []))"
    using matching_blocks_chained [of a b] by (simp add: matched_def)
  from collapse_chained [OF this] show ?thesis unfolding get_matching_blocks_def by (intro chained_end) auto
qed

section \<open>Opcodes tile both sequences\<close>

definition same :: "'a list \<Rightarrow> 'a list \<Rightarrow> nat \<Rightarrow> nat \<Rightarrow> nat \<Rightarrow> nat \<Rightarrow> bool" where
  \<comment> \<open>the stretches from \<open>(i, j)\<close> to \<open>(i', j')\<close> are equal\<close>
  "same a b i j i' j' \<longleftrightarrow> i \<le> i' \<and> j \<le> j' \<and> i' - i = j' - j \<and> matched a b 0 (length a) 0 (length b) (i, j, i' - i)"

lemma same_refl: "i \<le> length a \<Longrightarrow> j \<le> length b \<Longrightarrow> same a b i j i j"
  by (simp add: same_def matched_def)

lemma same_trans:
  assumes "same a b i j i1 j1" "same a b i1 j1 i2 j2"
  shows "same a b i j i2 j2"
proof -
  have "i + (i1 - i) = i1" "j + (i1 - i) = j1" "i1 - i + (i2 - i1) = i2 - i" using assms by (auto simp: same_def)
  then show ?thesis using assms matched_join [of a b "length a" "length b" i j "i1 - i" "i2 - i1"] by (auto simp: same_def)
qed

lemma same_part:
  assumes "same a b i j i' j'" "d \<le> e" "e \<le> i' - i"
  shows "same a b (i + d) (j + d) (i + e) (j + e)"
proof -
  have "\<forall>m < i' - i. a ! (i + m) = b ! (j + m)" "i' \<le> length a" "j' \<le> length b" "i' - i = j' - j" "i \<le> i'" "j \<le> j'"
    using assms(1) by (auto simp: same_def matched_def)
  moreover from this have "a ! (i + d + m) = b ! (j + d + m)" if "m < e - d" for m
    using assms that by (metis add.assoc add.commute less_diff_conv less_le_trans)
  moreover have "i + e \<le> length a" "j + e \<le> length b" using calculation(2-6) assms(3) by linarith+
  ultimately show ?thesis using assms(2,3) by (simp add: same_def matched_def)
qed

fun code_ok :: "'a list \<Rightarrow> 'a list \<Rightarrow> opcode \<Rightarrow> bool" where
  "code_ok a b (t, i1, i2, j1, j2) \<longleftrightarrow> i1 \<le> i2 \<and> i2 \<le> length a \<and> j1 \<le> j2 \<and> j2 \<le> length b
     \<and> (t = Equal \<longrightarrow> same a b i1 j1 i2 j2) \<and> (t = Delete \<longrightarrow> j1 = j2) \<and> (t = Insert \<longrightarrow> i1 = i2)"

fun tiles :: "'a list \<Rightarrow> 'a list \<Rightarrow> nat \<Rightarrow> nat \<Rightarrow> opcode list \<Rightarrow> nat \<Rightarrow> nat \<Rightarrow> bool" where
  "tiles a b i j [] i' j' \<longleftrightarrow> i = i' \<and> j = j'"
| "tiles a b i j ((t, i1, i2, j1, j2) # codes) i' j' \<longleftrightarrow>
     i = i1 \<and> j = j1 \<and> code_ok a b (t, i1, i2, j1, j2) \<and> tiles a b i2 j2 codes i' j'"

declare code_ok.simps [simp del]

lemma tiles_append [simp]:
  "tiles a b i j (xs @ ys) i' j' \<longleftrightarrow> (\<exists>i1 j1. tiles a b i j xs i1 j1 \<and> tiles a b i1 j1 ys i' j')"
  by (induction a b i j xs i' j' rule: tiles.induct) auto

lemma opcodes_tile:
  assumes "chained a b i j (blocks @ [(length a, length b, 0)])" "i \<le> length a" "j \<le> length b"
  shows "tiles a b i j (opcodes_from i j (blocks @ [(length a, length b, 0)])) (length a) (length b)"
  using assms
proof (induction blocks arbitrary: i j)
  case Nil
  then show ?case by (auto simp: code_ok.simps)
next
  case (Cons x blocks)
  obtain ai bj n where x: "x = (ai, bj, n)" by (metis prod.exhaust)
  have m: "i \<le> ai" "j \<le> bj" "matched a b 0 (length a) 0 (length b) (ai, bj, n)" using Cons.prems(1) x by auto
  then have le: "ai + n \<le> length a" "bj + n \<le> length b" by (auto simp: matched_def)
  have "same a b ai bj (ai + n) (bj + n)" using m(3) by (simp add: same_def)
  moreover have "tiles a b (ai + n) (bj + n) (opcodes_from (ai + n) (bj + n) (blocks @ [(length a, length b, 0)])) (length a) (length b)"
    using Cons x le by simp
  ultimately show ?case using m(1,2) le by (cases "n = 0") (auto simp: x code_ok.simps)
qed

lemma get_opcodes_tile: "tiles a b 0 0 (get_opcodes a b) (length a) (length b)"
  using opcodes_tile [of a b 0 0] get_matching_blocks_chained [of a b] by (simp add: get_opcodes_def get_matching_blocks_def)

section \<open>Groups\<close>

fun covers :: "'a list \<Rightarrow> 'a list \<Rightarrow> nat \<Rightarrow> nat \<Rightarrow> opcode list list \<Rightarrow> bool" where
  \<comment> \<open>groups that tile what they span, with equal stretches before, between and after them\<close>
  "covers a b i j [] \<longleftrightarrow> same a b i j (length a) (length b)"
| "covers a b i j (grp # grps) \<longleftrightarrow> grp \<noteq> [] \<and>
     (\<exists>i1 j1 i2 j2. same a b i j i1 j1 \<and> tiles a b i1 j1 grp i2 j2 \<and> covers a b i2 j2 grps)"

lemma same_split:
  assumes "same a b i1 j1 i2 j2" "n \<le> i2 - i1"
  shows "same a b i1 j1 (i1 + n) (j1 + n)" "same a b (i2 - n) (j2 - n) i2 j2"
    "n + n \<le> i2 - i1 \<Longrightarrow> same a b (i1 + n) (j1 + n) (i2 - n) (j2 - n)"
proof -
  have le: "i1 \<le> i2" "j1 \<le> j2" "i2 - i1 = j2 - j1" using assms(1) by (auto simp: same_def)
  then have e: "i1 + (i2 - i1 - n) = i2 - n" "j1 + (i2 - i1 - n) = j2 - n" "i1 + (i2 - i1) = i2" "j1 + (i2 - i1) = j2"
    using assms(2) by auto
  show "same a b i1 j1 (i1 + n) (j1 + n)" using same_part [OF assms(1), of 0 n] assms(2) by simp
  show "same a b (i2 - n) (j2 - n) i2 j2" using same_part [OF assms(1), of "i2 - i1 - n" "i2 - i1"] e by simp
  show "same a b (i1 + n) (j1 + n) (i2 - n) (j2 - n)" if "n + n \<le> i2 - i1"
    using same_part [OF assms(1), of n "i2 - i1 - n"] e that by simp
qed

lemma code_ok_Equal: "same a b i1 j1 i2 j2 \<Longrightarrow> code_ok a b (Equal, i1, i2, j1, j2)"
  by (auto simp: code_ok.simps same_def matched_def)

lemma group_codes_covers:
  assumes "same a b p q i0 j0" "tiles a b i0 j0 grp i j" "tiles a b i j codes i' j'" "same a b i' j' (length a) (length b)"
  shows "covers a b p q (group_codes n grp codes)"
  using assms
proof (induction codes arbitrary: p q i0 j0 grp i j)
  case Nil
  have rest: "same a b i j (length a) (length b)" using Nil.prems(3,4) by simp
  show ?case
  proof (cases "grp \<noteq> [] \<and> \<not> (length grp = 1 \<and> fst (hd grp) = Equal)")
    case True
    then show ?thesis using Nil.prems(1,2) rest by auto
  next
    case False
    have "same a b i0 j0 i j"
    proof (cases grp)
      case Nil
      then show ?thesis using \<open>same a b p q i0 j0\<close> \<open>tiles a b i0 j0 grp i j\<close> by (auto simp: same_def matched_def)
    next
      case (Cons code codes)
      then have "codes = []" "fst code = Equal" using False by auto
      then show ?thesis using Cons \<open>tiles a b i0 j0 grp i j\<close> by (cases code) (auto simp: code_ok.simps)
    qed
    then have "same a b p q (length a) (length b)" using same_trans [OF same_trans [OF Nil.prems(1)] rest] by simp
    then show ?thesis using False by auto
  qed
next
  case (Cons code codes)
  obtain t i1 i2 j1 j2 where code: "code = (t, i1, i2, j1, j2)" by (metis prod.exhaust)
  have at: "i1 = i" "j1 = j" "code_ok a b (t, i1, i2, j1, j2)" "tiles a b i2 j2 codes i' j'"
    using Cons.prems(3) code by auto
  show ?case
  proof (cases "t = Equal \<and> n + n < i2 - i1")
    case True
    then have eq: "same a b i1 j1 i2 j2" using at(3) by (simp add: code_ok.simps)
    have parts: "same a b i1 j1 (i1 + n) (j1 + n)" "same a b (i2 - n) (j2 - n) i2 j2"
      "same a b (i1 + n) (j1 + n) (i2 - n) (j2 - n)" using same_split [OF eq, of n] True by auto
    have le: "i1 \<le> i2" "j1 \<le> j2" "i2 - i1 = j2 - j1" using eq by (auto simp: same_def)
    have ends: "min i2 (i1 + n) = i1 + n" "min j2 (j1 + n) = j1 + n" "max i1 (i2 - n) = i2 - n" "max j1 (j2 - n) = j2 - n"
      using True le by auto
    have "covers a b (i1 + n) (j1 + n) (group_codes n [(Equal, i2 - n, i2, j2 - n, j2)] codes)"
      using parts code_ok_Equal [OF parts(2)] at(4) by (intro Cons.IH [OF parts(3) _ at(4) Cons.prems(4)]) simp
    moreover have "tiles a b i0 j0 (grp @ [(Equal, i1, i1 + n, j1, j1 + n)]) (i1 + n) (j1 + n)"
      using Cons.prems(2) at(1,2) code_ok_Equal [OF parts(1)] by auto
    ultimately show ?thesis using Cons.prems(1) True code ends by auto
  next
    case False
    have "tiles a b i0 j0 (grp @ [(t, i1, i2, j1, j2)]) i2 j2" using Cons.prems(2) at by auto
    from Cons.IH [OF Cons.prems(1) this at(4) Cons.prems(4)] show ?thesis using False by (auto simp: code)
  qed
qed

lemma trim_first_tiles:
  assumes "tiles a b 0 0 (code # codes) i' j'"
  shows "\<exists>i0 j0. same a b 0 0 i0 j0 \<and> tiles a b i0 j0 (trim_first n code # codes) i' j'"
proof -
  obtain t i1 i2 j1 j2 where code: "code = (t, i1, i2, j1, j2)" by (metis prod.exhaust)
  have at: "i1 = 0" "j1 = 0" "code_ok a b (t, 0, i2, 0, j2)" "tiles a b i2 j2 codes i' j'" using assms code by auto
  show ?thesis
  proof (cases "t = Equal")
    case True
    then have eq: "same a b 0 0 i2 j2" using at by (simp add: code_ok.simps)
    then have "same a b 0 0 (i2 - n) (j2 - n) \<and> same a b (i2 - n) (j2 - n) i2 j2"
      using same_part [OF eq, of 0 "i2 - n"] same_part [OF eq, of "i2 - n" i2] by (simp add: same_def)
    then show ?thesis using at True code_ok_Equal by (fastforce simp: code)
  next
    case False
    then show ?thesis using at same_refl [of 0 a 0 b] by (auto simp: code)
  qed
qed

lemma trim_last_tiles:
  assumes "tiles a b i j [code] (length a) (length b)"
  shows "\<exists>i' j'. tiles a b i j [trim_last n code] i' j' \<and> same a b i' j' (length a) (length b)"
proof -
  obtain t i1 i2 j1 j2 where code: "code = (t, i1, i2, j1, j2)" by (metis prod.exhaust)
  have at: "i1 = i" "j1 = j" "i2 = length a" "j2 = length b" "code_ok a b (t, i1, i2, j1, j2)" using assms code by auto
  show ?thesis
  proof (cases "t = Equal")
    case True
    then have eq: "same a b i1 j1 i2 j2" using at by (simp add: code_ok.simps)
    define m where "m = min n (i2 - i1)"
    have m: "m \<le> i2 - i1" by (simp add: m_def)
    have ends: "min i2 (i1 + n) = i1 + m" "min j2 (j1 + n) = j1 + m" "i1 + (i2 - i1) = i2" "j1 + (i2 - i1) = j2"
      using eq by (auto simp: m_def same_def)
    have "same a b i1 j1 (i1 + m) (j1 + m)" "same a b (i1 + m) (j1 + m) i2 j2"
      using same_part [OF eq, of 0 m] same_part [OF eq, of m "i2 - i1"] m ends(3,4) by simp_all
    then show ?thesis using at True ends(1,2) code_ok_Equal by (auto simp: code)
  next
    case False
    then show ?thesis using at same_refl [of "length a" a "length b" b] by (auto simp: code)
  qed
qed

lemma get_grouped_opcodes_covers: "covers a b 0 0 (get_grouped_opcodes n a b)"
proof (cases "get_opcodes a b")
  case Nil
  then have "a = []" "b = []" using get_opcodes_tile [of a b] by auto
  then show ?thesis using Nil by (simp add: get_grouped_opcodes_def Let_def same_def matched_def)
next
  case (Cons code codes)
  obtain i0 j0 where first: "same a b 0 0 i0 j0" "tiles a b i0 j0 (trim_first n code # codes) (length a) (length b)"
    using trim_first_tiles get_opcodes_tile [of a b] Cons by metis
  define all_codes where "all_codes = trim_first n code # codes"
  have "all_codes = butlast all_codes @ [last all_codes]" by (simp add: all_codes_def)
  then obtain i j where mid: "tiles a b i0 j0 (butlast all_codes) i j" "tiles a b i j [last all_codes] (length a) (length b)"
    using first(2) unfolding all_codes_def [symmetric] by (metis tiles_append)
  obtain i' j' where "tiles a b i j [trim_last n (last all_codes)] i' j'" "same a b i' j' (length a) (length b)"
    using trim_last_tiles [OF mid(2)] by blast
  then have tile: "tiles a b i0 j0 (butlast all_codes @ [trim_last n (last all_codes)]) i' j'" "same a b i' j' (length a) (length b)"
    using mid(1) tiles_append by blast+
  have "tiles a b i0 j0 [] i0 j0" by simp
  have "get_grouped_opcodes n a b = group_codes n [] (butlast all_codes @ [trim_last n (last all_codes)])"
    by (simp only: get_grouped_opcodes_def Let_def Cons all_codes_def list.simps if_False list.sel)
  then show ?thesis using group_codes_covers [OF first(1) \<open>tiles a b i0 j0 [] i0 j0\<close> tile] by simp
qed

end
