(* ===== verification/HashPatch.thy ===== *)
theory HashPatch
  imports HashDiffFacts
begin

text \<open>
  The contract of a unified diff, stated by a reader of the format that knows nothing of how the diff was
  computed: it checks both positions and both lengths of every hunk, compares every context and every
  removed line with the file, and puts the lines of the hunks in place.  The diff of a plan, read this way,
  turns the old text into the new one.
\<close>

section \<open>Reading a diff\<close>

definition is_digit_point :: "nat \<Rightarrow> bool" where
  "is_digit_point n \<longleftrightarrow> 48 \<le> n \<and> n \<le> 57"

definition read_number :: "chars \<Rightarrow> nat \<times> chars" where
  "read_number s = (foldl (\<lambda>acc c. 10 * acc + (c - 48)) 0 (takeWhile is_digit_point s), dropWhile is_digit_point s)"

definition read_literal :: "string \<Rightarrow> chars \<Rightarrow> chars option" where
  "read_literal lit s = (if take (length lit) s = chars_of lit then Some (drop (length lit) s) else None)"

definition read_span :: "chars \<Rightarrow> ((nat \<times> nat) \<times> chars) option" where
  \<comment> \<open>a start, zero-based, and a length; an empty span names the line before it\<close>
  "read_span s = (case read_number s of (start, s1) \<Rightarrow>
     Option.bind (read_literal '','' s1) (\<lambda>s2. case read_number s2 of (len, s3) \<Rightarrow>
       Some ((if len = 0 then start else start - 1, len), s3)))"

definition read_header :: "chars \<Rightarrow> ((nat \<times> nat) \<times> (nat \<times> nat)) option" where
  "read_header s = Option.bind (read_literal ''@@ -'' s) (\<lambda>s1.
     Option.bind (read_span s1) (\<lambda>(old_span, s2).
     Option.bind (read_literal '' +'' s2) (\<lambda>s3.
     Option.bind (read_span s3) (\<lambda>(new_span, s4).
     if s4 = chars_of '' @@'' @ [10] then Some (old_span, new_span) else None))))"

fun diff_records :: "chars list \<Rightarrow> (nat \<times> chars) list" where
  \<comment> \<open>the lines of a diff with their first character apart; a backslash takes the line feed off the record before\<close>
  "diff_records [] = []"
| "diff_records (l # ls) =
     (if hd l = 92 then diff_records ls
      else (hd l, if ls \<noteq> [] \<and> hd (hd ls) = 92 then butlast (tl l) else tl l) # diff_records ls)"

definition hunk_body :: "(nat \<times> chars) list \<Rightarrow> (nat \<times> chars) list" where
  "hunk_body rs = takeWhile (\<lambda>r. fst r \<noteq> 64) rs"

definition counted :: "nat \<Rightarrow> (nat \<times> chars) list \<Rightarrow> nat" where
  "counted p rs = length (filter (\<lambda>r. fst r = 32 \<or> fst r = p) rs)"

function apply_records :: "nat \<Rightarrow> nat \<Rightarrow> chars list \<Rightarrow> (nat \<times> chars) list \<Rightarrow> chars list option" where
  "apply_records i j old [] = Some old"
| "apply_records i j old ((p, l) # rs) =
     (if p = 64 then
        (case read_header (p # l) of
          None \<Rightarrow> None
        | Some ((old_start, old_len), (new_start, new_len)) \<Rightarrow>
            let gap = old_start - i in
            if i \<le> old_start \<and> gap \<le> length old \<and> new_start = j + gap
               \<and> counted 45 (hunk_body rs) = old_len \<and> counted 43 (hunk_body rs) = new_len
            then map_option ((@) (take gap old)) (apply_records (i + gap) (j + gap) (drop gap old) rs)
            else None)
      else if p = 43 then map_option (Cons l) (apply_records i (j + 1) old rs)
      else if old = [] \<or> l \<noteq> hd old then None
      else if p = 32 then map_option (Cons l) (apply_records (i + 1) (j + 1) (tl old) rs)
      else if p = 45 then apply_records (i + 1) j (tl old) rs
      else None)"
  by pat_completeness auto
termination
  by (relation "measure (\<lambda>(i, j, old, rs). length rs)") auto

definition patch :: "string \<Rightarrow> chars \<Rightarrow> chars \<Rightarrow> chars option" where
  "patch path before diff = (case split_keepends diff of
     h1 # h2 # ls \<Rightarrow>
       if h1 = chars_of (''--- '' @ path) @ [10] \<and> h2 = chars_of (''+++ '' @ path) @ [10]
       then map_option concat (apply_records 0 0 (split_keepends before) (diff_records ls)) else None
   | _ \<Rightarrow> None)"

section \<open>Reading back what is written\<close>

lemma chars_of_simps [simp]: "chars_of [] = []" "chars_of (c # s) = code_point c # chars_of s" "chars_of (s @ t) = chars_of s @ chars_of t"
  "length (chars_of s) = length s"
  by (simp_all add: chars_of_def)

lemma read_literal_Some [simp]: "read_literal lit (chars_of lit @ s) = Some s"
  by (simp add: read_literal_def)

lemma nat_digits_points: "\<forall>c \<in> set (nat_digits n). is_digit_point (code_point c)"
proof (induction n rule: nat_digits.induct)
  case (1 n)
  have "is_digit_point (code_point (char_of (48 + m)))" if "m < 10" for m :: nat
    using that by (simp add: is_digit_point_def code_point_def)
  then show ?case using 1 by (subst nat_digits.simps) auto
qed

lemma nat_digits_read: "foldl (\<lambda>acc c. 10 * acc + (c - 48)) 0 (chars_of (nat_digits n)) = n"
proof (induction n rule: nat_digits.induct)
  case (1 n)
  have "code_point (char_of (48 + m)) - 48 = m" if "m < 10" for m :: nat using that by (simp add: code_point_def)
  then show ?case using 1 by (subst nat_digits.simps) auto
qed

lemma read_number_dec:
  assumes "s = [] \<or> \<not> is_digit_point (hd s)"
  shows "read_number (chars_of (dec (int n)) @ s) = (n, s)"
proof -
  have all: "\<forall>c \<in> set (chars_of (nat_digits n)). is_digit_point c" using nat_digits_points [of n] by (simp add: chars_of_def)
  then have "takeWhile is_digit_point (chars_of (nat_digits n) @ s) = chars_of (nat_digits n)"
    "dropWhile is_digit_point (chars_of (nat_digits n) @ s) = s"
    using assms by (cases s; simp)+
  then show ?thesis using nat_digits_read [of n] by (simp add: read_number_def dec_def)
qed

lemma read_hunk_span:
  assumes "\<not> is_digit_point (hd s)"
  shows "read_span (hunk_span start len @ s) = Some ((start, len), s)"
proof -
  have comma: "\<not> is_digit_point (hd (chars_of '','' @ t))" for t by (simp add: is_digit_point_def code_point_def)
  have zero: "dec 0 = ''0''" by (simp add: dec_def nat_digits.simps char_of_def bit_0)
  show ?thesis
  proof (cases "len = 0")
    case True
    have "hunk_span start len @ s = chars_of (dec (int start)) @ chars_of '','' @ chars_of (dec (int 0)) @ s"
      using True zero by (simp add: hunk_span_def)
    then show ?thesis using True assms comma read_number_dec [of s 0]
      by (simp add: read_span_def read_number_dec del: chars_of_simps(2) of_nat_0)
  next
    case False
    have "hunk_span start len @ s = chars_of (dec (int (start + 1))) @ chars_of '','' @ chars_of (dec (int len)) @ s"
      using False by (simp add: hunk_span_def add.commute)
    then show ?thesis using False assms comma
      by (simp add: read_span_def read_number_dec del: chars_of_simps(2) of_nat_add of_nat_Suc)
  qed
qed

definition hunk_header :: "nat \<Rightarrow> nat \<Rightarrow> nat \<Rightarrow> nat \<Rightarrow> chars" where
  "hunk_header i1 i2 j1 j2 = chars_of ''@@ -'' @ hunk_span i1 (i2 - i1) @ chars_of '' +'' @ hunk_span j1 (j2 - j1) @ chars_of '' @@'' @ [10]"

lemma read_hunk_header: "read_header (hunk_header i1 i2 j1 j2) = Some ((i1, i2 - i1), (j1, j2 - j1))"
proof -
  have "\<not> is_digit_point (hd (chars_of '' +'' @ s))" "\<not> is_digit_point (hd (chars_of '' @@'' @ s))" for s
    by (simp_all add: is_digit_point_def code_point_def)
  then show ?thesis by (simp add: read_header_def hunk_header_def read_hunk_span del: chars_of_simps(2))
qed

section \<open>Lines\<close>

definition full_line :: "chars \<Rightarrow> bool" where
  "full_line l \<longleftrightarrow> l \<noteq> [] \<and> last l = 10 \<and> 10 \<notin> set (butlast l)"

definition line_like :: "chars \<Rightarrow> bool" where
  "line_like l \<longleftrightarrow> full_line l \<or> 10 \<notin> set l"

lemma full_line_Cons: "c \<noteq> 10 \<Longrightarrow> full_line (c # l) \<longleftrightarrow> full_line l"
  by (auto simp: full_line_def)

lemma split_keepends_line: "full_line l \<Longrightarrow> split_keepends (l @ rest) = l # split_keepends rest"
proof (induction l)
  case (Cons c l)
  then show ?case by (cases "c = 10") (auto simp: full_line_Cons, auto simp: full_line_def split: if_splits)
qed (simp add: full_line_def)

lemma split_keepends_concat: "\<forall>l \<in> set ls. full_line l \<Longrightarrow> split_keepends (concat ls) = ls"
  by (induction ls) (simp_all add: split_keepends_line)

lemma concat_split_keepends: "concat (split_keepends s) = s"
  by (induction s rule: split_keepends.induct) (auto split: list.splits)

lemma split_keepends_lines: "l \<in> set (split_keepends s) \<Longrightarrow> line_like l"
proof (induction s arbitrary: l rule: split_keepends.induct)
  case (2 c t)
  show ?case
  proof (cases "c = 10")
    case True
    then show ?thesis using "2.prems" "2.IH"(1) by (auto simp: line_like_def full_line_def)
  next
    case False
    have "line_like (c # l')" if "line_like l'" for l'
      using that False by (auto simp: line_like_def full_line_Cons)
    moreover have "line_like [c]" using False by (simp add: line_like_def)
    ultimately show ?thesis using "2.prems" "2.IH"(2) False by (auto split: list.splits)
  qed
qed simp

section \<open>Records\<close>

definition record_lines :: "nat \<times> chars \<Rightarrow> chars list" where
  "record_lines r = (case r of (p, l) \<Rightarrow>
     if l \<noteq> [] \<and> last l = 10 then [p # l]
     else [p # l @ [10], 92 # chars_of '' No newline at end of file'' @ [10]])"

fun code_records :: "chars list \<Rightarrow> chars list \<Rightarrow> opcode \<Rightarrow> (nat \<times> chars) list" where
  "code_records old new (t, i1, i2, j1, j2) =
     (if t = Equal then map (Pair 32) (slice i1 i2 old)
      else (if t = Insert then [] else map (Pair 45) (slice i1 i2 old))
        @ (if t = Delete then [] else map (Pair 43) (slice j1 j2 new)))"

fun span_of :: "opcode list \<Rightarrow> nat \<times> nat \<times> nat \<times> nat" where
  "span_of grp = (case (hd grp, last grp) of ((_, i1, _, j1, _), (_, _, i2, _, j2)) \<Rightarrow> (i1, i2, j1, j2))"

definition group_records :: "chars list \<Rightarrow> chars list \<Rightarrow> opcode list \<Rightarrow> (nat \<times> chars) list" where
  "group_records old new grp = (case span_of grp of (i1, i2, j1, j2) \<Rightarrow>
     (64, tl (hunk_header i1 i2 j1 j2)) # concat (map (code_records old new) grp))"

lemma record_lines_Pair: "record_lines (p, l) = (if l \<noteq> [] \<and> last l = 10 then [p # l]
     else [p # l @ [10], 92 # chars_of '' No newline at end of file'' @ [10]])"
  by (simp add: record_lines_def)

lemma diff_records_lines:
  assumes "\<forall>r \<in> set rs. fst r \<noteq> 92"
  shows "diff_records (concat (map record_lines rs)) = rs"
  using assms
proof (induction rs)
  case (Cons r rs)
  obtain p l where r: "r = (p, l)" by (cases r)
  have "concat (map record_lines rs) = [] \<or> hd (hd (concat (map record_lines rs))) \<noteq> 92"
    using Cons.prems by (cases rs) (auto simp: record_lines_def split: prod.splits)
  then show ?case using Cons r by (auto simp: record_lines_Pair)
qed simp

lemma emit_records: "concat (map (emit_diff_line [c]) ls) = concat (concat (map record_lines (map (Pair (code_point c)) ls)))"
  by (induction ls) (simp_all add: emit_diff_line_def record_lines_Pair)

lemma prefixes: "code_point CHR '' '' = 32" "code_point CHR ''-'' = 45" "code_point CHR ''+'' = 43"
  by (simp_all add: code_point_def)

lemma emit_opcode_records: "emit_opcode old new code = concat (concat (map record_lines (code_records old new code)))"
  by (cases "(old, new, code)" rule: emit_opcode.cases) (simp_all add: emit_lines_def emit_records prefixes del: map_map)

lemma hunk_header_line: "full_line (hunk_header i1 i2 j1 j2)"
proof -
  have "code_point c \<noteq> 10" if "c \<in> set (dec (int n))" for c n
    using nat_digits_points [of n] that by (auto simp: dec_def is_digit_point_def)
  then have "10 \<notin> set (chars_of (dec (int n)))" for n by (auto simp: chars_of_def)
  then have "10 \<notin> set (hunk_span start len)" for start len
    by (simp add: hunk_span_def code_point_def del: of_nat_add of_nat_Suc) (metis of_nat_Suc add.commute)
  then show ?thesis by (simp add: hunk_header_def full_line_def butlast_append code_point_def)
qed

lemma header_record: "record_lines (64, tl (hunk_header i1 i2 j1 j2)) = [hunk_header i1 i2 j1 j2]"
proof -
  have "hunk_header i1 i2 j1 j2 = 64 # tl (hunk_header i1 i2 j1 j2)" by (simp add: hunk_header_def code_point_def)
  moreover have "tl (hunk_header i1 i2 j1 j2) \<noteq> []" "last (tl (hunk_header i1 i2 j1 j2)) = 10" by (simp_all add: hunk_header_def)
  ultimately show ?thesis by (simp add: record_lines_Pair)
qed

lemma emit_group_records: "emit_group old new grp = concat (concat (map record_lines (group_records old new grp)))"
proof -
  obtain t i1 x j1 y t' x' i2 y' j2 where ends: "hd grp = (t, i1, x, j1, y)" "last grp = (t', x', i2, y', j2)"
    by (metis prod.exhaust)
  have "concat (map (emit_opcode old new) grp) = concat (concat (map record_lines (concat (map (code_records old new) grp))))"
    by (induction grp) (simp_all add: emit_opcode_records)
  then have "concat (concat (map record_lines (group_records old new grp)))
      = hunk_header i1 i2 j1 j2 @ concat (map (emit_opcode old new) grp)"
    by (simp add: group_records_def ends header_record)
  then show ?thesis by (simp add: emit_group_def ends hunk_header_def)
qed

section \<open>Applying the records\<close>

declare apply_records.simps(2) [simp del]

lemma prepend_simps [simp]: "map_option ((@) []) x = x"
  "map_option (Cons a) (map_option ((@) ls) x) = map_option ((@) (a # ls)) x"
  "map_option ((@) ls) (map_option ((@) ls') x) = map_option ((@) (ls @ ls')) x"
  by (cases x; simp)+

lemma apply_context: "apply_records i j (ls @ rest) (map (Pair 32) ls @ rs)
    = map_option ((@) ls) (apply_records (i + length ls) (j + length ls) rest rs)"
  by (induction ls arbitrary: i j) (simp_all add: apply_records.simps(2))

lemma apply_removed: "apply_records i j (ls @ rest) (map (Pair 45) ls @ rs) = apply_records (i + length ls) j rest rs"
  by (induction ls arbitrary: i) (simp_all add: apply_records.simps(2))

lemma apply_added: "apply_records i j old (map (Pair 43) ls @ rs) = map_option ((@) ls) (apply_records i (j + length ls) old rs)"
  by (induction ls arbitrary: j) (simp_all add: apply_records.simps(2))

lemma slice_drop: "i \<le> i' \<Longrightarrow> drop i xs = slice i i' xs @ drop i' xs"
  using append_take_drop_id [of i' xs] drop_append [of i "take i' xs" "drop i' xs"] by (auto simp: slice_def min_def split: if_splits)

lemma slice_append: "i \<le> m \<Longrightarrow> m \<le> n \<Longrightarrow> slice i m xs @ slice m n xs = slice i n xs"
  using slice_drop [of i m "take n xs"] by (simp add: slice_def min_def)

lemma slice_length [simp]: "i' \<le> length xs \<Longrightarrow> length (slice i i' xs) = i' - i"
  by (simp add: slice_def)

lemma slice_subset: "x \<in> set (slice i j xs) \<Longrightarrow> x \<in> set xs"
  by (metis in_set_dropD in_set_takeD slice_def)

lemma same_slice: "same a b i j i' j' \<Longrightarrow> slice i i' a = slice j j' b"
proof (rule nth_equalityI)
  assume *: "same a b i j i' j'"
  then show len: "length (slice i i' a) = length (slice j j' b)" by (auto simp: same_def matched_def slice_def)
  show "slice i i' a ! m = slice j j' b ! m" if "m < length (slice i i' a)" for m
    using * that by (auto simp: same_def matched_def slice_def)
qed

lemma apply_code:
  assumes "code_ok old new (t, i1, i2, j1, j2)"
  shows "apply_records i1 j1 (drop i1 old) (code_records old new (t, i1, i2, j1, j2) @ rs)
    = map_option ((@) (slice j1 j2 new)) (apply_records i2 j2 (drop i2 old) rs)"
proof -
  have le: "i1 \<le> i2" "i2 \<le> length old" "j1 \<le> j2" "j2 \<le> length new" using assms by (auto simp: code_ok.simps)
  have old: "drop i1 old = slice i1 i2 old @ drop i2 old" using slice_drop le by blast
  show ?thesis
  proof (cases t)
    case Equal
    then have eq: "slice i1 i2 old = slice j1 j2 new" "i2 - i1 = j2 - j1"
      using assms same_slice [of old new i1 j1 i2 j2] by (auto simp: code_ok.simps same_def)
    then have "i1 + (j2 - j1) = i2" "j1 + (j2 - j1) = j2" using le by auto
    then show ?thesis using Equal le eq apply_context [of i1 j1 "slice j1 j2 new" "drop i2 old" rs] by (simp add: old)
  next
    case Insert
    then have "i1 = i2" using assms by (simp add: code_ok.simps)
    then show ?thesis using Insert le by (simp add: apply_added)
  next
    case Delete
    then have "j1 = j2" using assms by (simp add: code_ok.simps)
    then show ?thesis using Delete le by (simp add: old apply_removed slice_def)
  next
    case Replace
    then show ?thesis using le by (simp add: old apply_removed apply_added)
  qed
qed

lemma apply_codes:
  "tiles old new i j codes i' j' \<Longrightarrow> apply_records i j (drop i old) (concat (map (code_records old new) codes) @ rs)
    = map_option ((@) (slice j j' new)) (apply_records i' j' (drop i' old) rs) \<and> i \<le> i' \<and> j \<le> j'
      \<and> (i \<le> length old \<longrightarrow> i' \<le> length old) \<and> (j \<le> length new \<longrightarrow> j' \<le> length new)"
proof (induction old new i j codes i' j' rule: tiles.induct)
  case (1 a b i j i' j')
  then show ?case by (simp add: slice_def option.map_ident)
next
  case (2 a b i j t i1 i2 j1 j2 codes i' j')
  have ok: "i1 = i" "j1 = j" "code_ok a b (t, i1, i2, j1, j2)" "tiles a b i2 j2 codes i' j'" using "2.prems" by simp_all
  note rest = "2.IH" [OF ok(4)]
  have le: "i \<le> i2" "i2 \<le> length a" "j \<le> j2" "j2 \<le> length b" using ok by (auto simp: code_ok.simps)
  then have "slice j j' b = slice j j2 b @ slice j2 j' b" using rest by (simp add: slice_append)
  then show ?case using rest le ok apply_code [OF ok(3)]
    by (cases "apply_records i' j' (drop i' a) rs") (simp_all del: code_records.simps)
qed

lemma counted_append [simp]: "counted p (xs @ ys) = counted p xs + counted p ys"
  by (simp add: counted_def)

lemma counted_map: "counted p (map (Pair q) ls) = (if q = 32 \<or> q = p then length ls else 0)"
  by (simp add: counted_def filter_map comp_def)

lemma counted_code:
  assumes "code_ok old new (t, i1, i2, j1, j2)"
  shows "counted 45 (code_records old new (t, i1, i2, j1, j2)) = i2 - i1" "counted 43 (code_records old new (t, i1, i2, j1, j2)) = j2 - j1"
  using assms by (cases t; auto simp: code_ok.simps counted_map same_def counted_def [of _ "[]"])+

lemma counted_codes:
  "tiles old new i j codes i' j' \<Longrightarrow> i \<le> i' \<and> j \<le> j' \<and> counted 45 (concat (map (code_records old new) codes)) = i' - i
    \<and> counted 43 (concat (map (code_records old new) codes)) = j' - j"
proof (induction old new i j codes i' j' rule: tiles.induct)
  case (1 a b i j i' j')
  then show ?case by (simp add: counted_def)
next
  case (2 a b i j t i1 i2 j1 j2 codes i' j')
  have ok: "i1 = i" "j1 = j" "code_ok a b (t, i1, i2, j1, j2)" "tiles a b i2 j2 codes i' j'" using "2.prems" by simp_all
  then have "i \<le> i2" "j \<le> j2" by (auto simp: code_ok.simps)
  then show ?case using "2.IH" [OF ok(4)] counted_code [OF ok(3)] ok(1,2) by (simp del: code_records.simps)
qed

lemma code_records_prefix: "r \<in> set (code_records old new code) \<Longrightarrow> fst r \<in> {32, 43, 45}"
  by (cases code) (auto split: if_splits)

lemma hunk_body_codes:
  assumes "rs = [] \<or> fst (hd rs) = 64"
  shows "hunk_body (concat (map (code_records old new) codes) @ rs) = concat (map (code_records old new) codes)"
proof -
  have "\<forall>r \<in> set (concat (map (code_records old new) codes)). fst r \<noteq> 64" using code_records_prefix by fastforce
  then have "hunk_body (concat (map (code_records old new) codes) @ rs) = concat (map (code_records old new) codes) @ hunk_body rs"
    unfolding hunk_body_def by (intro takeWhile_append2) auto
  then show ?thesis using assms by (cases rs) (simp_all add: hunk_body_def)
qed

lemma span_of_tiles: "tiles a b i1 j1 grp i2 j2 \<Longrightarrow> grp \<noteq> [] \<Longrightarrow> span_of grp = (i1, i2, j1, j2)"
proof -
  assume tile: "tiles a b i1 j1 grp i2 j2" "grp \<noteq> []"
  then have "fst (snd (snd (last grp))) = i2 \<and> snd (snd (snd (snd (last grp)))) = j2"
    by (induction a b i1 j1 grp i2 j2 rule: tiles.induct) (auto split: if_splits)
  moreover have "fst (snd (hd grp)) = i1 \<and> fst (snd (snd (snd (hd grp)))) = j1"
    using tile by (cases grp) auto
  ultimately show ?thesis by (auto split: prod.splits)
qed

declare span_of.simps [simp del]

lemma group_records_first: "fst (hd (concat (map (group_records old new) grps))) = 64 \<or> concat (map (group_records old new) grps) = []"
  by (cases grps) (auto simp: group_records_def split: prod.splits)

lemma apply_groups:
  assumes "covers old new i j grps"
  shows "apply_records i j (drop i old) (concat (map (group_records old new) grps)) = Some (drop j new)"
  using assms
proof (induction grps arbitrary: i j)
  case Nil
  then show ?case using same_slice [of old new i j "length old" "length new"] by (simp add: slice_def)
next
  case (Cons grp grps)
  obtain i1 j1 i2 j2 where cov: "grp \<noteq> []" "same old new i j i1 j1" "tiles old new i1 j1 grp i2 j2" "covers old new i2 j2 grps"
    using Cons.prems by auto
  let ?body = "concat (map (code_records old new) grp)" and ?rest = "concat (map (group_records old new) grps)"
  have at: "i \<le> i1" "j \<le> j1" "i1 - i = j1 - j" "i1 \<le> length old" "j1 \<le> length new" "slice i i1 old = slice j j1 new"
    using cov(2) same_slice [OF cov(2)] by (auto simp: same_def matched_def)
  have head: "64 # tl (hunk_header i1 i2 j1 j2) = hunk_header i1 i2 j1 j2" by (simp add: hunk_header_def code_point_def)
  have body: "hunk_body (?body @ ?rest) = ?body" using hunk_body_codes group_records_first by blast
  have taken: "take (i1 - i) (drop i old) = slice j j1 new" using at(6) by (simp add: slice_def take_drop at(1))
  have moved: "drop (i1 - i) (drop i old) = drop i1 old" "i + (i1 - i) = i1" "j + (i1 - i) = j1"
    using at(1) by (simp_all only: drop_drop le_add_diff_inverse le_add_diff_inverse2) (use at(2,3) in simp)
  have fits: "i1 - i \<le> length old - i" using at(4) by simp
  have run: "apply_records i1 j1 (drop i1 old) (?body @ ?rest) = Some (slice j1 j2 new @ drop j2 new)"
    using apply_codes [OF cov(3), of ?rest] Cons.IH [OF cov(4)] by simp
  have count: "i1 \<le> i2" "j1 \<le> j2" "counted 45 ?body = i2 - i1" "counted 43 ?body = j2 - j1" using counted_codes [OF cov(3)] by simp_all
  have "apply_records i j (drop i old) (group_records old new grp @ ?rest)
      = map_option ((@) (slice j j1 new)) (apply_records i1 j1 (drop i1 old) (?body @ ?rest))"
    using at(1) fits count body taken moved
    by (simp add: group_records_def span_of_tiles [OF cov(3,1)] apply_records.simps(2) head read_hunk_header Let_def del: drop_drop)
  also have "\<dots> = Some (drop j new)" using at(2) count(2) slice_drop [of j j1 new] slice_drop [of j1 j2 new] by (simp add: run)
  finally show ?case by simp
qed

section \<open>The contract\<close>

lemma records_full:
  assumes "r \<in> set (group_records (split_keepends before) (split_keepends after) grp)" "l \<in> set (record_lines r)"
  shows "full_line l"
proof -
  have full: "full_line l" if "line_like c" "p \<noteq> 10" "l \<in> set (record_lines (p, c))" for p c
  proof -
    have "10 \<notin> set (chars_of '' No newline at end of file'')" by (simp add: code_point_def)
    then show ?thesis using that
      by (auto simp: record_lines_Pair line_like_def full_line_def butlast_append split: if_splits dest: in_set_butlastD)
  qed
  obtain i1 i2 j1 j2 where span: "span_of grp = (i1, i2, j1, j2)" by (metis prod.exhaust)
  have "r = (64, tl (hunk_header i1 i2 j1 j2)) \<or> (\<exists>code. r \<in> set (code_records (split_keepends before) (split_keepends after) code))"
    using assms(1) by (auto simp: group_records_def span simp del: code_records.simps)
  then show ?thesis
  proof
    assume "\<exists>code. r \<in> set (code_records (split_keepends before) (split_keepends after) code)"
    then obtain code where code: "r \<in> set (code_records (split_keepends before) (split_keepends after) code)" by blast
    then have "snd r \<in> set (split_keepends before) \<or> snd r \<in> set (split_keepends after)"
      by (cases code) (auto split: if_splits dest: slice_subset)
    then have "line_like (snd r)" using split_keepends_lines by blast
    then show ?thesis using full [of "snd r" "fst r"] assms(2) code_records_prefix [OF code] by auto
  qed (use assms(2) header_record hunk_header_line in auto)
qed

lemma header_lines: "10 \<notin> set (chars_of path) \<Longrightarrow> full_line (chars_of (''--- '' @ path) @ [10]) \<and> full_line (chars_of (''+++ '' @ path) @ [10])"
  by (simp add: full_line_def butlast_append code_point_def)

lemma diff_correct:
  assumes "10 \<notin> set (chars_of path)"
  shows "patch path before (unified_diff_text path before after) = Some after"
proof -
  let ?old = "split_keepends before" and ?new = "split_keepends after"
  define grps where "grps = get_grouped_opcodes UNIFIED_DIFF_CONTEXT ?old ?new"
  define rs where "rs = concat (map (group_records ?old ?new) grps)"
  let ?h1 = "chars_of (''--- '' @ path) @ [10]" and ?h2 = "chars_of (''+++ '' @ path) @ [10]"
  have "concat (map (emit_group ?old ?new) grps) = concat (concat (map record_lines rs))"
    unfolding rs_def by (induction grps) (simp_all add: emit_group_records)
  then have diff: "unified_diff_text path before after = concat (?h1 # ?h2 # concat (map record_lines rs))"
    by (simp add: unified_diff_text_def Let_def grps_def)
  have "\<forall>l \<in> set (concat (map record_lines rs)). full_line l" using records_full unfolding rs_def by fastforce
  then have split: "split_keepends (unified_diff_text path before after) = ?h1 # ?h2 # concat (map record_lines rs)"
    unfolding diff using header_lines [OF assms] by (intro split_keepends_concat) simp
  have "\<forall>r \<in> set rs. fst r \<noteq> 92"
    using code_records_prefix unfolding rs_def group_records_def by (fastforce split: prod.splits)
  then have "diff_records (concat (map record_lines rs)) = rs" by (rule diff_records_lines)
  moreover have "apply_records 0 0 ?old rs = Some ?new"
    using apply_groups [OF get_grouped_opcodes_covers [of ?old ?new UNIFIED_DIFF_CONTEXT]] unfolding rs_def grps_def by simp
  ultimately show ?thesis by (simp add: patch_def split concat_split_keepends)
qed

text \<open>C14: the unified diff of any two texts is correct: read as a patch, with both positions and both lengths of every hunk
  checked and every context and removed line compared with the old text, it yields the new text, line ends and the missing
  line feed at the end included\<close>
theorem diff_patches:
  assumes "10 \<notin> set (chars_of path)"
  shows "patch path before (unified_diff_text path before after) = Some after"
  using assms by (rule diff_correct)

lemma diff_patches_witness:
  "patch ''f'' [97, 10, 98] (unified_diff_text ''f'' [97, 10, 98] [97, 10, 99, 10]) = Some [97, 10, 99, 10]"
  by (rule diff_patches) (simp add: code_point_def)

end
