(* ===== verification/HashDescriptor.thy ===== *)
theory HashDescriptor
  imports CanonicalJsonFacts HashText
begin

text \<open>
  The descriptor of an edit (\<open>hash_edit/descriptor.py\<close>): a strict record of the text to replace, its
  context, the hashes that bind them and the policy for a file that has changed, with a canonical
  encoding and a digest.  Strings of the model have code points up to 255, all of which are their
  own NFC form; of these only the soft hyphen is a format character.
\<close>

datatype hash_exc = HashDescriptorError | HashInputError | HashBindError | HashStaleError | HashAmbiguousError
  | HashPlannerError | HashApplyError | HashPathError | HashConcurrencyError | HashRaised wf_exc

section \<open>Fields\<close>

definition as_descriptor_error :: "wf_exc + 'a \<Rightarrow> hash_exc + 'a" where
  "as_descriptor_error r = (case r of Inl e \<Rightarrow> Inl HashDescriptorError | Inr x \<Rightarrow> Inr x)"

definition descriptor_check :: "bool \<Rightarrow> hash_exc + unit" where
  "descriptor_check b = check b HashDescriptorError"

definition content_sha256 :: "string \<Rightarrow> string" where
  "content_sha256 s = sha256_hex (utf8 s)"

definition is_control :: "char \<Rightarrow> bool" where
  \<comment> \<open>the category Cc and DEL\<close>
  "is_control c \<longleftrightarrow> code_point c < 32 \<or> (127 \<le> code_point c \<and> code_point c \<le> 159)"

definition no_control :: "bool \<Rightarrow> string \<Rightarrow> bool" where
  \<comment> \<open>\<open>_reject_control_or_surrogate\<close> does not raise; the flag lets tabs and line ends through\<close>
  "no_control allow_text s \<longleftrightarrow>
     list_all (\<lambda>c. (allow_text \<and> code_point c \<in> {9, 10, 13}) \<or> \<not> is_control c) s"

definition is_alpha :: "char \<Rightarrow> bool" where
  \<comment> \<open>\<open>str.isalpha\<close> on code points below 256\<close>
  "is_alpha c \<longleftrightarrow> (let n = code_point c in (65 \<le> n \<and> n \<le> 90) \<or> (97 \<le> n \<and> n \<le> 122) \<or> n \<in> {170, 181, 186}
     \<or> (192 \<le> n \<and> n \<le> 255 \<and> n \<noteq> 215 \<and> n \<noteq> 247))"

definition MAX_PATH_CHARS :: nat where "MAX_PATH_CHARS = 512"
definition MAX_PRODUCER_CHARS :: nat where "MAX_PRODUCER_CHARS = 256"
definition MAX_TEXT_CHARS :: nat where "MAX_TEXT_CHARS = 262144"
definition MAX_CONTEXT_CHARS :: nat where "MAX_CONTEXT_CHARS = 16384"
definition MAX_RANGE_SPAN :: int where "MAX_RANGE_SPAN = 100000"

definition path_part_ok :: "string \<Rightarrow> bool" where
  "path_part_ok p \<longleftrightarrow> p \<notin> {''.'', ''..'', []} \<and> strip p = p \<and> last p \<noteq> CHR ''.''"

definition workspace_path_ok :: "string \<Rightarrow> bool" where
  "workspace_path_ok s \<longleftrightarrow> s \<noteq> [] \<and> length s \<le> MAX_PATH_CHARS \<and> char_of (92 :: nat) \<notin> set s \<and> no_control False s
     \<and> list_all (\<lambda>c. code_point c \<noteq> 173) s \<and> hd s \<notin> set ''/~''
     \<and> \<not> (2 \<le> length s \<and> s ! 1 = CHR '':'' \<and> is_alpha (hd s))
     \<and> posix_parts s \<noteq> [] \<and> list_all path_part_ok (posix_parts s) \<and> join ''/'' (posix_parts s) = s"

definition require_workspace_relpath :: "json \<Rightarrow> hash_exc + string" where
  "require_workspace_relpath v = (case text_val v of
     None \<Rightarrow> Inl HashDescriptorError
   | Some s \<Rightarrow> bindE (descriptor_check (workspace_path_ok s)) (\<lambda>_. Inr s))"

definition require_producer :: "json \<Rightarrow> hash_exc + string" where
  "require_producer v = (case text_val v of
     None \<Rightarrow> Inl HashDescriptorError
   | Some s \<Rightarrow> bindE (descriptor_check (s \<noteq> [] \<and> length s \<le> MAX_PRODUCER_CHARS \<and> no_control False s)) (\<lambda>_. Inr s))"

definition require_content_text :: "nat \<Rightarrow> json \<Rightarrow> hash_exc + string" where
  "require_content_text max_chars v = (case text_val v of
     None \<Rightarrow> Inl HashDescriptorError
   | Some s \<Rightarrow> bindE (descriptor_check (length s \<le> max_chars \<and> no_control True s)) (\<lambda>_. Inr s))"

definition require_bound_hash :: "string \<Rightarrow> json \<Rightarrow> hash_exc + string" where
  "require_bound_hash s digest = bindE (as_descriptor_error (require_sha256 digest)) (\<lambda>expected.
     bindE (descriptor_check (content_sha256 s = expected)) (\<lambda>_. Inr expected))"

definition number_at :: "nat \<Rightarrow> nat \<Rightarrow> string \<Rightarrow> int" where
  "number_at i n s = foldl (\<lambda>a c. 10 * a + digit_val c) 0 (take n (drop i s))"

definition days_in_month :: "int \<Rightarrow> int \<Rightarrow> int" where
  "days_in_month y m = (if m = 2 then (if y mod 4 = 0 \<and> (y mod 100 \<noteq> 0 \<or> y mod 400 = 0) then 29 else 28)
     else if m \<in> {4, 6, 9, 11} then 30 else 31)"

definition expires_ok :: "string \<Rightarrow> bool" where
  \<comment> \<open>\<open>_EXPIRES_AT_RE\<close>, the bounds of the year, and \<open>datetime(...)\<close> does not raise\<close>
  "expires_ok s \<longleftrightarrow> list_all2 (\<lambda>p c. if p = CHR ''d'' then is_digit c else c = p) ''dddd-dd-ddTdd:dd:ddZ'' s
     \<and> (let y = number_at 0 4 s; m = number_at 5 2 s; d = number_at 8 2 s in
        2000 \<le> y \<and> y \<le> 2100 \<and> 1 \<le> m \<and> m \<le> 12 \<and> 1 \<le> d \<and> d \<le> days_in_month y m
        \<and> number_at 11 2 s < 24 \<and> number_at 14 2 s < 60 \<and> number_at 17 2 s < 60)"

definition require_expires_at :: "json \<Rightarrow> hash_exc + string" where
  "require_expires_at v = (case text_val v of
     None \<Rightarrow> Inl HashDescriptorError
   | Some s \<Rightarrow> bindE (descriptor_check (expires_ok s)) (\<lambda>_. Inr s))"

definition optional_field :: "dict \<Rightarrow> string \<Rightarrow> (json \<Rightarrow> hash_exc + 'a) \<Rightarrow> hash_exc + 'a option" where
  "optional_field d k f = (if has_key d k then bindE (f (dget d k)) (\<lambda>x. Inr (Some x)) else Inr None)"

definition optional_line_range :: "dict \<Rightarrow> hash_exc + (int \<times> int) option" where
  "optional_line_range d =
     bindE (descriptor_check (has_key d ''original_start_line'' = has_key d ''original_end_line'')) (\<lambda>_.
     if \<not> has_key d ''original_start_line'' then Inr None
     else
       bindE (as_descriptor_error (require_integer (dget d ''original_start_line'') (Some 1))) (\<lambda>start.
       bindE (as_descriptor_error (require_integer (dget d ''original_end_line'') (Some 1))) (\<lambda>stop.
       bindE (descriptor_check (start \<le> stop)) (\<lambda>_.
       bindE (descriptor_check (stop - start + 1 \<le> MAX_RANGE_SPAN)) (\<lambda>_. Inr (Some (start, stop)))))))"

section \<open>The descriptor\<close>

record descriptor =
  d_edit_id :: string
  d_producer :: string
  d_path :: string
  d_base_sha256 :: string
  d_old_text :: string
  d_replacement :: string
  d_before :: string
  d_after :: string
  d_old_text_sha256 :: string
  d_replacement_sha256 :: string
  d_before_sha256 :: string
  d_after_sha256 :: string
  d_run_id :: "string option"
  d_task_id :: "string option"
  d_lines :: "(int \<times> int) option"
    \<comment> \<open>\<open>original_start_line\<close> and \<open>original_end_line\<close>, which come together\<close>
  d_revalidation :: "string option"
  d_expires_at :: "string option"

definition REQUIRED_KEYS :: "string list" where
  "REQUIRED_KEYS = [''schema_version'', ''kind'', ''edit_id'', ''producer'', ''path'', ''base_sha256'', ''old_text'',
     ''replacement'', ''before_context'', ''after_context'', ''old_text_sha256'', ''replacement_sha256'',
     ''before_context_sha256'', ''after_context_sha256'']"

definition OPTIONAL_KEYS :: "string list" where
  "OPTIONAL_KEYS = [''run_id'', ''task_id'', ''original_start_line'', ''original_end_line'', ''revalidation'', ''expires_at'']"

definition HASH_EDIT_KIND :: string where "HASH_EDIT_KIND = ''omg.hash_edit.v1''"

definition REVALIDATION_POLICIES :: "string list" where
  "REVALIDATION_POLICIES = [''require_base'', ''unique_shift'']"

definition require_safe_text :: "json \<Rightarrow> hash_exc + string" where
  "require_safe_text v = as_descriptor_error (require_safe_id v)"

definition require_policy :: "json \<Rightarrow> hash_exc + string" where
  "require_policy v = bindE (descriptor_check (text_in v REVALIDATION_POLICIES)) (\<lambda>_. Inr (text_of v))"

definition validated_fields :: "dict \<Rightarrow> hash_exc + descriptor" where
  "validated_fields d =
     bindE (as_descriptor_error (require_exact_keys d REQUIRED_KEYS OPTIONAL_KEYS)) (\<lambda>_.
     bindE (as_descriptor_error (require_integer (dget d ''schema_version'') (Some 1))) (\<lambda>version.
     bindE (descriptor_check (version = 1)) (\<lambda>_.
     bindE (descriptor_check (text_in (dget d ''kind'') [HASH_EDIT_KIND])) (\<lambda>_.
     bindE (require_safe_text (dget d ''edit_id'')) (\<lambda>edit_id.
     bindE (require_producer (dget d ''producer'')) (\<lambda>producer.
     bindE (require_workspace_relpath (dget d ''path'')) (\<lambda>path.
     bindE (as_descriptor_error (require_sha256 (dget d ''base_sha256''))) (\<lambda>base.
     bindE (require_content_text MAX_TEXT_CHARS (dget d ''old_text'')) (\<lambda>old_text.
     bindE (require_content_text MAX_TEXT_CHARS (dget d ''replacement'')) (\<lambda>replacement.
     bindE (require_content_text MAX_CONTEXT_CHARS (dget d ''before_context'')) (\<lambda>before.
     bindE (require_content_text MAX_CONTEXT_CHARS (dget d ''after_context'')) (\<lambda>after.
     bindE (require_bound_hash old_text (dget d ''old_text_sha256'')) (\<lambda>old_hash.
     bindE (require_bound_hash replacement (dget d ''replacement_sha256'')) (\<lambda>replacement_hash.
     bindE (require_bound_hash before (dget d ''before_context_sha256'')) (\<lambda>before_hash.
     bindE (require_bound_hash after (dget d ''after_context_sha256'')) (\<lambda>after_hash.
     bindE (optional_field d ''run_id'' require_safe_text) (\<lambda>run_id.
     bindE (optional_field d ''task_id'' require_safe_text) (\<lambda>task_id.
     bindE (optional_line_range d) (\<lambda>line_range.
     bindE (optional_field d ''revalidation'' require_policy) (\<lambda>policy.
     bindE (optional_field d ''expires_at'' require_expires_at) (\<lambda>expires_at.
     Inr \<lparr>d_edit_id = edit_id, d_producer = producer, d_path = path, d_base_sha256 = base, d_old_text = old_text,
       d_replacement = replacement, d_before = before, d_after = after, d_old_text_sha256 = old_hash,
       d_replacement_sha256 = replacement_hash, d_before_sha256 = before_hash, d_after_sha256 = after_hash,
       d_run_id = run_id, d_task_id = task_id, d_lines = line_range, d_revalidation = policy,
       d_expires_at = expires_at\<rparr>)))))))))))))))))))))"

definition opt_entry :: "string \<Rightarrow> string option \<Rightarrow> dict" where
  "opt_entry k v = (case v of None \<Rightarrow> [] | Some s \<Rightarrow> [(k, JStr s)])"

definition range_entry :: "(int \<times> int) option \<Rightarrow> dict" where
  "range_entry r = (case r of None \<Rightarrow> []
     | Some (start, stop) \<Rightarrow> [(''original_end_line'', JInt stop), (''original_start_line'', JInt start)])"

definition to_canonical_mapping :: "descriptor \<Rightarrow> dict" where
  "to_canonical_mapping x =
     [(''after_context'', JStr (d_after x)), (''after_context_sha256'', JStr (d_after_sha256 x)),
      (''base_sha256'', JStr (d_base_sha256 x)), (''before_context'', JStr (d_before x)),
      (''before_context_sha256'', JStr (d_before_sha256 x)), (''edit_id'', JStr (d_edit_id x)),
      (''kind'', JStr HASH_EDIT_KIND), (''old_text'', JStr (d_old_text x)),
      (''old_text_sha256'', JStr (d_old_text_sha256 x)), (''path'', JStr (d_path x)), (''producer'', JStr (d_producer x)),
      (''replacement'', JStr (d_replacement x)), (''replacement_sha256'', JStr (d_replacement_sha256 x)),
      (''schema_version'', JInt 1)]
     @ opt_entry ''expires_at'' (d_expires_at x)
     @ range_entry (d_lines x)
     @ opt_entry ''revalidation'' (d_revalidation x) @ opt_entry ''run_id'' (d_run_id x) @ opt_entry ''task_id'' (d_task_id x)"

definition descriptor_bytes :: "descriptor \<Rightarrow> wf_exc + bytes" where
  \<comment> \<open>\<open>canonical_bytes\<close>\<close>
  "descriptor_bytes x = canonical_json_bytes (JObj (to_canonical_mapping x))"

definition descriptor_digest :: "descriptor \<Rightarrow> hash_exc + string" where
  "descriptor_digest x = (case descriptor_bytes x of Inl e \<Rightarrow> Inl (HashRaised e) | Inr b \<Rightarrow> Inr (sha256_hex b))"

definition construct_descriptor :: "descriptor \<Rightarrow> hash_exc + descriptor" where
  \<comment> \<open>\<open>__post_init__\<close> validates the fields again\<close>
  "construct_descriptor x = bindE (validated_fields (to_canonical_mapping x)) (\<lambda>checked.
     bindE (descriptor_check (checked = x)) (\<lambda>_. Inr x))"

definition parse_mapping :: "dict \<Rightarrow> hash_exc + descriptor" where
  "parse_mapping d = bindE (validated_fields d) construct_descriptor"

datatype descriptor_input = DescMapping dict | DescBytes bytes | DescText string | DescOther

definition parse_descriptor_bytes :: "bytes \<Rightarrow> hash_exc + descriptor" where
  "parse_descriptor_bytes b =
     bindE (as_descriptor_error (parse_canonical_json_bytes b)) (\<lambda>v. case v of
       JObj d \<Rightarrow> bindE (parse_mapping d) (\<lambda>x. case descriptor_bytes x of
           Inl e \<Rightarrow> Inl (HashRaised e)
         | Inr b' \<Rightarrow> if b' \<noteq> b then Inl HashDescriptorError else Inr x)
     | _ \<Rightarrow> Inl HashDescriptorError)"

fun parse_hash_edit_descriptor :: "descriptor_input \<Rightarrow> hash_exc + descriptor" where
  "parse_hash_edit_descriptor (DescMapping d) = parse_mapping d"
| "parse_hash_edit_descriptor (DescBytes b) = parse_descriptor_bytes b"
| "parse_hash_edit_descriptor (DescText s) = parse_descriptor_bytes (utf8 s)"
| "parse_hash_edit_descriptor DescOther = Inl HashDescriptorError"

end
