(* ===== verification/HashPlanner.thy ===== *)
theory HashPlanner
  imports HashDescriptor HashDiff
begin

text \<open>
  The planner (\<open>hash_edit/planner.py\<close>): a pure function of a descriptor and the bytes of a file that
  finds the one place where context and old text occur, decides by the policy of the descriptor whether a
  changed file may be edited, and returns a plan or one of its typed errors.  The listing of candidates
  in the messages is not modelled.
\<close>

section \<open>Candidates\<close>

definition MAX_PLAN_FILE_BYTES :: nat where "MAX_PLAN_FILE_BYTES = 16 * 1024 * 1024"

definition begins_with :: "chars \<Rightarrow> chars \<Rightarrow> bool" where
  "begins_with s p \<longleftrightarrow> take (length p) s = p"

fun find_in :: "chars \<Rightarrow> chars \<Rightarrow> nat \<Rightarrow> nat option" where
  "find_in needle [] i = (if needle = [] then Some i else None)"
| "find_in needle (c # t) i = (if begins_with (c # t) needle then Some i else find_in needle t (i + 1))"

definition find_from :: "chars \<Rightarrow> chars \<Rightarrow> nat \<Rightarrow> nat option" where
  \<comment> \<open>\<open>haystack.find(needle, start)\<close>, where \<open>-1\<close> is \<open>None\<close>\<close>
  "find_from haystack needle start = (if length haystack < start then None else find_in needle (drop start haystack) start)"

lemma find_in_bounds: "find_in needle t i = Some k \<Longrightarrow> i \<le> k \<and> k \<le> i + length t"
  by (induction needle t i rule: find_in.induct) (auto split: if_splits)

lemma find_from_bounds: "find_from haystack needle start = Some k \<Longrightarrow> start \<le> k \<and> k \<le> length haystack"
  using find_in_bounds by (fastforce simp: find_from_def split: if_splits)

function finds_from :: "chars \<Rightarrow> chars \<Rightarrow> nat \<Rightarrow> nat list" where
  \<comment> \<open>the loop of \<open>_char_finds\<close> from a value of \<open>start\<close>\<close>
  "finds_from haystack needle start = (case find_from haystack needle start of
       None \<Rightarrow> []
     | Some i \<Rightarrow> i # finds_from haystack needle (i + 1))"
  by auto
termination
  by (relation "measure (\<lambda>(haystack, needle, start). length haystack + 1 - start)") (auto dest: find_from_bounds)

declare finds_from.simps [simp del]

definition char_finds :: "chars \<Rightarrow> chars \<Rightarrow> nat list" where
  "char_finds haystack needle = finds_from haystack needle 0"

definition utf8_offset :: "chars \<Rightarrow> nat \<Rightarrow> nat" where
  "utf8_offset t i = length (encode_text (take i t))"

definition line_start_offsets :: "bytes \<Rightarrow> nat list" where
  "line_start_offsets data =
     (let starts = 0 # map Suc (filter (\<lambda>i. data ! i = 10) [0..<length data]) in
      if 1 < length starts \<and> last data = 10 then butlast starts else starts)"

fun line_loop :: "nat \<Rightarrow> nat \<Rightarrow> nat list \<Rightarrow> nat \<Rightarrow> nat" where
  \<comment> \<open>the loop of \<open>_line_of\<close>: the line so far and the index of the next start\<close>
  "line_loop line i [] offset = line"
| "line_loop line i (s # starts) offset = (if s \<le> offset then line_loop (i + 1) (i + 1) starts offset else line)"

definition line_of :: "nat list \<Rightarrow> nat \<Rightarrow> nat" where
  "line_of starts offset = line_loop 1 0 starts offset"

record candidate =
  c_start :: nat
  c_end :: nat
  c_first :: nat
  c_last :: nat

definition candidate_from_match :: "chars \<Rightarrow> bytes \<Rightarrow> nat list \<Rightarrow> nat \<Rightarrow> string \<Rightarrow> string \<Rightarrow> hash_exc + candidate" where
  "candidate_from_match t data starts hit before old_text =
     (let start = utf8_offset t (hit + length before);
          stop = start + length (utf8 old_text);
          first_line = line_of starts start;
          last_line = (if stop = start then first_line else line_of starts (stop - 1)) in
      bindE (check (\<not> (length data < stop \<or> length data < start)) HashPlannerError) (\<lambda>_.
      Inr \<lparr>c_start = start, c_end = stop, c_first = first_line, c_last = last_line\<rparr>))"

section \<open>Plans\<close>

record plan =
  p_descriptor_digest :: string
  p_path :: string
  p_before_sha256 :: string
  p_after_sha256 :: string
  p_start :: int
  p_end :: int
  p_first_line :: int
  p_last_line :: int
  p_rebased :: bool
  p_diff :: chars
  p_diff_sha256 :: string

definition as_planner_error :: "hash_exc \<Rightarrow> 'e + 'a \<Rightarrow> hash_exc + 'a" where
  \<comment> \<open>\<open>raise ... from exc\<close>\<close>
  "as_planner_error e r = (case r of Inl e' \<Rightarrow> Inl e | Inr x \<Rightarrow> Inr x)"

definition construct_plan :: "plan \<Rightarrow> hash_exc + plan" where
  \<comment> \<open>\<open>__post_init__\<close>; a diff with a surrogate has no UTF-8\<close>
  "construct_plan p =
     bindE (as_planner_error HashPlannerError (require_workspace_relpath (JStr (p_path p)))) (\<lambda>_.
     bindE (as_planner_error HashPlannerError
       (mapE (\<lambda>s. require_sha256 (JStr s)) [p_descriptor_digest p, p_before_sha256 p, p_after_sha256 p, p_diff_sha256 p])) (\<lambda>_.
     bindE (check (0 \<le> p_start p \<and> p_start p \<le> p_end p) HashPlannerError) (\<lambda>_.
     bindE (check (1 \<le> p_first_line p \<and> p_first_line p \<le> p_last_line p) HashPlannerError) (\<lambda>_.
     bindE (check (list_all scalar (p_diff p)) (HashRaised (Raised ValueError))) (\<lambda>_.
     bindE (check (sha256_hex (encode_text (p_diff p)) = p_diff_sha256 p) HashPlannerError) (\<lambda>_. Inr p))))))"

record current_fact =
  f_path :: string
  f_bytes :: bytes

definition construct_fact :: "json \<Rightarrow> bytes \<Rightarrow> hash_exc + current_fact" where
  "construct_fact path body = bindE (as_planner_error HashInputError (require_workspace_relpath path)) (\<lambda>p.
     Inr \<lparr>f_path = p, f_bytes = body\<rparr>)"

definition require_current_bytes :: "bytes \<Rightarrow> hash_exc + bytes" where
  "require_current_bytes body =
     bindE (check (length body \<le> MAX_PLAN_FILE_BYTES) HashInputError) (\<lambda>_.
     bindE (check (0 \<notin> set body) HashInputError) (\<lambda>_.
     bindE (check (decode_text body \<noteq> None) HashInputError) (\<lambda>_. Inr body)))"

datatype descriptor_arg = GivenDescriptor descriptor | GivenInput descriptor_input

definition require_descriptor :: "hash_exc \<Rightarrow> descriptor_arg \<Rightarrow> hash_exc + descriptor" where
  \<comment> \<open>the error is that of the planner or of the writer for an input that is not usable\<close>
  "require_descriptor unusable arg = (case arg of
       GivenDescriptor x \<Rightarrow> parse_hash_edit_descriptor (DescMapping (to_canonical_mapping x))
     | GivenInput inp \<Rightarrow> (case parse_hash_edit_descriptor inp of
           Inl e \<Rightarrow> Inl (if e = HashDescriptorError then e else unusable)
         | Inr x \<Rightarrow> Inr x))"

definition planned_bytes :: "bytes \<Rightarrow> candidate \<Rightarrow> string \<Rightarrow> bytes" where
  "planned_bytes current c replacement = take (c_start c) current @ utf8 replacement @ drop (c_end c) current"

definition needle_of :: "descriptor \<Rightarrow> chars" where
  "needle_of x = chars_of (d_before x @ d_old_text x @ d_after x)"

definition find_candidates :: "descriptor \<Rightarrow> bytes \<Rightarrow> chars \<Rightarrow> hash_exc + candidate list" where
  "find_candidates x current t =
     mapE (\<lambda>hit. candidate_from_match t current (line_start_offsets current) hit (d_before x) (d_old_text x))
       (char_finds t (needle_of x))"

definition policy_of :: "descriptor \<Rightarrow> string" where
  "policy_of x = (case d_revalidation x of None \<Rightarrow> ''require_base'' | Some s \<Rightarrow> s)"

definition choose_candidate :: "descriptor \<Rightarrow> bool \<Rightarrow> candidate list \<Rightarrow> hash_exc + (candidate \<times> bool)" where
  \<comment> \<open>the candidate and the flag \<open>rebased\<close>\<close>
  "choose_candidate x base_matches cs =
     bindE (check (\<not> (policy_of x = ''require_base'' \<and> \<not> base_matches)) HashStaleError) (\<lambda>_.
     if \<not> base_matches \<and> policy_of x = ''unique_shift'' then
       bindE (check (cs \<noteq> []) HashStaleError) (\<lambda>_.
       bindE (check (length cs \<le> 1) HashAmbiguousError) (\<lambda>_. Inr (hd cs, True)))
     else
       bindE (check (cs \<noteq> []) HashBindError) (\<lambda>_.
       bindE (check (length cs \<le> 1) HashAmbiguousError) (\<lambda>_.
       bindE (check (case d_lines x of None \<Rightarrow> True
           | Some (first_line, last_line) \<Rightarrow> int (c_first (hd cs)) = first_line \<and> int (c_last (hd cs)) = last_line) HashBindError) (\<lambda>_.
       Inr (hd cs, False)))))"

definition finish_plan :: "descriptor \<Rightarrow> bytes \<Rightarrow> chars \<Rightarrow> candidate \<times> bool \<Rightarrow> hash_exc + plan" where
  "finish_plan x current t choice = (case choice of (c, rebased) \<Rightarrow>
     let planned = planned_bytes current c (d_replacement x) in
     bindE (check (length planned \<le> MAX_PLAN_FILE_BYTES) HashInputError) (\<lambda>_.
     case decode_text planned of
       None \<Rightarrow> Inl (HashRaised (Raised ValueError))
     | Some after_text \<Rightarrow>
         let diff = unified_diff_text (d_path x) t after_text in
         bindE (descriptor_digest x) (\<lambda>digest.
         construct_plan \<lparr>p_descriptor_digest = digest, p_path = d_path x, p_before_sha256 = sha256_hex current,
           p_after_sha256 = sha256_hex planned, p_start = int (c_start c), p_end = int (c_end c),
           p_first_line = int (c_first c), p_last_line = int (c_last c), p_rebased = rebased,
           p_diff = diff, p_diff_sha256 = sha256_hex (encode_text diff)\<rparr>)))"

definition plan_hash_edit :: "descriptor_arg \<Rightarrow> current_fact \<Rightarrow> hash_exc + plan" where
  "plan_hash_edit arg found =
     bindE (require_descriptor HashInputError arg) (\<lambda>x.
     bindE (require_workspace_relpath (JStr (f_path found))) (\<lambda>path.
     bindE (check (path = d_path x) HashInputError) (\<lambda>_.
     bindE (require_current_bytes (f_bytes found)) (\<lambda>current.
     case decode_text current of
       None \<Rightarrow> Inl (HashRaised (Raised ValueError))
     | Some t \<Rightarrow>
         bindE (check (needle_of x \<noteq> []) HashBindError) (\<lambda>_.
         bindE (find_candidates x current t) (\<lambda>cs.
         bindE (choose_candidate x (sha256_hex current = d_base_sha256 x) cs) (\<lambda>choice.
         finish_plan x current t choice)))))))"

end
