(* ===== verification/HashDescriptorFacts.thy ===== *)
theory HashDescriptorFacts
  imports HashDescriptor
begin

text \<open>
  What an accepted descriptor satisfies, and that its canonical encoding determines it: validating the
  mapping of a descriptor gives the descriptor back, in whatever order the keys stand.
\<close>

lemma descriptor_check_Inr [result_simps]: "descriptor_check b = Inr u \<longleftrightarrow> b"
  by (simp add: descriptor_check_def result_simps)

lemma as_descriptor_error_Inr [result_simps]: "as_descriptor_error r = Inr x \<longleftrightarrow> r = Inr x"
  by (cases r) (simp_all add: as_descriptor_error_def)

section \<open>A value that was accepted is accepted again\<close>

lemma again_safe_text: "require_safe_text v = Inr s \<Longrightarrow> require_safe_text (JStr s) = Inr s"
  by (auto simp: require_safe_text_def result_simps require_simps)

lemma again_producer: "require_producer v = Inr s \<Longrightarrow> require_producer (JStr s) = Inr s"
  by (auto simp: require_producer_def result_simps split: option.splits)

lemma again_path: "require_workspace_relpath v = Inr s \<Longrightarrow> require_workspace_relpath (JStr s) = Inr s"
  by (auto simp: require_workspace_relpath_def result_simps split: option.splits)

lemma again_content: "require_content_text n v = Inr s \<Longrightarrow> require_content_text n (JStr s) = Inr s"
  by (auto simp: require_content_text_def result_simps split: option.splits)

lemma again_sha256: "require_sha256 v = Inr s \<Longrightarrow> require_sha256 (JStr s) = Inr s"
  by (auto simp: require_simps)

lemma again_bound_hash: "require_bound_hash t v = Inr s \<Longrightarrow> require_bound_hash t (JStr s) = Inr s"
  by (auto simp: require_bound_hash_def result_simps dest: again_sha256)

lemma again_policy: "require_policy v = Inr s \<Longrightarrow> require_policy (JStr s) = Inr s"
  by (auto simp: require_policy_def result_simps text_in_def text_val_def split: if_splits)

lemma again_expires_at: "require_expires_at v = Inr s \<Longrightarrow> require_expires_at (JStr s) = Inr s"
  by (auto simp: require_expires_at_def result_simps split: option.splits)

section \<open>The mapping of a descriptor\<close>

lemma map_of_opt_entry: "map_of (opt_entry k v) = (\<lambda>k'. if k' = k then map_option JStr v else None)"
  by (cases v) (auto simp: opt_entry_def fun_eq_iff)

lemma map_of_range_entry: "map_of (range_entry r) = (\<lambda>k. if k = ''original_start_line'' then map_option (\<lambda>r. JInt (fst r)) r
    else if k = ''original_end_line'' then map_option (\<lambda>r. JInt (snd r)) r else None)"
  by (auto simp: range_entry_def fun_eq_iff split: option.splits)

lemma mapping_lookups:
  "dget (to_canonical_mapping x) ''after_context'' = JStr (d_after x)"
  "dget (to_canonical_mapping x) ''after_context_sha256'' = JStr (d_after_sha256 x)"
  "dget (to_canonical_mapping x) ''base_sha256'' = JStr (d_base_sha256 x)"
  "dget (to_canonical_mapping x) ''before_context'' = JStr (d_before x)"
  "dget (to_canonical_mapping x) ''before_context_sha256'' = JStr (d_before_sha256 x)"
  "dget (to_canonical_mapping x) ''edit_id'' = JStr (d_edit_id x)"
  "dget (to_canonical_mapping x) ''kind'' = JStr HASH_EDIT_KIND"
  "dget (to_canonical_mapping x) ''old_text'' = JStr (d_old_text x)"
  "dget (to_canonical_mapping x) ''old_text_sha256'' = JStr (d_old_text_sha256 x)"
  "dget (to_canonical_mapping x) ''path'' = JStr (d_path x)"
  "dget (to_canonical_mapping x) ''producer'' = JStr (d_producer x)"
  "dget (to_canonical_mapping x) ''replacement'' = JStr (d_replacement x)"
  "dget (to_canonical_mapping x) ''replacement_sha256'' = JStr (d_replacement_sha256 x)"
  "dget (to_canonical_mapping x) ''schema_version'' = JInt 1"
  by (simp_all add: to_canonical_mapping_def)

lemma mapping_options:
  "map_of (to_canonical_mapping x) ''run_id'' = map_option JStr (d_run_id x)"
  "map_of (to_canonical_mapping x) ''task_id'' = map_option JStr (d_task_id x)"
  "map_of (to_canonical_mapping x) ''revalidation'' = map_option JStr (d_revalidation x)"
  "map_of (to_canonical_mapping x) ''expires_at'' = map_option JStr (d_expires_at x)"
  "map_of (to_canonical_mapping x) ''original_start_line'' = map_option (\<lambda>r. JInt (fst r)) (d_lines x)"
  "map_of (to_canonical_mapping x) ''original_end_line'' = map_option (\<lambda>r. JInt (snd r)) (d_lines x)"
  by (auto simp: to_canonical_mapping_def map_of_opt_entry map_of_range_entry map_add_def split: option.splits)

lemma keys_opt_entry: "fst ` set (opt_entry k v) = {k'. k' = k \<and> v \<noteq> None}" "distinct (map fst (opt_entry k v))"
  by (cases v; auto simp: opt_entry_def)+

lemma keys_range_entry:
  "fst ` set (range_entry r) = {k'. (k' = ''original_start_line'' \<or> k' = ''original_end_line'') \<and> r \<noteq> None}"
  "distinct (map fst (range_entry r))"
  by (cases r; force simp: range_entry_def)+

lemmas keys_entries = keys_opt_entry keys_range_entry

lemma keys_entries_known:
  "fst ` set (opt_entry k v) \<subseteq> {k}" "fst ` set (range_entry r) \<subseteq> {''original_start_line'', ''original_end_line''}"
  by (auto simp: keys_entries)

lemma entries_ok:
  "list_all (\<lambda>(k, v). canonical_ok v \<and> distinct_keys v \<and> canonical_copy v = v) (opt_entry k v)"
  "list_all (\<lambda>(k, v). canonical_ok v \<and> distinct_keys v \<and> canonical_copy v = v) (range_entry r)"
  by (cases v; simp add: opt_entry_def) (cases r; auto simp: range_entry_def)

lemma mapping_keys: "require_exact_keys (to_canonical_mapping x) REQUIRED_KEYS OPTIONAL_KEYS = Inr ()"
proof -
  have "list_all (has_key (to_canonical_mapping x)) REQUIRED_KEYS"
    by (simp add: REQUIRED_KEYS_def to_canonical_mapping_def)
  moreover have "fst ` set (to_canonical_mapping x) \<subseteq> set REQUIRED_KEYS \<union> set OPTIONAL_KEYS"
    unfolding to_canonical_mapping_def set_append image_Un
    by (intro Un_least order_trans [OF keys_entries_known(1)] order_trans [OF keys_entries_known(2)])
      (simp_all add: REQUIRED_KEYS_def OPTIONAL_KEYS_def)
  ultimately show ?thesis by (simp add: require_exact_keys_def list_all_iff check_def) blast
qed

lemma mapping_distinct: "distinct (map fst (to_canonical_mapping x))"
  unfolding to_canonical_mapping_def map_append distinct_append set_append set_map image_Un keys_entries
  by (auto simp: keys_entries)

lemma mapping_values: "list_all (\<lambda>(k, v). canonical_ok v \<and> distinct_keys v \<and> canonical_copy v = v) (to_canonical_mapping x)"
  by (simp add: to_canonical_mapping_def entries_ok)

lemma mapping_ok: "distinct_keys (JObj (to_canonical_mapping x))" "canonical_ok (JObj (to_canonical_mapping x))"
  using mapping_distinct [of x] mapping_values [of x] by (auto simp: list_all_iff)

section \<open>Round trips\<close>

lemma validated_fields_cong:
  assumes "map_of d = map_of d'"
  shows "validated_fields d = validated_fields d'"
proof -
  have "dget d = dget d'" by (rule ext) (simp add: dget_def assms)
  moreover have has: "has_key d = has_key d'" by (rule ext) (simp add: has_key_iff_map_of assms)
  moreover have "require_exact_keys d req opt = require_exact_keys d' req opt" for req opt
  proof -
    have "set (map fst d) = set (map fst d')" using has by (auto simp: has_key_def fun_eq_iff)
    then show ?thesis using has by (simp add: require_exact_keys_def list_all_iff)
  qed
  ultimately show ?thesis by (simp only: validated_fields_def optional_field_def optional_line_range_def)
qed

lemma optional_field_again:
  assumes "optional_field d k f = Inr v" "\<And>w s. f w = Inr s \<Longrightarrow> f (JStr s) = Inr s"
    and "map_of m k = map_option JStr v"
  shows "optional_field m k f = Inr v"
  using assms by (auto simp: optional_field_def result_simps has_key_iff_map_of dget_def split: if_splits)

lemma line_range_again:
  assumes "optional_line_range d = Inr r"
    and "map_of m ''original_start_line'' = map_option (\<lambda>r. JInt (fst r)) r"
    and "map_of m ''original_end_line'' = map_option (\<lambda>r. JInt (snd r)) r"
  shows "optional_line_range m = Inr r"
  using assms
  by (auto simp: optional_line_range_def result_simps require_simps has_key_iff_map_of dget_def split: if_splits)

lemma validated_fields_Inr:
  "validated_fields d = Inr x \<Longrightarrow>
    require_safe_text (dget d ''edit_id'') = Inr (d_edit_id x) \<and> require_producer (dget d ''producer'') = Inr (d_producer x)
    \<and> require_workspace_relpath (dget d ''path'') = Inr (d_path x) \<and> require_sha256 (dget d ''base_sha256'') = Inr (d_base_sha256 x)
    \<and> require_content_text MAX_TEXT_CHARS (dget d ''old_text'') = Inr (d_old_text x)
    \<and> require_content_text MAX_TEXT_CHARS (dget d ''replacement'') = Inr (d_replacement x)
    \<and> require_content_text MAX_CONTEXT_CHARS (dget d ''before_context'') = Inr (d_before x)
    \<and> require_content_text MAX_CONTEXT_CHARS (dget d ''after_context'') = Inr (d_after x)
    \<and> require_bound_hash (d_old_text x) (dget d ''old_text_sha256'') = Inr (d_old_text_sha256 x)
    \<and> require_bound_hash (d_replacement x) (dget d ''replacement_sha256'') = Inr (d_replacement_sha256 x)
    \<and> require_bound_hash (d_before x) (dget d ''before_context_sha256'') = Inr (d_before_sha256 x)
    \<and> require_bound_hash (d_after x) (dget d ''after_context_sha256'') = Inr (d_after_sha256 x)
    \<and> optional_field d ''run_id'' require_safe_text = Inr (d_run_id x)
    \<and> optional_field d ''task_id'' require_safe_text = Inr (d_task_id x)
    \<and> optional_field d ''revalidation'' require_policy = Inr (d_revalidation x)
    \<and> optional_field d ''expires_at'' require_expires_at = Inr (d_expires_at x) \<and> optional_line_range d = Inr (d_lines x)"
  unfolding validated_fields_def bindE_eq_Inr as_descriptor_error_Inr
  by (elim exE conjE) (simp only: sum.inject, erule subst, simp)

lemma validated_again: "validated_fields d = Inr x \<Longrightarrow> validated_fields (to_canonical_mapping x) = Inr x"
proof -
  let ?m = "to_canonical_mapping x"
  assume "validated_fields d = Inr x"
  note inv = validated_fields_Inr [OF this]
  have fields:
    "require_safe_text (JStr (d_edit_id x)) = Inr (d_edit_id x)" "require_producer (JStr (d_producer x)) = Inr (d_producer x)"
    "require_workspace_relpath (JStr (d_path x)) = Inr (d_path x)" "require_sha256 (JStr (d_base_sha256 x)) = Inr (d_base_sha256 x)"
    "require_content_text MAX_TEXT_CHARS (JStr (d_old_text x)) = Inr (d_old_text x)"
    "require_content_text MAX_TEXT_CHARS (JStr (d_replacement x)) = Inr (d_replacement x)"
    "require_content_text MAX_CONTEXT_CHARS (JStr (d_before x)) = Inr (d_before x)"
    "require_content_text MAX_CONTEXT_CHARS (JStr (d_after x)) = Inr (d_after x)"
    "require_bound_hash (d_old_text x) (JStr (d_old_text_sha256 x)) = Inr (d_old_text_sha256 x)"
    "require_bound_hash (d_replacement x) (JStr (d_replacement_sha256 x)) = Inr (d_replacement_sha256 x)"
    "require_bound_hash (d_before x) (JStr (d_before_sha256 x)) = Inr (d_before_sha256 x)"
    "require_bound_hash (d_after x) (JStr (d_after_sha256 x)) = Inr (d_after_sha256 x)"
    using inv by (blast intro: again_safe_text again_producer again_path again_sha256 again_content again_bound_hash)+
  have options:
    "optional_field ?m ''run_id'' require_safe_text = Inr (d_run_id x)" "optional_field ?m ''task_id'' require_safe_text = Inr (d_task_id x)"
    "optional_field ?m ''revalidation'' require_policy = Inr (d_revalidation x)"
    "optional_field ?m ''expires_at'' require_expires_at = Inr (d_expires_at x)" "optional_line_range ?m = Inr (d_lines x)"
    using inv
    by (blast intro: optional_field_again again_safe_text again_policy again_expires_at line_range_again mapping_options)+
  show ?thesis
    unfolding validated_fields_def mapping_keys mapping_lookups fields options
    by (simp add: fields as_descriptor_error_def require_integer_def descriptor_check_def check_def)
qed

lemma parse_mapping_Inr: "parse_mapping d = Inr x \<longleftrightarrow> validated_fields d = Inr x"
  by (auto simp: parse_mapping_def construct_descriptor_def result_simps dest: validated_again)

lemma map_of_canonical_copy:
  assumes "distinct (map fst d)" "list_all (\<lambda>(k, v). canonical_copy v = v) d"
  shows "\<exists>d'. canonical_copy (JObj d) = JObj d' \<and> map_of d' = map_of d"
proof -
  have "map (\<lambda>(k, v). (k, canonical_copy v)) (sort_key fst d) = sort_key fst d"
    by (rule map_idI) (use assms(2) in \<open>auto simp: list_all_iff\<close>)
  then have "canonical_copy (JObj d) = JObj (sort_key fst d)" by simp
  moreover have "map_of (sort_key fst d) = map_of d"
  proof (rule map_of_inject_set [THEN iffD2])
    show "distinct (map fst (sort_key fst d))" using assms(1) by (simp add: distinct_map)
  qed (use assms(1) in simp_all)
  ultimately show ?thesis by blast
qed

lemma descriptor_bytes_Inr: "\<exists>b. descriptor_bytes x = Inr b"
  using mapping_ok(2) by (simp add: descriptor_bytes_def canonical_json_bytes_def)

lemma parse_bytes_again:
  assumes "validated_fields d = Inr x" "descriptor_bytes x = Inr b"
  shows "parse_descriptor_bytes b = Inr x"
proof -
  have "list_all (\<lambda>(k, v). canonical_copy v = v) (to_canonical_mapping x)"
    using mapping_values [of x] by (auto simp: list_all_iff)
  then obtain d' where d': "canonical_copy (JObj (to_canonical_mapping x)) = JObj d'" "map_of d' = map_of (to_canonical_mapping x)"
    using map_of_canonical_copy mapping_distinct by blast
  have "parse_canonical_json_bytes b = Inr (JObj d')"
    using parse_encoded [OF mapping_ok(1)] assms(2) d'(1) by (simp add: descriptor_bytes_def)
  moreover have "parse_mapping d' = Inr x"
    using validated_fields_cong [OF d'(2)] validated_again [OF assms(1)] by (simp add: parse_mapping_Inr)
  ultimately show ?thesis using assms(2) by (simp add: parse_descriptor_bytes_def as_descriptor_error_def)
qed

lemma parse_bytes_validated: "parse_descriptor_bytes b = Inr x \<Longrightarrow> (\<exists>d. validated_fields d = Inr x) \<and> descriptor_bytes x = Inr b"
proof -
  assume "parse_descriptor_bytes b = Inr x"
  then obtain v where v: "(case v of JObj d \<Rightarrow> bindE (parse_mapping d) (\<lambda>x. case descriptor_bytes x of
        Inl e \<Rightarrow> Inl (HashRaised e) | Inr b' \<Rightarrow> if b' \<noteq> b then Inl HashDescriptorError else Inr x)
      | _ \<Rightarrow> Inl HashDescriptorError) = Inr x"
    unfolding parse_descriptor_bytes_def bindE_eq_Inr by blast
  then obtain d y where y: "validated_fields d = Inr y" "(case descriptor_bytes y of
        Inl e \<Rightarrow> Inl (HashRaised e) | Inr b' \<Rightarrow> if b' \<noteq> b then Inl HashDescriptorError else Inr y) = Inr x"
    by (cases v) (simp_all add: bindE_eq_Inr parse_mapping_Inr, blast)
  moreover obtain b' where "descriptor_bytes y = Inr b'" using descriptor_bytes_Inr by blast
  ultimately show ?thesis by (auto split: if_splits)
qed

lemma parse_validated: "parse_hash_edit_descriptor inp = Inr x \<Longrightarrow> \<exists>d. validated_fields d = Inr x"
  by (cases inp) (auto simp: parse_mapping_Inr dest: parse_bytes_validated)

end
