(* ===== verification/HashPlanFacts.thy ===== *)
theory HashPlanFacts
  imports HashPlanner HashDescriptorFacts HashPatch
begin

text \<open>
  What the parts of the planner compute: the search finds every occurrence of the needle, offsets are lengths
  of UTF-8 prefixes, lines are counts of line feeds, and the bytes of a plan are the text with the
  old passage exchanged.
\<close>

section \<open>The search\<close>

lemma starts_with_drop: "begins_with (drop i t) p \<Longrightarrow> i \<le> length t \<Longrightarrow> \<exists>post. t = take i t @ p @ post"
  unfolding begins_with_def by (metis append_take_drop_id append_assoc)

lemma find_in_spec:
  assumes "needle \<noteq> []"
  shows "case find_in needle t i of
      None \<Rightarrow> \<forall>m. \<not> begins_with (drop m t) needle
    | Some k \<Rightarrow> i \<le> k \<and> k - i < length t \<and> begins_with (drop (k - i) t) needle \<and> (\<forall>m < k - i. \<not> begins_with (drop m t) needle)"
  using assms
proof (induction needle t i rule: find_in.induct)
  case (1 needle i)
  then show ?case by (simp add: begins_with_def)
next
  case (2 needle c t i)
  show ?case
  proof (cases "begins_with (c # t) needle")
    case False
    have shift: "begins_with (drop m (c # t)) needle \<Longrightarrow> \<exists>n. m = Suc n \<and> begins_with (drop n t) needle" for m
      using False by (cases m) auto
    have IH: "case find_in needle t (i + 1) of
        None \<Rightarrow> \<forall>m. \<not> begins_with (drop m t) needle
      | Some k \<Rightarrow> i + 1 \<le> k \<and> k - (i + 1) < length t \<and> begins_with (drop (k - (i + 1)) t) needle
          \<and> (\<forall>m < k - (i + 1). \<not> begins_with (drop m t) needle)"
      using "2.IH" [OF False "2.prems"] .
    show ?thesis
    proof (cases "find_in needle t (i + 1)")
      case None
      then show ?thesis using IH False shift by auto
    next
      case (Some k)
      then have k: "i + 1 \<le> k" "k - (i + 1) < length t" "begins_with (drop (k - (i + 1)) t) needle"
        "\<forall>m < k - (i + 1). \<not> begins_with (drop m t) needle" using IH by auto
      then have "k - i = Suc (k - (i + 1))" by simp
      then show ?thesis using Some False k shift by auto
    qed
  qed simp
qed

lemma find_from_spec:
  assumes "needle \<noteq> []"
  shows "case find_from t needle start of
      None \<Rightarrow> \<forall>m \<ge> start. \<not> begins_with (drop m t) needle
    | Some k \<Rightarrow> start \<le> k \<and> k < length t \<and> begins_with (drop k t) needle \<and> (\<forall>m. start \<le> m \<and> m < k \<longrightarrow> \<not> begins_with (drop m t) needle)"
proof (cases "length t < start")
  case True
  then show ?thesis using assms by (auto simp: find_from_def begins_with_def)
next
  case False
  note spec = find_in_spec [OF assms, of "drop start t" start]
  have move: "begins_with (drop m t) needle = begins_with (drop (m - start) (drop start t)) needle" if "start \<le> m" for m
    using that by simp
  show ?thesis
  proof (cases "find_in needle (drop start t) start")
    case None
    then show ?thesis using spec False move by (auto simp: find_from_def simp del: drop_drop)
  next
    case (Some k)
    then have k: "start \<le> k" "k - start < length t - start" "begins_with (drop (k - start) (drop start t)) needle"
      "\<forall>m < k - start. \<not> begins_with (drop m (drop start t)) needle" using spec by auto
    have "\<not> begins_with (drop m t) needle" if "start \<le> m" "m < k" for m
    proof -
      have "m - start < k - start" using that by simp
      then show ?thesis using k(4) move [OF that(1)] by blast
    qed
    then show ?thesis using Some False k(1,2) k(3) [folded move [OF k(1)]] by (auto simp: find_from_def)
  qed
qed

lemma finds_from_spec:
  assumes "needle \<noteq> []"
  shows "finds_from t needle start = filter (\<lambda>i. begins_with (drop i t) needle) [start..<length t]"
  using assms
proof (induction t needle start rule: finds_from.induct)
  case (1 t needle start)
  note spec = find_from_spec [OF "1.prems", where t = t and start = start]
  show ?case
  proof (cases "find_from t needle start")
    case None
    then show ?thesis using spec by (subst finds_from.simps) (auto simp: filter_empty_conv)
  next
    case (Some k)
    then have k: "start \<le> k" "k < length t" "begins_with (drop k t) needle"
      "\<forall>m. start \<le> m \<and> m < k \<longrightarrow> \<not> begins_with (drop m t) needle" using spec by auto
    have "[start..<length t] = [start..<k] @ k # [k + 1..<length t]"
      using k(1,2) by (metis add.commute le_add_diff_inverse less_imp_le_nat upt_add_eq_append upt_conv_Cons Suc_eq_plus1)
    moreover have "filter (\<lambda>i. begins_with (drop i t) needle) [start..<k] = []" using k(4) by (auto simp: filter_empty_conv)
    ultimately show ?thesis using Some k(3) "1.IH" [OF Some "1.prems"] by (subst finds_from.simps) simp
  qed
qed

lemma char_finds_spec: "needle \<noteq> [] \<Longrightarrow> char_finds t needle = filter (\<lambda>i. begins_with (drop i t) needle) [0..<length t]"
  by (simp add: char_finds_def finds_from_spec)

definition occurs_at :: "chars \<Rightarrow> chars \<Rightarrow> nat \<Rightarrow> bool" where
  "occurs_at t needle i \<longleftrightarrow> i \<le> length t \<and> begins_with (drop i t) needle"

lemma char_finds_set: "needle \<noteq> [] \<Longrightarrow> set (char_finds t needle) = {i. occurs_at t needle i}"
  by (auto simp: char_finds_spec occurs_at_def begins_with_def intro: le_neq_implies_less)

lemma char_finds_distinct: "needle \<noteq> [] \<Longrightarrow> distinct (char_finds t needle)"
  by (simp add: char_finds_spec)

section \<open>Lines\<close>

definition line_feeds :: "bytes \<Rightarrow> nat" where
  "line_feeds b = length (filter (\<lambda>x. x = 10) b)"

definition line_at :: "bytes \<Rightarrow> nat \<Rightarrow> nat" where
  \<comment> \<open>the line of an offset; the end of a file that ends with a line feed is on its last line\<close>
  "line_at b offset = 1 + line_feeds (take (min offset (length b - 1)) b)"

lemma line_loop_takeWhile:
  "starts \<noteq> [] \<Longrightarrow> hd starts \<le> offset \<Longrightarrow> line_loop line i starts offset = i + length (takeWhile (\<lambda>s. s \<le> offset) starts)"
proof (induction line i starts offset rule: line_loop.induct)
  case (2 line i s starts offset)
  show ?case
  proof (cases "starts \<noteq> [] \<and> hd starts \<le> offset")
    case True
    then show ?thesis using 2 by simp
  next
    case False
    then show ?thesis using "2.prems" by (cases starts) simp_all
  qed
qed simp

lemma takeWhile_sorted: "sorted xs \<Longrightarrow> takeWhile (\<lambda>s. s \<le> n) xs = filter (\<lambda>s. s \<le> (n :: nat)) xs"
proof (induction xs)
  case (Cons a xs)
  then have "a \<le> n \<or> filter (\<lambda>s. s \<le> n) xs = []" by (fastforce simp: filter_empty_conv)
  then show ?case using Cons by auto
qed simp

lemma line_feeds_append [simp]: "line_feeds (xs @ ys) = line_feeds xs + line_feeds ys"
  by (simp add: line_feeds_def)

lemma line_feeds_positions:
  "n \<le> length b \<Longrightarrow> length (filter (\<lambda>s. s \<le> offset) (map Suc (filter (\<lambda>i. b ! i = 10) [0..<n]))) = line_feeds (take (min offset n) b)"
proof (induction n)
  case (Suc n)
  have "line_feeds (take (min offset (Suc n)) b) = line_feeds (take (min offset n) b) + (if Suc n \<le> offset \<and> b ! n = 10 then 1 else 0)"
    using Suc.prems by (cases "Suc n \<le> offset") (auto simp: min_def take_Suc_conv_app_nth not_less_eq_eq le_Suc_eq line_feeds_def)
  then show ?case using Suc by simp
qed (simp add: line_feeds_def)

lemma sorted_starts: "sorted (0 # map Suc (filter P [0..<n]))"
  by (simp add: sorted_wrt_map sorted_wrt_filter)

lemma line_starts: "line_start_offsets b = 0 # map Suc (filter (\<lambda>i. b ! i = 10) [0..<(if b \<noteq> [] \<and> last b = 10 then length b - 1 else length b)])"
proof (cases "b \<noteq> [] \<and> last b = 10")
  case True
  then have "[0..<length b] = [0..<length b - 1] @ [length b - 1]"
    by (metis Suc_diff_1 length_greater_0_conv upt_Suc_append zero_le)
  moreover have "b ! (length b - 1) = 10" using True by (metis last_conv_nth)
  ultimately show ?thesis using True by (simp add: line_start_offsets_def Let_def)
next
  case False
  then have "filter (\<lambda>i. b ! i = 10) [0..<length b] = []" if "b = []" using that by simp
  then show ?thesis using False by (auto simp: line_start_offsets_def Let_def)
qed

lemma line_of_spec: "offset \<le> length b \<Longrightarrow> line_of (line_start_offsets b) offset = line_at b offset"
proof -
  assume off: "offset \<le> length b"
  define n where "n = (if b \<noteq> [] \<and> last b = 10 then length b - 1 else length b)"
  let ?rest = "map Suc (filter (\<lambda>i. b ! i = 10) [0..<n])"
  have "line_of (line_start_offsets b) offset = length (filter (\<lambda>s. s \<le> offset) (0 # ?rest))"
    unfolding line_of_def line_starts n_def [symmetric]
    using line_loop_takeWhile [of "0 # ?rest" offset 1 0] takeWhile_sorted [OF sorted_starts] by simp
  also have "\<dots> = 1 + line_feeds (take (min offset n) b)" using line_feeds_positions [of n b offset] by (simp add: n_def)
  also have "line_feeds (take (min offset n) b) = line_feeds (take (min offset (length b - 1)) b)"
  proof (cases "b \<noteq> [] \<and> last b = 10 \<or> offset \<le> length b - 1")
    case False
    then have "offset = length b" using off by arith
    moreover have "line_feeds b = line_feeds (butlast b)"
      using False append_butlast_last_id [of b] line_feeds_append [of "butlast b" "[last b]"]
      by (cases "b = []") (simp_all add: line_feeds_def [of "[last b]"])
    ultimately show ?thesis using False by (auto simp: n_def butlast_conv_take)
  qed (auto simp: n_def min_def)
  finally show ?thesis by (simp add: line_at_def)
qed

lemma line_at_mono: "m \<le> n \<Longrightarrow> line_at b m \<le> line_at b n"
proof -
  assume "m \<le> n"
  then have "min m (length b - 1) \<le> min n (length b - 1)" by auto
  then obtain xs where "take (min n (length b - 1)) b = take (min m (length b - 1)) b @ xs" by (metis le_Suc_ex take_add)
  then show ?thesis by (simp add: line_at_def)
qed

section \<open>Offsets\<close>

lemma scalar_chars_of [simp]: "list_all scalar (chars_of s)"
proof -
  have "scalar (code_point c)" for c
    using nat_of_char_less_256 [of c] unfolding scalar_def code_point_def by linarith
  then show ?thesis by (simp add: list_all_iff chars_of_def)
qed

definition bound_at :: "descriptor \<Rightarrow> chars \<Rightarrow> chars \<Rightarrow> chars \<Rightarrow> bool" where
  \<comment> \<open>a text with the needle of a descriptor after \<open>pre\<close> and before \<open>post\<close>\<close>
  "bound_at x t pre post \<longleftrightarrow> t = pre @ needle_of x @ post"

definition start_of :: "descriptor \<Rightarrow> chars \<Rightarrow> nat" where
  "start_of x pre = length (encode_text (pre @ chars_of (d_before x)))"

definition end_of :: "descriptor \<Rightarrow> chars \<Rightarrow> nat" where
  "end_of x pre = start_of x pre + length (utf8 (d_old_text x))"

definition candidate_at :: "descriptor \<Rightarrow> bytes \<Rightarrow> chars \<Rightarrow> candidate" where
  \<comment> \<open>the place of the old text after \<open>pre\<close>\<close>
  "candidate_at x b pre = \<lparr>c_start = start_of x pre, c_end = end_of x pre, c_first = line_at b (start_of x pre),
     c_last = (if d_old_text x = [] then line_at b (start_of x pre) else line_at b (end_of x pre - 1))\<rparr>"

lemma utf8_empty: "utf8 s = [] \<longleftrightarrow> s = []"
  by (cases s) (simp_all add: utf8_def utf8_char_def Let_def)

lemma candidate_of_match:
  assumes "decode_text b = Some t" "bound_at x t pre post"
  shows "candidate_from_match t b (line_start_offsets b) (length pre) (d_before x) (d_old_text x) = Inr (candidate_at x b pre)"
proof -
  have b: "b = encode_text t" using encode_decode [OF assms(1)] by simp
  have t: "t = (pre @ chars_of (d_before x)) @ chars_of (d_old_text x) @ chars_of (d_after x) @ post"
    using assms(2) by (simp add: bound_at_def needle_of_def chars_of_def)
  have start: "utf8_offset t (length pre + length (d_before x)) = start_of x pre"
    unfolding utf8_offset_def start_of_def by (subst t) simp
  have fits: "end_of x pre \<le> length b" unfolding b by (subst t) (simp add: end_of_def start_of_def utf8_chars_of)
  moreover have "start_of x pre \<le> end_of x pre" by (simp add: end_of_def)
  ultimately show ?thesis
    by (simp add: candidate_from_match_def Let_def start candidate_at_def end_of_def [symmetric] line_of_spec utf8_empty check_def)
qed

section \<open>The planned bytes\<close>

definition edited :: "descriptor \<Rightarrow> chars \<Rightarrow> chars \<Rightarrow> chars" where
  \<comment> \<open>the text with the replacement in place of the old text\<close>
  "edited x pre post = pre @ chars_of (d_before x @ d_replacement x @ d_after x) @ post"

lemma around_old_text:
  assumes "decode_text b = Some t" "bound_at x t pre post"
  shows "take (start_of x pre) b = encode_text (pre @ chars_of (d_before x))"
    "drop (end_of x pre) b = encode_text (chars_of (d_after x) @ post)"
proof -
  have b: "b = encode_text t" using encode_decode [OF assms(1)] by simp
  have t: "t = (pre @ chars_of (d_before x)) @ chars_of (d_old_text x) @ chars_of (d_after x) @ post"
    using assms(2) by (simp add: bound_at_def needle_of_def chars_of_def)
  show "take (start_of x pre) b = encode_text (pre @ chars_of (d_before x))"
    unfolding b start_of_def by (subst t) simp
  show "drop (end_of x pre) b = encode_text (chars_of (d_after x) @ post)"
    unfolding b end_of_def start_of_def by (subst t) (simp add: utf8_chars_of)
qed

lemma planned_bytes_edited:
  assumes "decode_text b = Some t" "bound_at x t pre post"
  shows "planned_bytes b (candidate_at x b pre) (d_replacement x) = encode_text (edited x pre post)"
    "decode_text (encode_text (edited x pre post)) = Some (edited x pre post)"
proof -
  have b: "list_all scalar t" using encode_decode [OF assms(1)] by simp
  show "planned_bytes b (candidate_at x b pre) (d_replacement x) = encode_text (edited x pre post)"
    using around_old_text [OF assms] by (simp add: planned_bytes_def candidate_at_def edited_def utf8_chars_of [symmetric] chars_of_def)
  have "list_all scalar (pre @ needle_of x @ post)" using b assms(2) by (simp add: bound_at_def)
  then show "decode_text (encode_text (edited x pre post)) = Some (edited x pre post)"
    by (intro decode_encode) (simp add: edited_def)
qed

end
