(* ===== verification/HashPlanSpec.thy ===== *)
theory HashPlanSpec
  imports HashPlanFacts
begin

text \<open>
  The contract of the planner: an abstract account of its decision in terms of the set of places at which
  the needle occurs, a proof that the planner implements it, and what a plan says of the file.
\<close>

section \<open>Descriptors that were accepted\<close>

definition descriptor_valid :: "descriptor \<Rightarrow> bool" where
  "descriptor_valid x \<longleftrightarrow> validated_fields (to_canonical_mapping x) = Inr x"

lemma require_descriptor_valid: "require_descriptor e arg = Inr x \<Longrightarrow> descriptor_valid x"
  unfolding require_descriptor_def descriptor_valid_def
  by (auto simp: parse_mapping_Inr split: descriptor_arg.splits sum.splits dest!: parse_validated dest: validated_again)

lemma require_given: "descriptor_valid x \<Longrightarrow> require_descriptor e (GivenDescriptor x) = Inr x"
  by (simp add: require_descriptor_def descriptor_valid_def parse_mapping_Inr)

lemma valid_path: "descriptor_valid x \<Longrightarrow> require_workspace_relpath (JStr (d_path x)) = Inr (d_path x)"
  unfolding descriptor_valid_def by (drule validated_fields_Inr) (simp add: mapping_lookups)

lemma valid_policy: "descriptor_valid x \<Longrightarrow> policy_of x = ''require_base'' \<or> policy_of x = ''unique_shift''"
  unfolding descriptor_valid_def
  by (drule validated_fields_Inr)
    (auto simp: policy_of_def optional_field_def result_simps require_policy_def text_in_def REVALIDATION_POLICIES_def
      text_val_def text_of_def split: if_splits option.splits json.splits)

lemma valid_path_line: "descriptor_valid x \<Longrightarrow> 10 \<notin> set (chars_of (d_path x))"
  using valid_path [of x]
  by (auto simp: require_workspace_relpath_def result_simps workspace_path_ok_def no_control_def list_all_iff
      is_control_def chars_of_def split: option.splits)

section \<open>The diff is text\<close>

lemma scalar_slice: "list_all (list_all scalar) ls \<Longrightarrow> list_all (list_all scalar) (slice i j ls)"
  by (auto simp: list_all_iff dest: slice_subset)

lemma scalar_emit_lines: "list_all (list_all scalar) ls \<Longrightarrow> list_all scalar (emit_lines [c] i j ls)"
proof -
  assume "list_all (list_all scalar) ls"
  then have "list_all (list_all scalar) (slice i j ls)" by (rule scalar_slice)
  moreover have "list_all scalar (emit_diff_line [c] l)" if "list_all scalar l" for l
    using that scalar_chars_of [of "[c]"] scalar_chars_of [of "'' No newline at end of file''"]
    by (simp add: emit_diff_line_def scalar_def)
  ultimately show ?thesis by (auto simp: emit_lines_def list_all_iff)
qed

lemma scalar_emit_group:
  assumes "list_all (list_all scalar) old" "list_all (list_all scalar) new"
  shows "list_all scalar (emit_group old new grp)"
proof -
  have "list_all scalar (emit_opcode old new code)" for code
    using assms by (cases "(old, new, code)" rule: emit_opcode.cases) (simp_all add: scalar_emit_lines)
  moreover have "list_all scalar (hunk_span i n)" for i n by (simp add: hunk_span_def del: chars_of_simps)
  moreover have "scalar 10" by (simp add: scalar_def)
  ultimately show ?thesis
    by (auto simp: emit_group_def list_all_iff simp del: chars_of_simps split: prod.splits) (use scalar_chars_of in \<open>metis list_all_iff\<close>)+
qed

lemma scalar_split: "list_all scalar t \<Longrightarrow> list_all (list_all scalar) (split_keepends t)"
proof -
  have "set l \<subseteq> set t" if "l \<in> set (split_keepends t)" for l
    using that by (metis UN_upper concat_split_keepends set_concat)
  then show "list_all scalar t \<Longrightarrow> list_all (list_all scalar) (split_keepends t)" by (auto simp: list_all_iff)
qed

lemma scalar_diff:
  assumes "list_all scalar before" "list_all scalar after"
  shows "list_all scalar (unified_diff_text path before after)"
proof -
  have "scalar 10" by (simp add: scalar_def)
  then show ?thesis
    using scalar_emit_group [OF scalar_split scalar_split, OF assms]
    by (simp add: unified_diff_text_def Let_def del: chars_of_simps) (auto simp: list_all_iff)
qed

section \<open>The decision\<close>

definition plan_of :: "descriptor \<Rightarrow> bytes \<Rightarrow> chars \<Rightarrow> chars \<Rightarrow> bool \<Rightarrow> plan" where
  "plan_of x b pre post rebased =
     (let c = candidate_at x b pre; diff = unified_diff_text (d_path x) (pre @ needle_of x @ post) (edited x pre post) in
      \<lparr>p_descriptor_digest = (case descriptor_digest x of Inl e \<Rightarrow> [] | Inr d \<Rightarrow> d), p_path = d_path x,
        p_before_sha256 = sha256_hex b, p_after_sha256 = sha256_hex (encode_text (edited x pre post)),
        p_start = int (c_start c), p_end = int (c_end c), p_first_line = int (c_first c), p_last_line = int (c_last c),
        p_rebased = rebased, p_diff = diff, p_diff_sha256 = sha256_hex (encode_text diff)\<rparr>)"

lemma digest_of: "\<exists>b. descriptor_bytes x = Inr b \<and> descriptor_digest x = Inr (sha256_hex b)"
  using descriptor_bytes_Inr [of x] by (auto simp: descriptor_digest_def)

lemma finish_plan_at:
  assumes "descriptor_valid x" "decode_text b = Some t" "bound_at x t pre post"
  shows "finish_plan x b t (candidate_at x b pre, rebased) =
    (if length (encode_text (edited x pre post)) \<le> MAX_PLAN_FILE_BYTES then Inr (plan_of x b pre post rebased) else Inl HashInputError)"
proof -
  note bytes = planned_bytes_edited [OF assms(2,3)]
  have t: "t = pre @ needle_of x @ post" using assms(3) by (simp add: bound_at_def)
  obtain digest where digest: "descriptor_digest x = Inr (sha256_hex digest)" using digest_of by blast
  have "list_all scalar t" using encode_decode [OF assms(2)] by simp
  moreover have "list_all scalar (edited x pre post)" using calculation unfolding t by (simp add: edited_def)
  ultimately have diff: "list_all scalar (unified_diff_text (d_path x) t (edited x pre post))" by (rule scalar_diff)
  have sha: "require_sha256 (JStr (sha256_hex m)) = Inr (sha256_hex m)" for m
    by (simp add: require_sha256_def text_val_def sha256_hex_form)
  have "line_at b (start_of x pre) \<le> line_at b (end_of x pre - 1)" if "d_old_text x \<noteq> []"
    using that utf8_empty [of "d_old_text x"]
    by (intro line_at_mono) (cases "utf8 (d_old_text x)"; simp add: end_of_def)
  then have "construct_plan (plan_of x b pre post rebased) = Inr (plan_of x b pre post rebased)"
    using valid_path [OF assms(1)] sha diff digest
    by (simp add: construct_plan_def plan_of_def Let_def as_planner_error_def candidate_at_def check_def t [symmetric]
        end_of_def line_at_def)
  then show ?thesis
    using digest by (simp add: finish_plan_def bytes Let_def check_def plan_of_def t)
qed

definition hint_binds :: "descriptor \<Rightarrow> candidate \<Rightarrow> bool" where
  "hint_binds x c \<longleftrightarrow> (case d_lines x of None \<Rightarrow> True
     | Some (first_line, last_line) \<Rightarrow> int (c_first c) = first_line \<and> int (c_last c) = last_line)"

definition plan_spec :: "descriptor \<Rightarrow> bytes \<Rightarrow> chars \<Rightarrow> hash_exc + plan" where
  \<comment> \<open>the decision of the planner by the set of places of the needle\<close>
  "plan_spec x b t =
     (let unchanged = (sha256_hex b = d_base_sha256 x); places = {i. occurs_at t (needle_of x) i};
          i = Min places; pre = take i t; post = drop (i + length (needle_of x)) t in
      if \<not> unchanged \<and> policy_of x = ''require_base'' then Inl HashStaleError
      else if places = {} then Inl (if unchanged then HashBindError else HashStaleError)
      else if 1 < card places then Inl HashAmbiguousError
      else if unchanged \<and> \<not> hint_binds x (candidate_at x b pre) then Inl HashBindError
      else if MAX_PLAN_FILE_BYTES < length (encode_text (edited x pre post)) then Inl HashInputError
      else Inr (plan_of x b pre post (\<not> unchanged)))"

lemma bound_at_occurrence:
  "occurs_at t (needle_of x) i \<Longrightarrow> bound_at x t (take i t) (drop (i + length (needle_of x)) t) \<and> i = length (take i t)"
proof -
  assume occ: "occurs_at t (needle_of x) i"
  then have "t = take i t @ needle_of x @ drop (length (needle_of x)) (drop i t)"
    unfolding occurs_at_def begins_with_def by (metis append_take_drop_id)
  then show ?thesis using occ by (simp add: bound_at_def occurs_at_def add.commute)
qed

lemma find_candidates_at:
  assumes "decode_text b = Some t" "needle_of x \<noteq> []"
  shows "find_candidates x b t = Inr (map (\<lambda>i. candidate_at x b (take i t)) (char_finds t (needle_of x)))"
  unfolding find_candidates_def
proof (rule mapE_Inr_map)
  fix i assume "i \<in> set (char_finds t (needle_of x))"
  then have "occurs_at t (needle_of x) i" using char_finds_set [OF assms(2)] by blast
  from bound_at_occurrence [OF this] candidate_of_match [OF assms(1)]
  show "candidate_from_match t b (line_start_offsets b) i (d_before x) (d_old_text x) = Inr (candidate_at x b (take i t))" by metis
qed

lemma plan_decision:
  assumes "descriptor_valid x" "decode_text b = Some t" "needle_of x \<noteq> []"
  shows "bindE (find_candidates x b t) (\<lambda>cs. bindE (choose_candidate x (sha256_hex b = d_base_sha256 x) cs) (finish_plan x b t))
    = plan_spec x b t"
proof -
  let ?hits = "char_finds t (needle_of x)"
  have places: "{i. occurs_at t (needle_of x) i} = set ?hits" "card (set ?hits) = length ?hits"
    using char_finds_set [OF assms(3)] distinct_card [OF char_finds_distinct [OF assms(3)]] by auto
  note policy = valid_policy [OF assms(1)]
  consider "?hits = []" | i where "?hits = [i]" | "1 < length ?hits"
    by (cases ?hits; cases "tl ?hits") auto
  then show ?thesis
  proof cases
    case 1
    then show ?thesis using policy
      by (auto simp: find_candidates_at [OF assms(2,3)] choose_candidate_def plan_spec_def places check_def)
  next
    case 2
    then have "bound_at x t (take i t) (drop (i + length (needle_of x)) t)"
      using bound_at_occurrence places(1) by (metis list.set_intros(1) mem_Collect_eq)
    note finish = finish_plan_at [OF assms(1,2) this]
    show ?thesis using policy 2
      by (auto simp: find_candidates_at [OF assms(2,3)] choose_candidate_def plan_spec_def places check_def finish hint_binds_def Let_def
          split: option.splits prod.splits)
  next
    case 3
    then have "?hits \<noteq> []" by auto
    then show ?thesis using policy 3
      by (auto simp: find_candidates_at [OF assms(2,3)] choose_candidate_def plan_spec_def places check_def)
  qed
qed

definition current_ok :: "bytes \<Rightarrow> bool" where
  \<comment> \<open>a file that the planner reads as text\<close>
  "current_ok b \<longleftrightarrow> length b \<le> MAX_PLAN_FILE_BYTES \<and> 0 \<notin> set b \<and> decode_text b \<noteq> None"

lemma plan_hash_edit_valid:
  assumes "require_descriptor HashInputError arg = Inr x"
  shows "plan_hash_edit arg found =
    (case require_workspace_relpath (JStr (f_path found)) of Inl e \<Rightarrow> Inl e | Inr path \<Rightarrow>
      if path \<noteq> d_path x \<or> \<not> current_ok (f_bytes found) then Inl HashInputError
      else if needle_of x = [] then Inl HashBindError
      else plan_spec x (f_bytes found) (the (decode_text (f_bytes found))))"
proof -
  note valid = require_descriptor_valid [OF assms]
  show ?thesis
    using plan_decision [OF valid, of "f_bytes found"]
    by (auto simp: plan_hash_edit_def assms current_ok_def require_current_bytes_def check_def split: sum.splits option.splits)
qed

lemma plan_spec_Inr:
  assumes "plan_spec x b t = Inr p"
  shows "\<exists>pre post. t = pre @ needle_of x @ post \<and> {i. occurs_at t (needle_of x) i} = {length pre}
    \<and> p = plan_of x b pre post (sha256_hex b \<noteq> d_base_sha256 x)
    \<and> length (encode_text (edited x pre post)) \<le> MAX_PLAN_FILE_BYTES
    \<and> (sha256_hex b \<noteq> d_base_sha256 x \<longrightarrow> policy_of x \<noteq> ''require_base'')
    \<and> (sha256_hex b = d_base_sha256 x \<longrightarrow> hint_binds x (candidate_at x b pre))"
proof -
  let ?places = "{i. occurs_at t (needle_of x) i}"
  define i where "i = Min ?places"
  have run: "?places \<noteq> {}" "\<not> 1 < card ?places" "sha256_hex b \<noteq> d_base_sha256 x \<longrightarrow> policy_of x \<noteq> ''require_base''"
    "sha256_hex b = d_base_sha256 x \<longrightarrow> hint_binds x (candidate_at x b (take i t))"
    "length (encode_text (edited x (take i t) (drop (i + length (needle_of x)) t))) \<le> MAX_PLAN_FILE_BYTES"
    "p = plan_of x b (take i t) (drop (i + length (needle_of x)) t) (sha256_hex b \<noteq> d_base_sha256 x)"
    using assms by (auto simp: plan_spec_def Let_def i_def split: if_splits)
  have "?places \<subseteq> {..length t}" by (auto simp: occurs_at_def)
  then have "finite ?places" by (rule finite_subset) simp
  then have "card ?places = 1" using run(1,2) by (metis One_nat_def card_gt_0_iff less_Suc_eq_0_disj linorder_neqE_nat not_less_eq)
  then obtain k where k: "?places = {k}" by (auto simp: card_1_singleton_iff)
  then have "i = k" by (simp add: i_def)
  moreover have "occurs_at t (needle_of x) k" using k by blast
  ultimately show ?thesis using bound_at_occurrence [of t x k] run(3-) k unfolding bound_at_def by metis
qed

lemma plan_hash_edit_Inr:
  assumes "plan_hash_edit arg found = Inr p"
  obtains x pre post where "require_descriptor HashInputError arg = Inr x" "descriptor_valid x" "f_path found = d_path x"
    "current_ok (f_bytes found)" "decode_text (f_bytes found) = Some (pre @ needle_of x @ post)" "needle_of x \<noteq> []"
    "{i. occurs_at (pre @ needle_of x @ post) (needle_of x) i} = {length pre}"
    "p = plan_of x (f_bytes found) pre post (sha256_hex (f_bytes found) \<noteq> d_base_sha256 x)"
    "length (encode_text (edited x pre post)) \<le> MAX_PLAN_FILE_BYTES"
    "sha256_hex (f_bytes found) \<noteq> d_base_sha256 x \<longrightarrow> policy_of x \<noteq> ''require_base''"
    "sha256_hex (f_bytes found) = d_base_sha256 x \<longrightarrow> hint_binds x (candidate_at x (f_bytes found) pre)"
proof -
  obtain x where x: "require_descriptor HashInputError arg = Inr x"
    using assms by (cases "require_descriptor HashInputError arg") (auto simp: plan_hash_edit_def)
  have run: "f_path found = d_path x" "current_ok (f_bytes found)" "needle_of x \<noteq> []"
    "plan_spec x (f_bytes found) (the (decode_text (f_bytes found))) = Inr p"
    using assms unfolding plan_hash_edit_valid [OF x]
    by (auto simp: require_workspace_relpath_def result_simps text_val_def split: sum.splits if_splits option.splits)
  moreover have "decode_text (f_bytes found) \<noteq> None" using run(2) by (simp add: current_ok_def)
  ultimately show thesis
    using plan_spec_Inr [OF run(4)] that [OF x require_descriptor_valid [OF x]] by (metis option.exhaust_sel)
qed

lemma plan_hash_edit_bound:
  assumes "descriptor_valid x" "f_path found = d_path x" "current_ok (f_bytes found)" "decode_text (f_bytes found) = Some t"
    "needle_of x \<noteq> []"
  shows "plan_hash_edit (GivenDescriptor x) found = plan_spec x (f_bytes found) t"
  using assms by (simp add: plan_hash_edit_valid [OF require_given [OF assms(1)]] valid_path)

end
