(* ===== verification/HashDemo.thy ===== *)
theory HashDemo
  imports HashPlanSpec
begin

text \<open>
  A descriptor and a file on which the properties of hash edits apply.
\<close>

definition demo_content :: string where
  "demo_content = ''x'' @ [char_of (10 :: nat)] @ ''b'' @ [char_of (10 :: nat)] @ ''y''"

definition demo_before :: string where "demo_before = ''x'' @ [char_of (10 :: nat)]"

definition demo_edit :: descriptor where
  "demo_edit = \<lparr>d_edit_id = ''e1'', d_producer = ''me'', d_path = ''f'', d_base_sha256 = sha256_hex (utf8 demo_content),
     d_old_text = ''b'', d_replacement = ''B!'', d_before = demo_before, d_after = [],
     d_old_text_sha256 = content_sha256 ''b'', d_replacement_sha256 = content_sha256 ''B!'',
     d_before_sha256 = content_sha256 demo_before, d_after_sha256 = content_sha256 [],
     d_run_id = None, d_task_id = None, d_lines = Some (2, 2), d_revalidation = None, d_expires_at = None\<rparr>"

definition demo_file :: current_fact where
  "demo_file = \<lparr>f_path = ''f'', f_bytes = utf8 demo_content\<rparr>"

lemma demo_sha: "require_sha256 (JStr (sha256_hex m)) = Inr (sha256_hex m)"
  by (simp add: require_sha256_def text_val_def sha256_hex_form)

lemma demo_id: "require_safe_text (JStr ''e1'') = Inr ''e1''" by code_simp

lemma demo_path: "workspace_path_ok ''f''" by code_simp

lemma demo_edit_fields:
  "require_producer (JStr ''me'') = Inr ''me''" "require_workspace_relpath (JStr ''f'') = Inr ''f''"
  "require_content_text MAX_TEXT_CHARS (JStr ''b'') = Inr ''b''" "require_content_text MAX_TEXT_CHARS (JStr ''B!'') = Inr ''B!''"
  "require_content_text MAX_CONTEXT_CHARS (JStr demo_before) = Inr demo_before"
  "require_content_text MAX_CONTEXT_CHARS (JStr []) = Inr []"
  by (simp_all add: require_producer_def require_workspace_relpath_def require_content_text_def text_val_def descriptor_check_def
      check_def demo_path no_control_def is_control_def code_point_def MAX_TEXT_CHARS_def MAX_CONTEXT_CHARS_def
      MAX_PRODUCER_CHARS_def demo_before_def)

lemma demo_hashes: "require_bound_hash s (JStr (content_sha256 s)) = Inr (content_sha256 s)"
  by (simp add: require_bound_hash_def content_sha256_def demo_sha as_descriptor_error_def descriptor_check_def)

lemma demo_edit_valid: "descriptor_valid demo_edit"
proof -
  let ?m = "to_canonical_mapping demo_edit"
  have fields: "dget ?m ''edit_id'' = JStr ''e1''" "dget ?m ''producer'' = JStr ''me''" "dget ?m ''path'' = JStr ''f''"
    "dget ?m ''old_text'' = JStr ''b''" "dget ?m ''replacement'' = JStr ''B!''" "dget ?m ''before_context'' = JStr demo_before"
    "dget ?m ''after_context'' = JStr []"
    by (simp_all add: mapping_lookups demo_edit_def)
  have hashes: "dget ?m ''base_sha256'' = JStr (sha256_hex (utf8 demo_content))"
    "dget ?m ''old_text_sha256'' = JStr (content_sha256 ''b'')" "dget ?m ''replacement_sha256'' = JStr (content_sha256 ''B!'')"
    "dget ?m ''before_context_sha256'' = JStr (content_sha256 demo_before)" "dget ?m ''after_context_sha256'' = JStr (content_sha256 [])"
    by (simp_all add: mapping_lookups demo_edit_def)
  have options: "optional_field ?m ''run_id'' require_safe_text = Inr None" "optional_field ?m ''task_id'' require_safe_text = Inr None"
    "optional_field ?m ''revalidation'' require_policy = Inr None" "optional_field ?m ''expires_at'' require_expires_at = Inr None"
    by (simp_all add: optional_field_def has_key_iff_map_of mapping_options demo_edit_def)
  have range_entries: "optional_line_range ?m = Inr (Some (2, 2))"
    by (simp add: optional_line_range_def has_key_iff_map_of mapping_options dget_def demo_edit_def require_integer_def
        as_descriptor_error_def descriptor_check_def check_def MAX_RANGE_SPAN_def)
  show ?thesis
    unfolding descriptor_valid_def validated_fields_def mapping_keys mapping_lookups(14-) fields hashes demo_id demo_edit_fields demo_hashes
      demo_sha options range_entries
    by (simp add: demo_id demo_edit_fields demo_hashes demo_sha as_descriptor_error_def require_integer_def descriptor_check_def check_def
        demo_edit_def mapping_lookups)
qed

lemma demo_decoded: "decode_text (utf8 demo_content) = Some (needle_of demo_edit @ chars_of [char_of (10 :: nat)] @ chars_of ''y'')"
proof -
  have "chars_of demo_content = needle_of demo_edit @ chars_of [char_of (10 :: nat)] @ chars_of ''y''"
    by (simp add: demo_content_def needle_of_def demo_edit_def demo_before_def)
  then show ?thesis using decode_encode [OF scalar_chars_of [of demo_content]] unfolding utf8_chars_of by (simp only:)
qed

definition demo_tail :: chars where "demo_tail = chars_of [char_of (10 :: nat)] @ chars_of ''y''"

lemma demo_current: "current_ok (utf8 demo_content)"
proof -
  have "utf8 demo_content = [120, 10, 98, 10, 121]" by (simp add: utf8_chars_of [symmetric] demo_content_def encode_char_def code_point_def)
  then show ?thesis using demo_decoded by (simp add: current_ok_def MAX_PLAN_FILE_BYTES_def)
qed

lemma demo_text: "needle_of demo_edit @ demo_tail = [120, 10, 98, 10, 121]" "needle_of demo_edit = [120, 10, 98]"
  by (simp_all add: needle_of_def demo_tail_def demo_edit_def demo_before_def code_point_def)

lemma demo_places: "{i. occurs_at (needle_of demo_edit @ demo_tail) (needle_of demo_edit) i} = {0}"
proof -
  have "char_finds [120, 10, 98, 10, 121] [120, 10, 98] = [0]" by code_simp
  moreover have "needle_of demo_edit \<noteq> []" by (simp add: demo_text(2))
  from char_finds_set [OF this, of "needle_of demo_edit @ demo_tail"]
  have "set (char_finds [120, 10, 98, 10, 121] [120, 10, 98]) = {i. occurs_at [120, 10, 98, 10, 121] [120, 10, 98] i}"
    by (simp only: demo_text(1)) (simp only: demo_text(2))
  ultimately show ?thesis by (simp only: demo_text(1)) (simp add: demo_text(2))
qed

definition demo_plan :: plan where
  "demo_plan = plan_of demo_edit (utf8 demo_content) [] demo_tail False"

lemma demo_hint: "hint_binds demo_edit (candidate_at demo_edit (utf8 demo_content) [])"
proof -
  have "utf8 demo_content = [120, 10, 98, 10, 121]" by (simp add: utf8_chars_of [symmetric] demo_content_def encode_char_def code_point_def)
  moreover have "start_of demo_edit [] = 2" "end_of demo_edit [] = 3"
    by (simp_all add: start_of_def end_of_def demo_edit_def demo_before_def utf8_def utf8_char_def encode_char_def code_point_def)
  ultimately show ?thesis by (simp add: hint_binds_def candidate_at_def line_at_def line_feeds_def demo_edit_def)
qed

lemma demo_planned: "plan_hash_edit (GivenDescriptor demo_edit) demo_file = Inr demo_plan"
proof -
  have "length (encode_text (edited demo_edit [] demo_tail)) \<le> MAX_PLAN_FILE_BYTES"
    by (simp add: edited_def demo_edit_def demo_before_def demo_tail_def MAX_PLAN_FILE_BYTES_def encode_char_def code_point_def)
  then have "plan_spec demo_edit (utf8 demo_content) (needle_of demo_edit @ demo_tail) = Inr demo_plan"
    using demo_hint by (simp add: plan_spec_def demo_places demo_plan_def Let_def demo_edit_def [THEN arg_cong, where f = d_base_sha256])
  then show ?thesis
    using plan_hash_edit_bound [OF demo_edit_valid, of demo_file "needle_of demo_edit @ demo_tail"] demo_current demo_decoded
    by (simp add: demo_file_def demo_tail_def demo_edit_def [THEN arg_cong, where f = d_path] demo_text)
qed

end
