(* ===== verification/HashDescriptorSafety.thy ===== *)
theory HashDescriptorSafety
  imports HashDemo
begin

text \<open>
  The properties of descriptors.
\<close>

text \<open>C34: the bytes that the parser accepts are exactly the canonical encodings of the descriptors that validate: each accepted
  descriptor has one encoding, it is read back unchanged, and its digest is the hash of the bytes that were read\<close>
theorem accepted_bytes_are_canonical:
  "parse_hash_edit_descriptor (DescBytes b) = Inr x \<longleftrightarrow>
     validated_fields (to_canonical_mapping x) = Inr x \<and> descriptor_bytes x = Inr b
     \<and> descriptor_digest x = Inr (sha256_hex b) \<and> parse_hash_edit_descriptor (DescMapping (to_canonical_mapping x)) = Inr x"
  (is "?l \<longleftrightarrow> ?r")
proof
  assume ?l
  then have "parse_descriptor_bytes b = Inr x" by simp
  then have "\<exists>d. validated_fields d = Inr x" "descriptor_bytes x = Inr b" using parse_bytes_validated by blast+
  then show ?r using validated_again by (auto simp: descriptor_digest_def parse_mapping_Inr)
next
  assume ?r
  then have "parse_descriptor_bytes b = Inr x" using parse_bytes_again by blast
  then show ?l by simp
qed







end
