(* ===== verification/HashPlanSafety.thy ===== *)
theory HashPlanSafety
  imports HashDemo
begin

text \<open>
  The properties of the planner.
\<close>

text \<open>C22: the planner implements its abstract decision: for an accepted descriptor and a file it can read, it raises the
  stale error when the file has changed and the policy is \<open>require_base\<close>, the bind or stale error when context and old
  text occur nowhere, the ambiguous error when they occur at more than one place, the bind error when the hinted
  lines are not those of the only place in an unchanged file, the input error when the result is too large, and otherwise
  returns the plan of that place.  No other error can be raised after the file has been read\<close>
theorem planner_implements_decision:
  "plan_hash_edit arg found = (case require_descriptor HashInputError arg of
      Inl e \<Rightarrow> Inl e
    | Inr x \<Rightarrow> (case require_workspace_relpath (JStr (f_path found)) of
        Inl e \<Rightarrow> Inl e
      | Inr path \<Rightarrow>
          if path = d_path x \<and> current_ok (f_bytes found)
          then if needle_of x = [] then Inl HashBindError
            else plan_spec x (f_bytes found) (the (decode_text (f_bytes found)))
          else Inl HashInputError))"
  by (cases "require_descriptor HashInputError arg")
    (simp_all add: plan_hash_edit_valid split: sum.splits, simp add: plan_hash_edit_def)



text \<open>C0: the diff of a plan is a correct unified diff of the edit: a reader that checks every position, length and
  context line accepts it for the text of the file and obtains a text whose bytes have the hash that the plan announces\<close>
theorem plan_diff_applies:
  assumes "plan_hash_edit arg found = Inr p"
  shows "\<exists>t t'. decode_text (f_bytes found) = Some t \<and> patch (p_path p) t (p_diff p) = Some t'
    \<and> sha256_hex (encode_text t') = p_after_sha256 p"
  using assms
proof (rule plan_hash_edit_Inr)
  fix x pre post
  assume x: "descriptor_valid x" "decode_text (f_bytes found) = Some (pre @ needle_of x @ post)"
    and p: "p = plan_of x (f_bytes found) pre post (sha256_hex (f_bytes found) \<noteq> d_base_sha256 x)"
  have "patch (p_path p) (pre @ needle_of x @ post) (p_diff p) = Some (edited x pre post)"
    using diff_correct [OF valid_path_line [OF x(1)]] by (simp add: p plan_of_def Let_def)
  moreover have "sha256_hex (encode_text (edited x pre post)) = p_after_sha256 p" by (simp add: p plan_of_def Let_def)
  ultimately show ?thesis using x(2) by blast
qed

lemma plan_diff_applies_witness:
  "\<exists>t t'. decode_text (utf8 demo_content) = Some t \<and> patch ''f'' t (p_diff demo_plan) = Some t'
    \<and> sha256_hex (encode_text t') = p_after_sha256 demo_plan"
  using plan_diff_applies [OF demo_planned] by (simp add: demo_file_def demo_plan_def plan_of_def Let_def demo_edit_def)

end
