(* ===== verification/HashApply.thy ===== *)
theory HashApply
  imports HashPlanner
begin

text \<open>
  The confined, atomic application of a plan (\<open>hash_edit/apply.py\<close>, its POSIX branch, with
  \<open>confined_path\<close> and \<open>atomic_write_bytes_at\<close> of \<open>contracts/path_keys.py\<close>).  The disk below
  the workspace root is a tree; the locked section works on the entries of the pinned parent directory.  What the
  code cannot control is an argument: whether a read fails or is torn, whether the operating system refuses
  a step before or after the rename, and what other processes, which an advisory lock does not stop, do to the
  directory between the read and the replacement and between the replacement and the read-back.
\<close>

section \<open>The disk\<close>

datatype disk_node =
    RegularFile bytes nat nat \<comment> \<open>content, permission bits, number of links\<close>
  | SymbolicLink
  | SpecialFile \<comment> \<open>fifo, device or socket\<close>
  | Folder "string \<Rightarrow> disk_node option"

type_synonym entries = "string \<Rightarrow> disk_node option"

datatype read_fault = OpenFails | TornRead
datatype write_fault = BeforeRename | AfterRename

record environment =
  e_read :: "read_fault option"
  e_others :: "entries \<Rightarrow> entries"
  e_write :: "write_fault option"
  e_others_after :: "entries \<Rightarrow> entries"
  e_readback :: "read_fault option"

definition quiet :: environment where
  \<comment> \<open>no failure and no interference\<close>
  "quiet = \<lparr>e_read = None, e_others = (\<lambda>d. d), e_write = None, e_others_after = (\<lambda>d. d), e_readback = None\<rparr>"

definition component_ok :: "string \<Rightarrow> bool" where
  \<comment> \<open>\<open>_validate_component\<close> does not raise\<close>
  "component_ok c \<longleftrightarrow> c \<noteq> [] \<and> list_all (\<lambda>x. 32 \<le> code_point x) c \<and> c \<notin> {''.'', ''..''} \<and> posix_name c = c
     \<and> CHR ''/'' \<notin> set c \<and> char_of (92 :: nat) \<notin> set c"

fun confined_walk :: "entries \<Rightarrow> string list \<Rightarrow> hash_exc + unit" where
  \<comment> \<open>the loop of \<open>confined_path\<close>\<close>
  "confined_walk d [] = Inr ()"
| "confined_walk d (c # cs) = (case d c of
       None \<Rightarrow> Inr ()
     | Some SymbolicLink \<Rightarrow> Inl HashPathError
     | Some (Folder d') \<Rightarrow> confined_walk d' cs
     | Some _ \<Rightarrow> Inr ())"

definition path_components :: "string \<Rightarrow> string list" where
  "path_components p = split_on CHR ''/'' p"

definition confined_target :: "entries \<Rightarrow> string \<Rightarrow> hash_exc + unit" where
  "confined_target d relative =
     bindE (as_planner_error HashPathError (require_workspace_relpath (JStr relative))) (\<lambda>rel.
     bindE (check (list_all component_ok (path_components rel)) HashPathError) (\<lambda>_.
     confined_walk d (path_components rel)))"

fun open_parent :: "entries \<Rightarrow> string list \<Rightarrow> hash_exc + entries" where
  \<comment> \<open>the loop of \<open>_open_parent_fd\<close> over all components but the last\<close>
  "open_parent d [] = Inr d"
| "open_parent d (c # cs) = (case d c of Some (Folder d') \<Rightarrow> open_parent d' cs | _ \<Rightarrow> Inl HashPathError)"

fun put_folder :: "entries \<Rightarrow> string list \<Rightarrow> entries \<Rightarrow> entries" where
  \<comment> \<open>the tree after the pinned directory has changed\<close>
  "put_folder d [] new = new"
| "put_folder d (c # cs) new = (case d c of Some (Folder d') \<Rightarrow> d(c \<mapsto> Folder (put_folder d' cs new)) | _ \<Rightarrow> d)"

definition workspace_root :: "disk_node \<Rightarrow> hash_exc + entries" where
  "workspace_root root = (case root of Folder d \<Rightarrow> Inr d | _ \<Rightarrow> Inl HashPathError)"

definition pinned_parent :: "disk_node \<Rightarrow> string \<Rightarrow> hash_exc + (entries \<times> entries)" where
  \<comment> \<open>the checks of the root and of the path, and the walk to the parent directory\<close>
  "pinned_parent root path = bindE (workspace_root root) (\<lambda>d.
     bindE (confined_target d path) (\<lambda>_.
     bindE (open_parent d (butlast (path_components path))) (\<lambda>parent. Inr (d, parent))))"

definition read_regular_at :: "read_fault option \<Rightarrow> entries \<Rightarrow> string \<Rightarrow> hash_exc + (bytes \<times> nat)" where
  "read_regular_at fault d name = (case d name of
       Some (RegularFile body mode links) \<Rightarrow>
         bindE (check (fault \<noteq> Some OpenFails) HashPathError) (\<lambda>_.
         bindE (check (links = 1) HashPathError) (\<lambda>_.
         bindE (check (length body \<le> MAX_PLAN_FILE_BYTES) HashInputError) (\<lambda>_.
         bindE (check (fault \<noteq> Some TornRead) HashConcurrencyError) (\<lambda>_. Inr (body, mode)))))
     | _ \<Rightarrow> Inl HashPathError)"

fun is_link :: "disk_node option \<Rightarrow> bool" where
  "is_link (Some SymbolicLink) = True"
| "is_link n = False"

fun is_folder :: "disk_node option \<Rightarrow> bool" where
  "is_folder (Some (Folder d)) = True"
| "is_folder n = False"

definition atomic_write_bytes_at :: "write_fault option \<Rightarrow> entries \<Rightarrow> string \<Rightarrow> bytes \<Rightarrow> nat \<Rightarrow> (hash_exc + unit) \<times> entries" where
  \<comment> \<open>the temporary file is gone at the end in any case; a \<open>ContractPathError\<close> becomes a path error and an
    \<open>OSError\<close> an apply error in every caller\<close>
  "atomic_write_bytes_at fault d name body mode =
     (if \<not> component_ok name \<or> is_link (d name) then (Inl HashPathError, d)
      else if fault = Some BeforeRename \<or> is_folder (d name) then (Inl HashApplyError, d)
      else let d' = d(name \<mapsto> RegularFile body mode 1) in
        (if fault = Some AfterRename then Inl HashApplyError else Inr (), d'))"

section \<open>Applying a plan\<close>

record apply_result =
  r_path :: string
  r_descriptor_digest :: string
  r_before_sha256 :: string
  r_after_sha256 :: string
  r_start :: int
  r_end :: int
  r_first_line :: int
  r_last_line :: int
  r_rebased :: bool
  r_diff_sha256 :: string
  r_mode :: nat

definition construct_result :: "apply_result \<Rightarrow> hash_exc + apply_result" where
  "construct_result r =
     bindE (as_planner_error HashApplyError (require_workspace_relpath (JStr (r_path r)))) (\<lambda>_.
     bindE (as_planner_error HashApplyError
       (mapE (\<lambda>s. require_sha256 (JStr s)) [r_descriptor_digest r, r_before_sha256 r, r_after_sha256 r, r_diff_sha256 r])) (\<lambda>_.
     bindE (as_planner_error HashApplyError
       (mapE (\<lambda>(n, low). require_integer (JInt n) (Some low))
          [(r_start r, 0), (r_end r, 0), (r_first_line r, 1), (r_last_line r, 1), (int (r_mode r), 0)])) (\<lambda>_.
     bindE (check (r_start r \<le> r_end r \<and> r_first_line r \<le> r_last_line r \<and> r_mode r \<le> 4095) HashApplyError) (\<lambda>_.
     Inr r))))"

definition same_edit :: "plan \<Rightarrow> plan \<Rightarrow> bool" where
  "same_edit p q \<longleftrightarrow> p_before_sha256 p = p_before_sha256 q \<and> p_after_sha256 p = p_after_sha256 q
     \<and> p_start p = p_start q \<and> p_end p = p_end q \<and> p_descriptor_digest p = p_descriptor_digest q"

definition splice :: "bytes \<Rightarrow> plan \<Rightarrow> string \<Rightarrow> bytes" where
  "splice current p replacement = take (nat (p_start p)) current @ utf8 replacement @ drop (nat (p_end p)) current"

definition checked_splice :: "descriptor \<Rightarrow> plan \<Rightarrow> bytes \<Rightarrow> nat \<Rightarrow> hash_exc + (bytes \<times> apply_result)" where
  \<comment> \<open>from the digest of the bytes under the lock to the result\<close>
  "checked_splice x locked current mode =
     bindE (check (sha256_hex current = p_before_sha256 locked) HashConcurrencyError) (\<lambda>_.
     bindE (construct_fact (JStr (d_path x)) current) (\<lambda>found.
     bindE (plan_hash_edit (GivenDescriptor x) found) (\<lambda>fresh.
     bindE (check (same_edit fresh locked) HashConcurrencyError) (\<lambda>_.
     let spliced = splice current fresh (d_replacement x) in
     bindE (check (length spliced \<le> MAX_PLAN_FILE_BYTES) HashApplyError) (\<lambda>_.
     bindE (check (sha256_hex spliced = p_after_sha256 locked) HashApplyError) (\<lambda>_.
     bindE (descriptor_digest x) (\<lambda>digest.
     bindE (construct_result \<lparr>r_path = d_path x, r_descriptor_digest = digest, r_before_sha256 = sha256_hex current,
        r_after_sha256 = sha256_hex spliced, r_start = p_start fresh, r_end = p_end fresh,
        r_first_line = p_first_line fresh, r_last_line = p_last_line fresh, r_rebased = p_rebased fresh,
        r_diff_sha256 = p_diff_sha256 fresh, r_mode = mode\<rparr>) (\<lambda>result.
     Inr (spliced, result)))))))))"

definition replace_at :: "environment \<Rightarrow> entries \<Rightarrow> string \<Rightarrow> bytes \<Rightarrow> nat \<Rightarrow> 'a \<Rightarrow> (hash_exc + 'a) \<times> entries" where
  \<comment> \<open>the replacement and the read-back, which end in a result\<close>
  "replace_at env d name body mode result =
     (case atomic_write_bytes_at (e_write env) (e_others env d) name body mode of
        (Inl e, d1) \<Rightarrow> (Inl e, d1)
      | (Inr _, d1) \<Rightarrow>
          let d2 = e_others_after env d1 in
          (bindE (read_regular_at (e_readback env) d2 name) (\<lambda>(published, published_mode).
             bindE (check (published = body \<and> published_mode = mode) HashApplyError) (\<lambda>_. Inr result)), d2))"

definition apply_in_folder :: "environment \<Rightarrow> descriptor \<Rightarrow> plan \<Rightarrow> string \<Rightarrow> entries \<Rightarrow> (hash_exc + apply_result) \<times> entries" where
  \<comment> \<open>the section under the lock\<close>
  "apply_in_folder env x locked name d =
     (case bindE (read_regular_at (e_read env) d name) (\<lambda>(current, mode).
             bindE (checked_splice x locked current mode) (\<lambda>(spliced, result). Inr (current, mode, spliced, result))) of
        Inl e \<Rightarrow> (Inl e, d)
      | Inr (current, mode, spliced, result) \<Rightarrow>
          if spliced = current then (Inr result, d) else replace_at env d name spliced mode result)"

definition in_pinned_folder ::
    "disk_node \<Rightarrow> string \<Rightarrow> (string \<Rightarrow> entries \<Rightarrow> (hash_exc + 'a) \<times> entries) \<Rightarrow> (hash_exc + 'a) \<times> disk_node" where
  \<comment> \<open>opens the parent directory of a path and runs a section in it\<close>
  "in_pinned_folder root path section =
     (case pinned_parent root path of
        Inl e \<Rightarrow> (Inl e, root)
      | Inr (d, parent) \<Rightarrow> (case section (last (path_components path)) parent of
          (r, parent') \<Rightarrow> (r, Folder (put_folder d (butlast (path_components path)) parent'))))"

definition bound_plan :: "descriptor_arg \<Rightarrow> plan \<Rightarrow> hash_exc + (descriptor \<times> plan)" where
  \<comment> \<open>\<open>_require_plan\<close> runs the checks of the plan again\<close>
  "bound_plan arg p =
     bindE (require_descriptor HashApplyError arg) (\<lambda>x.
     bindE (construct_plan p) (\<lambda>locked.
     bindE (check (p_path locked = d_path x) HashApplyError) (\<lambda>_.
     bindE (descriptor_digest x) (\<lambda>digest.
     bindE (check (p_descriptor_digest locked = digest) HashApplyError) (\<lambda>_. Inr (x, locked))))))"

definition apply_hash_edit :: "environment \<Rightarrow> disk_node \<Rightarrow> descriptor_arg \<Rightarrow> plan \<Rightarrow> (hash_exc + apply_result) \<times> disk_node" where
  "apply_hash_edit env root arg p =
     (case bound_plan arg p of
        Inl e \<Rightarrow> (Inl e, root)
      | Inr (x, locked) \<Rightarrow> in_pinned_folder root (d_path x) (apply_in_folder env x locked))"

section \<open>Reading, restoring and verifying\<close>

definition read_confined_regular_file :: "read_fault option \<Rightarrow> disk_node \<Rightarrow> string \<Rightarrow> hash_exc + bytes" where
  "read_confined_regular_file fault root relative =
     bindE (require_workspace_relpath (JStr relative)) (\<lambda>rel.
     bindE (pinned_parent root rel) (\<lambda>(d, parent).
     bindE (read_regular_at fault parent (last (path_components rel))) (\<lambda>(body, mode). Inr body)))"

definition write_in_folder ::
    "environment \<Rightarrow> bytes \<Rightarrow> int option \<Rightarrow> bytes option \<Rightarrow> string \<Rightarrow> entries \<Rightarrow> (hash_exc + nat) \<times> entries" where
  "write_in_folder env payload mode expected name d =
     (case read_regular_at (e_read env) d name of
        Inl e \<Rightarrow> (Inl e, d)
      | Inr (current, preserved_mode) \<Rightarrow>
          let applied_mode = (case mode of None \<Rightarrow> preserved_mode | Some m \<Rightarrow> nat m) in
          if current = payload \<and> preserved_mode = applied_mode then (Inr applied_mode, d)
          else if expected \<noteq> None \<and> expected \<noteq> Some current then (Inl HashConcurrencyError, d)
          else replace_at env d name payload applied_mode applied_mode)"

definition write_confined_regular_file ::
    "environment \<Rightarrow> disk_node \<Rightarrow> string \<Rightarrow> bytes \<Rightarrow> int option \<Rightarrow> bytes option \<Rightarrow> (hash_exc + nat) \<times> disk_node" where
  "write_confined_regular_file env root relative payload mode expected =
     (case bindE (check (length payload \<le> MAX_PLAN_FILE_BYTES) HashInputError) (\<lambda>_.
           bindE (check (case mode of None \<Rightarrow> True | Some m \<Rightarrow> 0 \<le> m \<and> m \<le> 4095) HashApplyError) (\<lambda>_.
           require_workspace_relpath (JStr relative))) of
        Inl e \<Rightarrow> (Inl e, root)
      | Inr rel \<Rightarrow> in_pinned_folder root rel (write_in_folder env payload mode expected))"

record verify_result =
  v_path :: string
  v_edit_id :: string
  v_descriptor_digest :: string
  v_before_sha256 :: string
  v_after_sha256 :: string
  v_start :: int
  v_end :: int
  v_first_line :: int
  v_last_line :: int
  v_rebased :: bool
  v_diff_sha256 :: string

definition construct_verify_result :: "verify_result \<Rightarrow> hash_exc + verify_result" where
  "construct_verify_result r =
     bindE (as_planner_error HashApplyError (require_workspace_relpath (JStr (v_path r)))) (\<lambda>_.
     bindE (as_planner_error HashApplyError (require_safe_id (JStr (v_edit_id r)))) (\<lambda>_.
     bindE (as_planner_error HashApplyError
       (mapE (\<lambda>s. require_sha256 (JStr s)) [v_descriptor_digest r, v_before_sha256 r, v_after_sha256 r, v_diff_sha256 r])) (\<lambda>_.
     bindE (as_planner_error HashApplyError
       (mapE (\<lambda>(n, low). require_integer (JInt n) (Some low))
          [(v_start r, 0), (v_end r, 0), (v_first_line r, 1), (v_last_line r, 1)])) (\<lambda>_.
     bindE (check (v_start r \<le> v_end r \<and> v_first_line r \<le> v_last_line r) HashApplyError) (\<lambda>_. Inr r)))))"

definition verify_hash_edit :: "read_fault option \<Rightarrow> disk_node \<Rightarrow> descriptor_arg \<Rightarrow> hash_exc + verify_result" where
  "verify_hash_edit fault root arg =
     bindE (require_descriptor HashApplyError arg) (\<lambda>x.
     bindE (read_confined_regular_file fault root (d_path x)) (\<lambda>current.
     bindE (construct_fact (JStr (d_path x)) current) (\<lambda>found.
     bindE (plan_hash_edit (GivenDescriptor x) found) (\<lambda>p.
     construct_verify_result \<lparr>v_path = d_path x, v_edit_id = d_edit_id x, v_descriptor_digest = p_descriptor_digest p,
       v_before_sha256 = p_before_sha256 p, v_after_sha256 = p_after_sha256 p, v_start = p_start p, v_end = p_end p,
       v_first_line = p_first_line p, v_last_line = p_last_line p, v_rebased = p_rebased p,
       v_diff_sha256 = p_diff_sha256 p\<rparr>))))"

end
