(* ===== verification/HashApplyFacts.thy ===== *)
theory HashApplyFacts
  imports HashApply HashPlanSpec
begin

text \<open>
  How the walk, the read and the replacement act on the tree.
\<close>

section \<open>The tree\<close>

fun node_at :: "entries \<Rightarrow> string list \<Rightarrow> disk_node option" where
  \<comment> \<open>what is at a path, reached through folders only\<close>
  "node_at d [] = None"
| "node_at d [c] = d c"
| "node_at d (c # c' # cs) = (case d c of Some (Folder d') \<Rightarrow> node_at d' (c' # cs) | _ \<Rightarrow> None)"

definition file_at :: "entries \<Rightarrow> string list \<Rightarrow> disk_node option" where
  "file_at d q = (case node_at d q of Some (Folder d') \<Rightarrow> None | n \<Rightarrow> n)"

lemma node_at_Cons: "q \<noteq> [] \<Longrightarrow> node_at d (c # q) = (case d c of Some (Folder d') \<Rightarrow> node_at d' q | _ \<Rightarrow> None)"
  by (cases q) auto

lemma open_parent_node: "open_parent d cs = Inr parent \<Longrightarrow> node_at d (cs @ [c]) = parent c"
  by (induction d cs rule: open_parent.induct) (auto simp: node_at_Cons split: option.splits disk_node.splits)

lemma node_open_parent: "node_at d (cs @ [c]) = Some n \<Longrightarrow> \<exists>parent. open_parent d cs = Inr parent \<and> parent c = Some n"
  by (induction d cs rule: open_parent.induct) (auto simp: node_at_Cons split: option.splits disk_node.splits)

lemma walk_parent: "open_parent d cs = Inr parent \<Longrightarrow> confined_walk d (cs @ [c]) = confined_walk parent [c]"
  by (induction d cs rule: open_parent.induct) (auto split: option.splits disk_node.splits)

lemma put_folder_open: "open_parent d cs = Inr parent \<Longrightarrow> open_parent (put_folder d cs new) cs = Inr new"
  by (induction d cs rule: open_parent.induct) (auto split: option.splits disk_node.splits)

lemma put_folder_same: "open_parent d cs = Inr parent \<Longrightarrow> put_folder d cs parent = d"
  by (induction d cs rule: open_parent.induct) (auto simp: fun_upd_idem split: option.splits disk_node.splits)

lemma put_folder_twice: "open_parent d cs = Inr parent \<Longrightarrow> put_folder (put_folder d cs new) cs new' = put_folder d cs new'"
  by (induction d cs rule: open_parent.induct) (auto split: option.splits disk_node.splits)

lemma file_at_Cons: "q \<noteq> [] \<Longrightarrow> file_at d (c # q) = (case d c of Some (Folder d') \<Rightarrow> file_at d' q | _ \<Rightarrow> None)"
  by (auto simp: file_at_def node_at_Cons split: option.splits disk_node.splits)

lemma put_folder_frame:
  assumes "open_parent d cs = Inr parent" "\<And>r. r \<noteq> [c] \<Longrightarrow> file_at new r = file_at parent r" "q \<noteq> cs @ [c]"
  shows "file_at (put_folder d cs new) q = file_at d q"
  using assms
proof (induction d cs arbitrary: q rule: open_parent.induct)
  case (2 d x cs)
  obtain d' where d': "d x = Some (Folder d')" using "2.prems"(1) by (auto split: option.splits disk_node.splits)
  show ?case
  proof (cases q)
    case (Cons y r)
    show ?thesis
    proof (cases "r = []")
      case True
      then show ?thesis using Cons d' by (cases "y = x") (auto simp: file_at_def)
    next
      case False
      then show ?thesis using Cons d' 2 by (cases "y = x") (auto simp: file_at_Cons)
    qed
  qed (simp add: file_at_def)
qed simp

lemma file_at_update:
  assumes "\<not> is_folder (d c)" "\<not> is_folder (Some n)" "r \<noteq> [c]"
  shows "file_at (d(c \<mapsto> n)) r = file_at d r"
proof (cases r)
  case (Cons y q)
  show ?thesis
  proof (cases "q = []")
    case False
    then show ?thesis using Cons assms by (cases "y = c") (auto simp: file_at_Cons split: option.splits disk_node.splits)
  qed (use Cons assms(3) in \<open>auto simp: file_at_def\<close>)
qed (simp add: file_at_def)

section \<open>Paths\<close>

lemma split_on_nonempty [simp]: "split_on c s \<noteq> []"
  by (induction s) (auto split: list.splits)

lemma split_on_parts: "p \<in> set (split_on c s) \<Longrightarrow> c \<notin> set p \<and> set p \<subseteq> set s"
proof (induction s arbitrary: p)
  case (Cons x xs)
  then show ?case by (cases "x = c") (fastforce split: list.splits)+
qed simp

lemma split_on_plain: "c \<notin> set s \<Longrightarrow> split_on c s = [s]"
  by (induction s) auto

lemma split_on_append: "c \<notin> set s \<Longrightarrow> split_on c (s @ c # t) = s # split_on c t"
  by (induction s) auto

lemma split_join: "ps \<noteq> [] \<Longrightarrow> \<forall>p \<in> set ps. c \<notin> set p \<Longrightarrow> split_on c (join [c] ps) = ps"
  by (induction "[c]" ps rule: join.induct) (auto simp: split_on_plain split_on_append)

lemma components_ok:
  assumes "require_workspace_relpath v = Inr path"
  shows "list_all component_ok (path_components path)" "path_components path \<noteq> []"
proof -
  have ok: "workspace_path_ok path" using assms by (auto simp: require_workspace_relpath_def result_simps split: option.splits)
  have free: "\<forall>p \<in> set (posix_parts path). CHR ''/'' \<notin> set p \<and> set p \<subseteq> set path"
    using split_on_parts by (fastforce simp: posix_parts_def)
  have parts: "path_components path = posix_parts path"
  proof -
    have "split_on CHR ''/'' (join ''/'' (posix_parts path)) = posix_parts path"
      using ok free by (intro split_join) (auto simp: workspace_path_ok_def)
    then show ?thesis using ok by (simp add: workspace_path_ok_def path_components_def)
  qed
  then show "path_components path \<noteq> []" by (simp add: path_components_def flip: parts)
  have "component_ok p" if p: "p \<in> set (posix_parts path)" for p
  proof -
    have name: "p \<notin> {''.'', ''..'', []}" "CHR ''/'' \<notin> set p" "char_of (92 :: nat) \<notin> set p"
      using ok p free by (auto simp: workspace_path_ok_def path_part_ok_def list_all_iff)
    have "32 \<le> code_point x" if "x \<in> set p" for x
    proof -
      have "x \<in> set path" using that p free by blast
      then have "\<not> is_control x" using ok by (simp add: workspace_path_ok_def no_control_def list_all_iff)
      then show ?thesis by (simp add: is_control_def)
    qed
    moreover have "posix_name p = p" using name split_on_plain [OF name(2)] by (simp add: posix_name_def posix_parts_def)
    ultimately show ?thesis using name by (auto simp: component_ok_def list_all_iff)
  qed
  then show "list_all component_ok (path_components path)" using parts by (simp add: list_all_iff)
qed

section \<open>The pinned parent\<close>

lemma pinned_parent_Inr:
  assumes "pinned_parent root path = Inr (d, parent)"
  shows "root = Folder d" "open_parent d (butlast (path_components path)) = Inr parent" "path_components path \<noteq> []"
    "node_at d (path_components path) = parent (last (path_components path))" "component_ok (last (path_components path))"
proof -
  have run: "workspace_root root = Inr d" "confined_target d path = Inr ()" "open_parent d (butlast (path_components path)) = Inr parent"
    using assms by (auto simp: pinned_parent_def result_simps)
  then show "root = Folder d" by (auto simp: workspace_root_def split: disk_node.splits)
  show "open_parent d (butlast (path_components path)) = Inr parent" by (fact run(3))
  have ok: "list_all component_ok (path_components path)" using run(2) by (auto simp: confined_target_def result_simps as_planner_error_def require_workspace_relpath_def text_val_def split: sum.splits if_splits)
  show some: "path_components path \<noteq> []" by (simp add: path_components_def)
  show "node_at d (path_components path) = parent (last (path_components path))"
    using open_parent_node [OF run(3), of "last (path_components path)"] some by simp
  show "component_ok (last (path_components path))" using ok some by (simp add: list_all_iff)
qed

lemma pinned_parent_intro:
  assumes "require_workspace_relpath (JStr path) = Inr path" "open_parent d (butlast (path_components path)) = Inr parent"
    and "\<not> is_link (parent (last (path_components path)))"
  shows "pinned_parent (Folder d) path = Inr (d, parent)"
proof -
  have "path_components path = butlast (path_components path) @ [last (path_components path)]"
    using components_ok(2) [OF assms(1)] by simp
  then have "confined_walk d (path_components path) = confined_walk parent [last (path_components path)]"
    using walk_parent [OF assms(2)] by metis
  moreover have "confined_walk parent [last (path_components path)] = Inr ()"
    using assms(3) by (auto split: option.splits disk_node.splits)
  ultimately show ?thesis
    using assms(1,2) components_ok(1) [OF assms(1)]
    by (simp add: pinned_parent_def workspace_root_def confined_target_def as_planner_error_def check_def)
qed

section \<open>Reading and replacing\<close>

lemma read_regular_Inr: "read_regular_at fault d name = Inr (body, mode) \<longleftrightarrow>
    d name = Some (RegularFile body mode 1) \<and> length body \<le> MAX_PLAN_FILE_BYTES \<and> fault = None"
  by (cases fault; cases "the fault"; cases "d name") (auto simp: read_regular_at_def result_simps split: disk_node.splits)

definition others_idle :: "environment \<Rightarrow> bool" where
  "others_idle env \<longleftrightarrow> (\<forall>d. e_others env d = d \<and> e_others_after env d = d)"

lemma replace_at_Inr:
  "replace_at env d name body mode result = (Inr r, d') \<Longrightarrow>
     r = result \<and> d' name = Some (RegularFile body mode 1) \<and> (others_idle env \<longrightarrow> d' = d(name \<mapsto> RegularFile body mode 1))"
  by (auto simp: replace_at_def atomic_write_bytes_at_def result_simps read_regular_Inr Let_def others_idle_def
      split: prod.splits sum.splits if_splits)

lemma replace_at_atomic:
  assumes "others_idle env" "replace_at env d name body mode result = (out, d')"
  shows "d' = d \<or> d' = d(name \<mapsto> RegularFile body mode 1) \<and> \<not> is_folder (d name) \<and> \<not> is_link (d name)"
    "e_write env \<noteq> Some AfterRename \<Longrightarrow> e_readback env = None \<Longrightarrow> length body \<le> MAX_PLAN_FILE_BYTES \<Longrightarrow> out = Inl e \<Longrightarrow> d' = d"
  using assms
  by (auto simp: replace_at_def atomic_write_bytes_at_def read_regular_at_def Let_def others_idle_def check_def
      split: prod.splits sum.splits if_splits)

section \<open>What an application does\<close>

lemma bound_plan_Inr: "bound_plan arg p = Inr (x, locked) \<Longrightarrow>
    locked = p \<and> require_descriptor HashApplyError arg = Inr x \<and> construct_plan p = Inr p \<and> p_path p = d_path x
    \<and> descriptor_digest x = Inr (p_descriptor_digest p)"
  by (auto simp: bound_plan_def construct_plan_def result_simps)

lemma construct_fact_Inr: "construct_fact (JStr s) b = Inr found \<Longrightarrow> found = \<lparr>f_path = s, f_bytes = b\<rparr>"
  by (auto simp: construct_fact_def as_planner_error_def require_workspace_relpath_def text_val_def result_simps
      split: sum.splits if_splits)

lemma construct_result_Inr: "construct_result r = Inr r' \<Longrightarrow> r = r'"
  unfolding construct_result_def bindE_eq_Inr by (elim exE conjE) simp

lemma checked_splice_Inr:
  assumes "checked_splice x locked current mode = Inr (spliced, r)"
  obtains fresh where "plan_hash_edit (GivenDescriptor x) \<lparr>f_path = d_path x, f_bytes = current\<rparr> = Inr fresh"
    "same_edit fresh locked" "sha256_hex current = p_before_sha256 locked" "spliced = splice current fresh (d_replacement x)"
    "sha256_hex spliced = p_after_sha256 locked" "length spliced \<le> MAX_PLAN_FILE_BYTES"
    "r_path r = d_path x" "r_mode r = mode" "r_before_sha256 r = sha256_hex current" "r_after_sha256 r = sha256_hex spliced"
    "r_rebased r = p_rebased fresh"
proof -
  from assms obtain found fresh digest where run: "construct_fact (JStr (d_path x)) current = Inr found"
    "plan_hash_edit (GivenDescriptor x) found = Inr fresh" "same_edit fresh locked" "sha256_hex current = p_before_sha256 locked"
    "spliced = splice current fresh (d_replacement x)" "length spliced \<le> MAX_PLAN_FILE_BYTES"
    "sha256_hex spliced = p_after_sha256 locked"
    "construct_result \<lparr>r_path = d_path x, r_descriptor_digest = digest, r_before_sha256 = sha256_hex current,
        r_after_sha256 = sha256_hex spliced, r_start = p_start fresh, r_end = p_end fresh,
        r_first_line = p_first_line fresh, r_last_line = p_last_line fresh, r_rebased = p_rebased fresh,
        r_diff_sha256 = p_diff_sha256 fresh, r_mode = mode\<rparr> = Inr r"
    unfolding checked_splice_def Let_def bindE_eq_Inr check_eq_Inr
    by (elim exE conjE) (auto simp only: sum.inject prod.inject)
  note result = construct_result_Inr [OF run(8), symmetric]
  have "found = \<lparr>f_path = d_path x, f_bytes = current\<rparr>" using run(1) by (rule construct_fact_Inr)
  then show thesis using that [of fresh] run by (simp add: result)
qed

lemma splice_plan_of: "splice b (plan_of x b pre post rebased) (d_replacement x) = planned_bytes b (candidate_at x b pre) (d_replacement x)"
  by (simp add: splice_def planned_bytes_def plan_of_def Let_def)

lemma checked_splice_edited:
  assumes "checked_splice x locked current mode = Inr (spliced, r)" "descriptor_valid x"
  shows "\<exists>pre post. decode_text current = Some (pre @ needle_of x @ post)
    \<and> {i. occurs_at (pre @ needle_of x @ post) (needle_of x) i} = {length pre} \<and> spliced = encode_text (edited x pre post)"
  using assms(1)
proof (rule checked_splice_Inr)
  fix fresh
  assume "plan_hash_edit (GivenDescriptor x) \<lparr>f_path = d_path x, f_bytes = current\<rparr> = Inr fresh"
    and spliced: "spliced = splice current fresh (d_replacement x)"
  then show ?thesis
  proof (elim plan_hash_edit_Inr)
    fix x' pre post
    let ?found = "\<lparr>f_path = d_path x, f_bytes = current\<rparr>"
    assume x': "require_descriptor HashInputError (GivenDescriptor x) = Inr x'"
      and found_text: "decode_text (f_bytes ?found) = Some (pre @ needle_of x' @ post)"
        "{i. occurs_at (pre @ needle_of x' @ post) (needle_of x') i} = {length pre}"
      and fresh: "fresh = plan_of x' (f_bytes ?found) pre post (sha256_hex (f_bytes ?found) \<noteq> d_base_sha256 x')"
    have "x' = x" using x' require_given [OF assms(2)] by simp
    then have "decode_text current = Some (pre @ needle_of x @ post)"
      "{i. occurs_at (pre @ needle_of x @ post) (needle_of x) i} = {length pre}" using found_text by simp_all
    moreover have "bound_at x (pre @ needle_of x @ post) pre post" by (simp add: bound_at_def)
    ultimately show ?thesis
      using planned_bytes_edited(1) [of current _ x pre post] spliced fresh \<open>x' = x\<close> by (auto simp: splice_plan_of)
  qed
qed

lemma apply_in_folder_out:
  assumes "apply_in_folder env x locked name d = (out, d1)"
  obtains e where "out = Inl e" "d1 = d"
  | current mode spliced r where "d name = Some (RegularFile current mode 1)" "e_read env = None" "length current \<le> MAX_PLAN_FILE_BYTES"
    "checked_splice x locked current mode = Inr (spliced, r)" "spliced = current" "out = Inr r" "d1 = d"
  | current mode spliced r where "d name = Some (RegularFile current mode 1)" "e_read env = None" "length current \<le> MAX_PLAN_FILE_BYTES"
    "checked_splice x locked current mode = Inr (spliced, r)" "spliced \<noteq> current" "replace_at env d name spliced mode r = (out, d1)"
proof (cases "bindE (read_regular_at (e_read env) d name) (\<lambda>(current, mode).
    bindE (checked_splice x locked current mode) (\<lambda>(spliced, result). Inr (current, mode, spliced, result)))")
  case (Inl e)
  then show thesis using assms that(1) by (auto simp: apply_in_folder_def)
next
  case (Inr y)
  then obtain current mode spliced r where y: "y = (current, mode, spliced, r)" "checked_splice x locked current mode = Inr (spliced, r)"
    "read_regular_at (e_read env) d name = Inr (current, mode)" by (auto simp: result_simps)
  then have read: "d name = Some (RegularFile current mode 1)" "e_read env = None" "length current \<le> MAX_PLAN_FILE_BYTES"
    by (simp_all add: read_regular_Inr)
  show thesis
  proof (cases "spliced = current")
    case True
    then show thesis using assms that(2) [OF read y(2)] Inr y(1) by (simp add: apply_in_folder_def)
  next
    case False
    then show thesis using assms that(3) [OF read y(2)] Inr y(1) by (simp add: apply_in_folder_def)
  qed
qed

lemma apply_out:
  assumes "apply_hash_edit env root arg p = (out, root')"
  obtains e where "out = Inl e" "root' = root"
  | x d parent parent' where "bound_plan arg p = Inr (x, p)" "descriptor_valid x" "pinned_parent root (d_path x) = Inr (d, parent)"
    "root' = Folder (put_folder d (butlast (path_components (d_path x))) parent')"
    "apply_in_folder env x p (last (path_components (d_path x))) parent = (out, parent')"
proof (cases "bound_plan arg p")
  case (Inl e)
  then show thesis using assms that(1) by (auto simp: apply_hash_edit_def)
next
  case (Inr y)
  then obtain x where y: "y = (x, p)" "descriptor_valid x" using bound_plan_Inr require_descriptor_valid by (metis prod.exhaust)
  show thesis
  proof (cases "pinned_parent root (d_path x)")
    case (Inl e)
    then show thesis using assms that(1) Inr y by (auto simp: apply_hash_edit_def in_pinned_folder_def)
  next
    case pin: (Inr z)
    then show thesis using assms that(2) [OF _ y(2)] Inr y(1) by (cases z) (auto simp: apply_hash_edit_def in_pinned_folder_def split: prod.splits)
  qed
qed

lemma pinned_update:
  assumes "pinned_parent root path = Inr (d, parent)" "parent (last (path_components path)) = Some (RegularFile b m k)"
    and "d' = put_folder d (butlast (path_components path)) (parent(last (path_components path) \<mapsto> RegularFile b' m' 1))"
  shows "node_at d' (path_components path) = Some (RegularFile b' m' 1)" "q \<noteq> path_components path \<Longrightarrow> file_at d' q = file_at d q"
proof -
  note pin = pinned_parent_Inr [OF assms(1)]
  have path: "butlast (path_components path) @ [last (path_components path)] = path_components path" using pin(3) by simp
  have "open_parent d' (butlast (path_components path)) = Inr (parent(last (path_components path) \<mapsto> RegularFile b' m' 1))"
    using put_folder_open [OF pin(2)] assms(3) by simp
  from open_parent_node [OF this, of "last (path_components path)"] show "node_at d' (path_components path) = Some (RegularFile b' m' 1)"
    unfolding path by simp
  show "file_at d' q = file_at d q" if "q \<noteq> path_components path"
    unfolding assms(3) by (rule put_folder_frame [OF pin(2)]) (use assms(2) that path in \<open>auto intro: file_at_update\<close>)
qed

end
