(* ===== verification/HashApplySafety.thy ===== *)
theory HashApplySafety
  imports HashApplyFacts HashDemo
begin

text \<open>
  The properties of applying a plan: what a success means whatever the environment does, what a failure leaves
  behind, that a plan is good for one application, that a plan made from the file can be applied, and that
  the restore of the same invocation undoes it.
\<close>

section \<open>Outcomes\<close>

definition target_of :: "descriptor \<Rightarrow> string list" where
  "target_of x = path_components (d_path x)"

definition replaced :: "disk_node \<Rightarrow> disk_node \<Rightarrow> string list \<Rightarrow> bytes \<Rightarrow> bytes \<Rightarrow> nat \<Rightarrow> bool" where
  \<comment> \<open>the second tree is the first with the content of one regular file exchanged\<close>
  "replaced root root' q b b' mode \<longleftrightarrow> (\<exists>d d'. root = Folder d \<and> root' = Folder d'
     \<and> node_at d q = Some (RegularFile b mode 1) \<and> node_at d' q = Some (RegularFile b' mode 1)
     \<and> (\<forall>q'. q' \<noteq> q \<longrightarrow> file_at d' q' = file_at d q'))"

lemma replaced_same:
  assumes "pinned_parent root path = Inr (d, parent)" "parent (last (path_components path)) = Some (RegularFile b m 1)"
  shows "replaced root root (path_components path) b b m"
  using pinned_parent_Inr [OF assms(1)] assms(2) by (auto simp: replaced_def)

lemma replaced_update:
  assumes "pinned_parent root path = Inr (d, parent)" "parent (last (path_components path)) = Some (RegularFile b m 1)"
  shows "replaced root (Folder (put_folder d (butlast (path_components path)) (parent(last (path_components path) \<mapsto> RegularFile b' m 1))))
    (path_components path) b b' m"
  using pinned_parent_Inr [OF assms(1)] pinned_update [OF assms refl] assms(2) by (auto simp: replaced_def)

lemma apply_success:
  assumes "apply_hash_edit env root arg p = (Inr r, root')"
  obtains x b m spliced where "require_descriptor HashApplyError arg = Inr x" "descriptor_valid x" "bound_plan arg p = Inr (x, p)"
    "checked_splice x p b m = Inr (spliced, r)" "length b \<le> MAX_PLAN_FILE_BYTES"
    "\<exists>d'. root' = Folder d' \<and> node_at d' (target_of x) = Some (RegularFile spliced m 1)"
    "\<exists>d. root = Folder d \<and> node_at d (target_of x) = Some (RegularFile b m 1)"
    "others_idle env \<Longrightarrow> replaced root root' (target_of x) b spliced m"
    "\<exists>d parent. pinned_parent root (d_path x) = Inr (d, parent) \<and> parent (last (target_of x)) = Some (RegularFile b m 1)
      \<and> (\<exists>parent'. root' = Folder (put_folder d (butlast (target_of x)) parent') \<and> parent' (last (target_of x)) = Some (RegularFile spliced m 1)
          \<and> (others_idle env \<longrightarrow> parent' = parent(last (target_of x) \<mapsto> RegularFile spliced m 1)))"
  using assms
proof (rule apply_out)
  fix x :: descriptor and d parent parent'
  let ?name = "last (path_components (d_path x))"
  assume x: "bound_plan arg p = Inr (x, p)" "descriptor_valid x" and pin: "pinned_parent root (d_path x) = Inr (d, parent)"
    and root': "root' = Folder (put_folder d (butlast (path_components (d_path x))) parent')"
    and run: "apply_in_folder env x p ?name parent = (Inr r, parent')"
  note pinned = pinned_parent_Inr [OF pin]
  have desc: "require_descriptor HashApplyError arg = Inr x" using bound_plan_Inr [OF x(1)] by simp
  have path: "butlast (path_components (d_path x)) @ [?name] = path_components (d_path x)" using pinned(3) by simp
  note found = that
  have final: "thesis" if read: "parent ?name = Some (RegularFile b m 1)" "length b \<le> MAX_PLAN_FILE_BYTES"
    and splice: "checked_splice x p b m = Inr (spliced, r)"
    and after: "parent' ?name = Some (RegularFile spliced m 1)"
      "others_idle env \<longrightarrow> parent' = parent(?name \<mapsto> RegularFile spliced m 1)" for b m spliced
  proof (rule found [OF desc x(2,1) splice read(2)])
    have "node_at (put_folder d (butlast (path_components (d_path x))) parent') (butlast (path_components (d_path x)) @ [?name])
        = parent' ?name" by (rule open_parent_node [OF put_folder_open [OF pinned(2)]])
    then show "\<exists>d'. root' = Folder d' \<and> node_at d' (target_of x) = Some (RegularFile spliced m 1)"
      unfolding path target_of_def by (simp add: root' after(1))
    show "\<exists>d. root = Folder d \<and> node_at d (target_of x) = Some (RegularFile b m 1)"
      using pinned(1,4) read(1) by (simp add: target_of_def)
    show "replaced root root' (target_of x) b spliced m" if "others_idle env"
      using replaced_update [OF pin read(1), of spliced] after(2) that by (simp add: target_of_def root')
    show "\<exists>d parent. pinned_parent root (d_path x) = Inr (d, parent) \<and> parent (last (target_of x)) = Some (RegularFile b m 1)
      \<and> (\<exists>parent'. root' = Folder (put_folder d (butlast (target_of x)) parent') \<and> parent' (last (target_of x)) = Some (RegularFile spliced m 1)
          \<and> (others_idle env \<longrightarrow> parent' = parent(last (target_of x) \<mapsto> RegularFile spliced m 1)))"
      using pin read(1) root' after unfolding target_of_def by blast
  qed
  from run show thesis
  proof (rule apply_in_folder_out)
    fix current mode spliced r'
    assume "parent ?name = Some (RegularFile current mode 1)" "length current \<le> MAX_PLAN_FILE_BYTES"
      "checked_splice x p current mode = Inr (spliced, r')" "spliced = current" "Inr r = (Inr r' :: hash_exc + apply_result)" "parent' = parent"
    then show thesis using final [of current mode spliced] by (simp add: fun_upd_idem)
  next
    fix current mode spliced r'
    assume "parent ?name = Some (RegularFile current mode 1)" "length current \<le> MAX_PLAN_FILE_BYTES"
      "checked_splice x p current mode = Inr (spliced, r')" and step: "replace_at env parent ?name spliced mode r' = (Inr r, parent')"
    then show thesis using final [of current mode spliced] replace_at_Inr [OF step] by simp
  qed simp
qed simp

lemma require_descriptor_error: "require_descriptor e arg = Inr x \<Longrightarrow> require_descriptor e' arg = Inr x"
  by (auto simp: require_descriptor_def split: descriptor_arg.splits sum.splits)

lemma plan_given: "require_descriptor HashInputError arg = Inr x \<Longrightarrow> plan_hash_edit (GivenDescriptor x) found = plan_hash_edit arg found"
  using require_given [OF require_descriptor_valid] by (auto simp: plan_hash_edit_def)

lemma construct_plan_Inr: "construct_plan q = Inr p \<Longrightarrow> q = p"
  unfolding construct_plan_def bindE_eq_Inr by (elim exE conjE) simp

lemma plan_constructed: "plan_hash_edit arg found = Inr p \<Longrightarrow> construct_plan p = Inr p"
proof -
  assume "plan_hash_edit arg found = Inr p"
  then obtain x b t choice where "finish_plan x b t choice = Inr p"
    unfolding plan_hash_edit_def bindE_eq_Inr by (elim exE conjE) (auto simp: bindE_eq_Inr split: option.splits)
  then obtain q where "construct_plan q = Inr p"
    by (cases choice) (auto simp: finish_plan_def Let_def bindE_eq_Inr split: option.splits)
  with construct_plan_Inr [OF this] show ?thesis by simp
qed

lemma in_pinned_again:
  assumes "pinned_parent root path = Inr (d, parent)" "require_workspace_relpath (JStr path) = Inr path"
    and "\<not> is_link (parent' (last (path_components path)))"
  shows "in_pinned_folder (Folder (put_folder d (butlast (path_components path)) parent')) path section =
    (case section (last (path_components path)) parent' of
      (r, parent'') \<Rightarrow> (r, Folder (put_folder d (butlast (path_components path)) parent'')))"
proof -
  note open_d = pinned_parent_Inr(2) [OF assms(1)]
  have "pinned_parent (Folder (put_folder d (butlast (path_components path)) parent')) path
      = Inr (put_folder d (butlast (path_components path)) parent', parent')"
    using assms(2,3) put_folder_open [OF open_d] by (intro pinned_parent_intro)
  then show ?thesis using put_folder_twice [OF open_d] by (simp add: in_pinned_folder_def split: prod.splits)
qed


section \<open>Applying a fresh plan\<close>

lemma fresh_splice:
  assumes "plan_hash_edit arg \<lparr>f_path = path, f_bytes = b\<rparr> = Inr p" "m \<le> 4095"
  shows "\<exists>x spliced r. require_descriptor HashInputError arg = Inr x \<and> descriptor_valid x \<and> path = d_path x \<and> bound_plan arg p = Inr (x, p)
    \<and> checked_splice x p b m = Inr (spliced, r) \<and> length b \<le> MAX_PLAN_FILE_BYTES"
  using assms(1)
proof (rule plan_hash_edit_Inr)
  fix x pre post
  let ?found = "\<lparr>f_path = path, f_bytes = b\<rparr>"
  assume x: "require_descriptor HashInputError arg = Inr x" "descriptor_valid x" "f_path ?found = d_path x" "current_ok (f_bytes ?found)"
    and t: "decode_text (f_bytes ?found) = Some (pre @ needle_of x @ post)"
    and p: "p = plan_of x (f_bytes ?found) pre post (sha256_hex (f_bytes ?found) \<noteq> d_base_sha256 x)"
    and fits: "length (encode_text (edited x pre post)) \<le> MAX_PLAN_FILE_BYTES"
  obtain bytes where digest: "descriptor_digest x = Inr (sha256_hex bytes)" using digest_of by blast
  then have digest': "p_descriptor_digest p = sha256_hex bytes" by (simp add: p plan_of_def Let_def)
  have path: "path = d_path x" using x(3) by simp
  have bound: "bound_plan arg p = Inr (x, p)"
    using require_descriptor_error [OF x(1)] plan_constructed [OF assms(1)] digest
    by (simp add: bound_plan_def check_def digest') (simp add: p plan_of_def Let_def)
  have at: "bound_at x (pre @ needle_of x @ post) pre post" by (simp add: bound_at_def)
  have splice: "splice b p (d_replacement x) = encode_text (edited x pre post)"
    using planned_bytes_edited(1) [OF t at] by (simp add: p splice_plan_of)
  have "construct_plan p = Inr p" by (rule plan_constructed [OF assms(1)])
  then have range: "0 \<le> p_start p" "p_start p \<le> p_end p" "1 \<le> p_first_line p" "p_first_line p \<le> p_last_line p"
    by (auto simp: construct_plan_def result_simps)
  have sha: "require_sha256 (JStr (sha256_hex s)) = Inr (sha256_hex s)" for s by (simp add: require_sha256_def text_val_def sha256_hex_form)
  have diff: "p_diff_sha256 p = sha256_hex (encode_text (p_diff p))" by (simp add: p plan_of_def Let_def)
  have after: "sha256_hex (encode_text (edited x pre post)) = p_after_sha256 p" "sha256_hex b = p_before_sha256 p"
    by (simp_all add: p plan_of_def Let_def)
  have result: "construct_result \<lparr>r_path = d_path x, r_descriptor_digest = sha256_hex bytes, r_before_sha256 = sha256_hex b,
      r_after_sha256 = sha256_hex (encode_text (edited x pre post)), r_start = p_start p, r_end = p_end p,
      r_first_line = p_first_line p, r_last_line = p_last_line p, r_rebased = p_rebased p,
      r_diff_sha256 = p_diff_sha256 p, r_mode = m\<rparr>
    = Inr \<lparr>r_path = d_path x, r_descriptor_digest = sha256_hex bytes, r_before_sha256 = sha256_hex b,
      r_after_sha256 = sha256_hex (encode_text (edited x pre post)), r_start = p_start p, r_end = p_end p,
      r_first_line = p_first_line p, r_last_line = p_last_line p, r_rebased = p_rebased p,
      r_diff_sha256 = p_diff_sha256 p, r_mode = m\<rparr>"
    using valid_path [OF x(2)] range assms(2)
    by (simp add: construct_result_def as_planner_error_def sha diff require_integer_def check_def)
  have found: "construct_fact (JStr (d_path x)) b = Inr \<lparr>f_path = d_path x, f_bytes = b\<rparr>"
    using valid_path [OF x(2)] by (simp add: construct_fact_def as_planner_error_def)
  have fresh: "plan_hash_edit (GivenDescriptor x) \<lparr>f_path = d_path x, f_bytes = b\<rparr> = Inr p"
    using assms(1) plan_given [OF x(1)] path by simp
  have "\<exists>r. checked_splice x p b m = Inr (encode_text (edited x pre post), r)"
    unfolding checked_splice_def Let_def found bindE_Inr fresh splice result digest
    using after fits by (simp add: check_def same_edit_def)
  moreover have "length b \<le> MAX_PLAN_FILE_BYTES" using x(4) by (simp add: current_ok_def)
  ultimately show ?thesis using x(1,2) path bound by blast
qed

lemma node_parent:
  assumes "node_at d (path_components path) = Some n" "require_workspace_relpath (JStr path) = Inr path" "\<not> is_link (Some n)"
  shows "\<exists>parent. pinned_parent (Folder d) path = Inr (d, parent) \<and> parent (last (path_components path)) = Some n"
proof -
  have "path_components path = butlast (path_components path) @ [last (path_components path)]"
    using components_ok(2) [OF assms(2)] by simp
  then obtain parent where "open_parent d (butlast (path_components path)) = Inr parent" "parent (last (path_components path)) = Some n"
    using node_open_parent assms(1) by metis
  then show ?thesis using pinned_parent_intro [OF assms(2)] assms(3) by metis
qed

lemma apply_quiet:
  assumes "checked_splice x p b m = Inr (spliced, r)" "parent name = Some (RegularFile b m 1)" "length b \<le> MAX_PLAN_FILE_BYTES"
    and "component_ok name"
  shows "apply_in_folder quiet x p name parent = (Inr r, parent(name \<mapsto> RegularFile spliced m 1))"
proof -
  have "length spliced \<le> MAX_PLAN_FILE_BYTES" using assms(1) by (rule checked_splice_Inr)
  then show ?thesis
    using assms
    by (auto simp: apply_in_folder_def quiet_def read_regular_at_def check_def replace_at_def atomic_write_bytes_at_def Let_def fun_upd_idem)
qed

lemma fresh_plan_quiet:
  assumes "plan_hash_edit arg \<lparr>f_path = path, f_bytes = b\<rparr> = Inr p" "node_at d (path_components path) = Some (RegularFile b m 1)" "m \<le> 4095"
  shows "\<exists>r root' b'. apply_hash_edit quiet (Folder d) arg p = (Inr r, root')
    \<and> replaced (Folder d) root' (path_components path) b b' m \<and> sha256_hex b' = p_after_sha256 p"
proof -
  obtain x spliced r where x: "descriptor_valid x" "path = d_path x" "bound_plan arg p = Inr (x, p)"
    and splice: "checked_splice x p b m = Inr (spliced, r)" "length b \<le> MAX_PLAN_FILE_BYTES"
    using fresh_splice [OF assms(1,3)] by blast
  have rel: "require_workspace_relpath (JStr path) = Inr path" using valid_path [OF x(1)] x(2) by simp
  obtain parent where pin: "pinned_parent (Folder d) path = Inr (d, parent)" "parent (last (path_components path)) = Some (RegularFile b m 1)"
    using node_parent [OF assms(2) rel] by auto
  let ?root' = "Folder (put_folder d (butlast (path_components path)) (parent(last (path_components path) \<mapsto> RegularFile spliced m 1)))"
  have "apply_hash_edit quiet (Folder d) arg p = (Inr r, ?root')"
    using apply_quiet [where parent = parent, OF splice(1) pin(2) splice(2) pinned_parent_Inr(5) [OF pin(1)]] pin(1) x(2,3)
    by (simp add: apply_hash_edit_def in_pinned_folder_def)
  moreover have "replaced (Folder d) ?root' (path_components path) b spliced m" by (rule replaced_update [OF pin])
  moreover have "sha256_hex spliced = p_after_sha256 p" using splice(1) by (rule checked_splice_Inr)
  ultimately show ?thesis by blast
qed

section \<open>A tree\<close>

definition demo_root :: disk_node where
  "demo_root = Folder (Map.empty(''f'' \<mapsto> RegularFile (utf8 demo_content) 420 1))"

lemma demo_found: "plan_hash_edit (GivenDescriptor demo_edit) \<lparr>f_path = ''f'', f_bytes = utf8 demo_content\<rparr> = Inr demo_plan"
  using demo_planned by (simp add: demo_file_def)

lemma demo_node: "node_at (Map.empty(''f'' \<mapsto> RegularFile (utf8 demo_content) 420 1)) (path_components ''f'') = Some (RegularFile (utf8 demo_content) 420 1)"
  by (simp add: path_components_def)

lemma demo_applied:
  obtains r root' where "apply_hash_edit quiet demo_root (GivenDescriptor demo_edit) demo_plan = (Inr r, root')"
  using fresh_plan_quiet [OF demo_found demo_node] by (auto simp: demo_root_def)

text \<open>C4: whatever the environment does, an application that returns a result has found at the path, reached through
  directories only and without a symbolic link, a single-link regular file with the bytes that the plan was made for,
  and leaves there exactly these bytes with the one occurrence of the old text replaced, whose hash is the one the plan
  announces, under the same permission bits; if no other process interferes, every other file of the workspace is as before\<close>
theorem apply_effect:
  assumes "apply_hash_edit env root arg p = (Inr r, root')"
  shows "\<exists>x b m pre post. require_descriptor HashApplyError arg = Inr x \<and> p_path p = d_path x
    \<and> (\<exists>d. root = Folder d \<and> node_at d (target_of x) = Some (RegularFile b m 1))
    \<and> sha256_hex b = p_before_sha256 p \<and> decode_text b = Some (pre @ needle_of x @ post)
    \<and> {i. occurs_at (pre @ needle_of x @ post) (needle_of x) i} = {length pre}
    \<and> sha256_hex (encode_text (edited x pre post)) = p_after_sha256 p
    \<and> (\<exists>d'. root' = Folder d' \<and> node_at d' (target_of x) = Some (RegularFile (encode_text (edited x pre post)) m 1))
    \<and> (others_idle env \<longrightarrow> replaced root root' (target_of x) b (encode_text (edited x pre post)) m)
    \<and> r_path r = d_path x \<and> r_mode r = m"
  using assms
proof (rule apply_success)
  fix x :: descriptor and b m spliced
  assume x: "require_descriptor HashApplyError arg = Inr x" "descriptor_valid x" "bound_plan arg p = Inr (x, p)"
    and splice: "checked_splice x p b m = Inr (spliced, r)"
    and after: "\<exists>d'. root' = Folder d' \<and> node_at d' (target_of x) = Some (RegularFile spliced m 1)"
    and before: "\<exists>d. root = Folder d \<and> node_at d (target_of x) = Some (RegularFile b m 1)"
    and idle: "others_idle env \<Longrightarrow> replaced root root' (target_of x) b spliced m"
  obtain pre post where exact: "decode_text b = Some (pre @ needle_of x @ post)"
    "{i. occurs_at (pre @ needle_of x @ post) (needle_of x) i} = {length pre}" "spliced = encode_text (edited x pre post)"
    using checked_splice_edited [OF splice x(2)] by blast
  have hashes: "sha256_hex b = p_before_sha256 p" "sha256_hex spliced = p_after_sha256 p" "r_path r = d_path x" "r_mode r = m"
    using splice by (rule checked_splice_Inr, simp)+
  have "p_path p = d_path x" using bound_plan_Inr [OF x(3)] by simp
  then show ?thesis
    using x(1) before after idle exact hashes unfolding exact(3)
    by (intro exI [where x = x] exI [where x = b] exI [where x = m]) blast
qed

lemma apply_effect_witness:
  "\<exists>r root' d'. apply_hash_edit quiet demo_root (GivenDescriptor demo_edit) demo_plan = (Inr r, root') \<and> root' = Folder d' \<and> r_path r = ''f''"
proof (rule demo_applied)
  fix r root'
  assume run: "apply_hash_edit quiet demo_root (GivenDescriptor demo_edit) demo_plan = (Inr r, root')"
  have "require_descriptor HashApplyError (GivenDescriptor demo_edit) = Inr demo_edit" by (rule require_given [OF demo_edit_valid])
  moreover have "d_path demo_edit = ''f''" by (simp add: demo_edit_def)
  ultimately show ?thesis using apply_effect [OF run] run by auto
qed




text \<open>A plan that changes the file is good for one application: once it has been applied, in whatever environment,
  applying it again finds other bytes and raises the concurrency error without touching the tree, unless the plan announces
  the same hash before and after\<close>
theorem plan_applies_once:
  assumes "apply_hash_edit env root arg p = (Inr r, root')" "e_read env' = None"
  shows "apply_hash_edit env' root' arg p = (Inl HashConcurrencyError, root') \<or> p_after_sha256 p = p_before_sha256 p"
  using assms(1)
proof (rule apply_success)
  fix x :: descriptor and b m spliced
  assume x: "descriptor_valid x" "bound_plan arg p = Inr (x, p)" and splice: "checked_splice x p b m = Inr (spliced, r)"
    and pin: "\<exists>d parent. pinned_parent root (d_path x) = Inr (d, parent) \<and> parent (last (target_of x)) = Some (RegularFile b m 1)
      \<and> (\<exists>parent'. root' = Folder (put_folder d (butlast (target_of x)) parent') \<and> parent' (last (target_of x)) = Some (RegularFile spliced m 1)
          \<and> (others_idle env \<longrightarrow> parent' = parent(last (target_of x) \<mapsto> RegularFile spliced m 1)))"
  let ?name = "last (path_components (d_path x))"
  obtain d parent parent' where *: "pinned_parent root (d_path x) = Inr (d, parent)"
    "root' = Folder (put_folder d (butlast (path_components (d_path x))) parent')" "parent' ?name = Some (RegularFile spliced m 1)"
    using pin unfolding target_of_def by blast
  have hashes: "sha256_hex spliced = p_after_sha256 p" "length spliced \<le> MAX_PLAN_FILE_BYTES"
    using splice by (rule checked_splice_Inr, simp)+
  have "read_regular_at (e_read env') parent' ?name = Inr (spliced, m)" using *(3) hashes(2) assms(2) by (simp add: read_regular_Inr)
  moreover have "p_after_sha256 p \<noteq> p_before_sha256 p \<Longrightarrow> checked_splice x p spliced m = Inl HashConcurrencyError"
    using hashes(1) by (simp add: checked_splice_def check_def)
  ultimately have "p_after_sha256 p \<noteq> p_before_sha256 p \<Longrightarrow> apply_in_folder env' x p ?name parent' = (Inl HashConcurrencyError, parent')"
    by (simp add: apply_in_folder_def)
  then have "apply_hash_edit env' root' arg p = (Inl HashConcurrencyError, root')" if "p_after_sha256 p \<noteq> p_before_sha256 p"
    using in_pinned_again [OF *(1) valid_path [OF x(1)], of parent' "apply_in_folder env' x p"] *(2,3) x(2) that
    by (simp add: apply_hash_edit_def)
  then show ?thesis by blast
qed

lemma plan_applies_once_witness:
  "\<exists>r root'. apply_hash_edit quiet demo_root (GivenDescriptor demo_edit) demo_plan = (Inr r, root')
    \<and> (apply_hash_edit quiet root' (GivenDescriptor demo_edit) demo_plan = (Inl HashConcurrencyError, root')
        \<or> p_after_sha256 demo_plan = p_before_sha256 demo_plan)"
proof (rule demo_applied)
  fix r root'
  assume run: "apply_hash_edit quiet demo_root (GivenDescriptor demo_edit) demo_plan = (Inr r, root')"
  have "e_read quiet = None" by (simp add: quiet_def)
  from plan_applies_once [OF run this] run show ?thesis by blast
qed


text \<open>C23: a plan made from the file as it is can be applied: if the planner accepts the bytes of a single-link regular file of
  the workspace and nothing fails or interferes, the application succeeds and leaves the bytes that the plan announces\<close>
theorem fresh_plan_applies:
  assumes "plan_hash_edit arg \<lparr>f_path = path, f_bytes = b\<rparr> = Inr p" "node_at d (path_components path) = Some (RegularFile b m 1)" "m \<le> 4095"
  shows "\<exists>r root' b'. apply_hash_edit quiet (Folder d) arg p = (Inr r, root')
    \<and> replaced (Folder d) root' (path_components path) b b' m \<and> sha256_hex b' = p_after_sha256 p"
  using assms by (rule fresh_plan_quiet)

lemma fresh_plan_applies_witness:
  "\<exists>r root' b'. apply_hash_edit quiet demo_root (GivenDescriptor demo_edit) demo_plan = (Inr r, root')
    \<and> replaced demo_root root' [''f''] (utf8 demo_content) b' 420 \<and> sha256_hex b' = p_after_sha256 demo_plan"
  using fresh_plan_applies [OF demo_found demo_node] by (simp add: demo_root_def path_components_def)



section \<open>An application that raises may have changed the file\<close>

lemma demo_edited: "encode_text (edited demo_edit [] demo_tail) \<noteq> utf8 demo_content"
  by (simp add: edited_def demo_tail_def demo_edit_def demo_before_def demo_content_def utf8_chars_of [symmetric] encode_char_def code_point_def)

lemma error_after_rename:
  "\<exists>root'. apply_hash_edit (quiet\<lparr>e_write := Some AfterRename\<rparr>) demo_root (GivenDescriptor demo_edit) demo_plan = (Inl HashApplyError, root')
    \<and> replaced demo_root root' [''f''] (utf8 demo_content) (encode_text (edited demo_edit [] demo_tail)) 420
    \<and> encode_text (edited demo_edit [] demo_tail) \<noteq> utf8 demo_content"
proof -
  let ?env = "quiet\<lparr>e_write := Some AfterRename\<rparr>" and ?b = "utf8 demo_content" and ?b' = "encode_text (edited demo_edit [] demo_tail)"
  obtain x spliced r where x: "require_descriptor HashInputError (GivenDescriptor demo_edit) = Inr x" "bound_plan (GivenDescriptor demo_edit) demo_plan = Inr (x, demo_plan)"
    "checked_splice x demo_plan ?b 420 = Inr (spliced, r)" "length ?b \<le> MAX_PLAN_FILE_BYTES"
    using fresh_splice [OF demo_found, of 420] by auto
  have "x = demo_edit" using x(1) require_given [OF demo_edit_valid] by simp
  then have splice: "checked_splice demo_edit demo_plan ?b 420 = Inr (spliced, r)" using x(3) by simp
  then have "spliced = ?b'"
  proof (rule checked_splice_Inr)
    fix fresh
    assume "plan_hash_edit (GivenDescriptor demo_edit) \<lparr>f_path = d_path demo_edit, f_bytes = ?b\<rparr> = Inr fresh"
      and spliced: "spliced = splice ?b fresh (d_replacement demo_edit)"
    moreover have "d_path demo_edit = ''f''" by (simp add: demo_edit_def)
    ultimately have "fresh = demo_plan" using demo_found by simp
    moreover have "bound_at demo_edit (needle_of demo_edit @ demo_tail) [] demo_tail" by (simp add: bound_at_def)
    moreover have "decode_text ?b = Some (needle_of demo_edit @ demo_tail)" using demo_decoded by (simp add: demo_tail_def)
    ultimately show ?thesis using planned_bytes_edited(1) spliced unfolding demo_plan_def by (metis splice_plan_of)
  qed
  note splice' = splice [unfolded this]
  obtain parent where pin: "pinned_parent demo_root ''f'' = Inr (Map.empty(''f'' \<mapsto> RegularFile ?b 420 1), parent)"
    "parent (last (path_components ''f'')) = Some (RegularFile ?b 420 1)"
    using node_parent [OF demo_node] demo_edit_fields(2) unfolding demo_root_def by auto
  have name: "last (path_components ''f'') = ''f''" "butlast (path_components ''f'') = []" "path_components ''f'' = [''f'']"
    by (simp_all add: path_components_def)
  have "apply_in_folder ?env demo_edit demo_plan ''f'' parent = (Inl HashApplyError, parent(''f'' \<mapsto> RegularFile ?b' 420 1))"
    using pin(2) splice' x(4) demo_edited pinned_parent_Inr(5) [OF pin(1)]
    by (simp add: apply_in_folder_def quiet_def read_regular_at_def check_def replace_at_def atomic_write_bytes_at_def Let_def name)
  then have "apply_hash_edit ?env demo_root (GivenDescriptor demo_edit) demo_plan =
      (Inl HashApplyError, Folder (put_folder (Map.empty(''f'' \<mapsto> RegularFile ?b 420 1)) (butlast (path_components ''f''))
         (parent(last (path_components ''f'') \<mapsto> RegularFile ?b' 420 1))))"
    using pin(1) x(2) \<open>x = demo_edit\<close> demo_edit_def [THEN arg_cong, where f = d_path]
    by (simp add: apply_hash_edit_def in_pinned_folder_def name)
  moreover note replaced_update [OF pin, of ?b']
  ultimately show ?thesis using demo_edited unfolding name(3) by blast
qed

end
