(* ===== verification/CommandPolicy.thy ===== *)
theory CommandPolicy
  imports Prelude
begin

text \<open>
  The policy for acceptance commands (\<open>command_policy.py\<close>): which argument vectors may be frozen and run.
  A command is the list of its arguments.  The resolution of symbolic links by \<open>Path.resolve\<close> is an
  argument: it maps a path to the components of its real path, or to nothing where it fails.
\<close>

section \<open>Paths and names\<close>

fun slash_split :: "string \<Rightarrow> string list" where
  \<comment> \<open>\<open>s.split('/')\<close>\<close>
  "slash_split [] = [[]]"
| "slash_split (c # s) = (let ps = slash_split s in if c = CHR ''/'' then [] # ps else (c # hd ps) # tl ps)"

definition path_parts :: "string \<Rightarrow> string list" where
  \<comment> \<open>the components of \<open>Path(s)\<close> below its anchor\<close>
  "path_parts s = filter (\<lambda>p. p \<noteq> [] \<and> p \<noteq> ''.'') (slash_split s)"

definition last_part :: "string list \<Rightarrow> string" where
  "last_part ps = (if ps = [] then [] else last ps)"

definition ends_with :: "string \<Rightarrow> string \<Rightarrow> bool" where
  \<comment> \<open>\<open>s.endswith(p)\<close>\<close>
  "ends_with s p \<longleftrightarrow> starts_with (rev s) (rev p)"

definition name_suffix :: "string \<Rightarrow> string" where
  \<comment> \<open>\<open>Path.suffix\<close> of a name: from its last dot, which is neither its first nor its last character\<close>
  "name_suffix n = (let ext = rev (takeWhile (\<lambda>c. c \<noteq> CHR ''.'') (rev n)); i = length n - length ext in
     if CHR ''.'' \<in> set n \<and> 1 < i \<and> ext \<noteq> [] then CHR ''.'' # ext else [])"

definition command_basename :: "string \<Rightarrow> string" where
  "command_basename argv0 = (let name = last_part (path_parts argv0) in
     if ends_with (lower name) ''.exe'' then take (length name - 4) name else name)"

definition before_newline :: "string \<Rightarrow> string" where
  \<comment> \<open>what \<open>$\<close> of \<open>re.match\<close> leaves: it also matches before a final line feed\<close>
  "before_newline s = (if s \<noteq> [] \<and> code_point (last s) = 10 then butlast s else s)"

definition dotted_number :: "string \<Rightarrow> bool" where
  \<comment> \<open>\<open>\.\d+\<close>\<close>
  "dotted_number s = (case s of [] \<Rightarrow> False | c # ds \<Rightarrow> c = CHR ''.'' \<and> ds \<noteq> [] \<and> list_all is_digit ds)"

definition is_python_bin :: "string \<Rightarrow> bool" where
  \<comment> \<open>\<open>^python([23](\.\d+)?)?$\<close>\<close>
  "is_python_bin base = (let s = before_newline base in starts_with s ''python'' \<and>
     (case drop 6 s of [] \<Rightarrow> True
      | c # r \<Rightarrow> (c = CHR ''2'' \<or> c = CHR ''3'') \<and> (r = [] \<or> dotted_number r)))"

definition is_node_bin :: "string \<Rightarrow> bool" where
  \<comment> \<open>\<open>^node(\.\d+)?$\<close>\<close>
  "is_node_bin base = (let s = before_newline base in starts_with s ''node'' \<and>
     (drop 4 s = [] \<or> dotted_number (drop 4 s)))"

section \<open>The tables\<close>

definition DEFAULT_ALLOWLIST :: "string list" where
  "DEFAULT_ALLOWLIST = [''true'', ''false'', ''pytest'', ''python'', ''python3'', ''make'', ''npm'', ''cargo'', ''go'',
     ''dart'', ''flutter'', ''ruff'', ''mypy'', ''black'', ''git'']"

definition ALWAYS_DENY_BASENAMES :: "string list" where
  "ALWAYS_DENY_BASENAMES = [''claude'', ''codex'', ''omx'', ''agy'', ''cursor-agent'', ''kimi'', ''rm'', ''sudo'', ''doas'',
     ''npx'', ''uvx'', ''pipx'', ''bunx'', ''pnpm'', ''yarn'', ''deno'']"

definition SHELL_BASENAMES :: "string list" where
  "SHELL_BASENAMES = [''sh'', ''bash'', ''zsh'', ''dash'', ''csh'', ''tcsh'', ''fish'', ''ksh'']"

definition PYTHON_M_ALLOWED :: "string list" where
  "PYTHON_M_ALLOWED = [''pytest'', ''unittest'']"

definition NPM_RUN_SCRIPTS :: "string list" where
  "NPM_RUN_SCRIPTS = [''test'', ''pytest'']"

definition GIT_ALLOWED_SUB :: "string list" where
  "GIT_ALLOWED_SUB = [''status'', ''diff'', ''log'', ''show'', ''rev-parse'', ''rev-list'', ''describe'', ''ls-files'',
     ''ls-tree'', ''cat-file'', ''branch'', ''tag'', ''stash'']"

definition GIT_DENY_SUB :: "string list" where
  "GIT_DENY_SUB = [''clean'', ''push'', ''reset'', ''checkout'', ''restore'', ''rebase'', ''merge'', ''pull'', ''fetch'',
     ''remote'', ''config'', ''add'', ''commit'', ''am'', ''cherry-pick'', ''revert'', ''worktree'', ''filter-branch'',
     ''filter-repo'', ''gc'', ''reflog'', ''update-ref'', ''symbolic-ref'', ''init'', ''clone'', ''submodule'']"

definition MAKE_ALLOWED_TARGETS :: "string list" where
  "MAKE_ALLOWED_TARGETS = [''test'', ''check'', ''lint'', ''unit'', ''units'', ''pytest'', ''ci'', ''verify'']"

definition CARGO_ALLOWED :: "string list" where
  "CARGO_ALLOWED = [''test'', ''check'', ''clippy'', ''fmt'']"

definition CARGO_DENY :: "string list" where
  "CARGO_DENY = [''run'', ''install'', ''publish'', ''bench'', ''script'', ''build'']"

definition GO_ALLOWED :: "string list" where
  "GO_ALLOWED = [''test'', ''vet'', ''fmt'', ''version'']"

definition GO_DENY :: "string list" where
  "GO_DENY = [''run'', ''generate'', ''get'', ''install'', ''mod'']"

definition DART_ALLOWED :: "string list" where
  "DART_ALLOWED = [''test'', ''analyze'', ''format'']"

definition DART_DENY :: "string list" where
  "DART_DENY = [''run'', ''compile'', ''pub'']"

definition FLUTTER_ALLOWED :: "string list" where
  "FLUTTER_ALLOWED = [''test'', ''analyze'']"

section \<open>The marker expression of pytest\<close>

definition module_head :: "string \<Rightarrow> string" where
  \<comment> \<open>\<open>m.split('.', 1)[0]\<close>\<close>
  "module_head m = takeWhile (\<lambda>c. c \<noteq> CHR ''.'') m"

fun after_pytest_module :: "nat \<Rightarrow> string list \<Rightarrow> nat option" where
  \<comment> \<open>the index behind the first \<open>-m pytest\<close>; the first argument of the list stands at the given index\<close>
  "after_pytest_module i (a # b # r) =
     (if a = ''-m'' \<and> module_head b = ''pytest'' then Some (i + 2) else after_pytest_module (i + 1) (b # r))"
| "after_pytest_module i _ = None"

definition pytest_start :: "string list \<Rightarrow> nat option" where
  \<comment> \<open>where the arguments of pytest begin, if this is a pytest command\<close>
  "pytest_start argv = (let base0 = command_basename (hd argv) in
     if is_python_bin base0 then after_pytest_module 1 (tl argv)
     else if base0 = ''pytest'' then Some 1 else None)"

fun join_markers :: "string list \<Rightarrow> string list" where
  "join_markers (t # a # b # r) =
     (if t = ''-m'' \<and> a = ''not'' \<and> b \<noteq> [] \<and> \<not> starts_with b ''-''
      then t # (''not '' @ b) # join_markers r else t # join_markers (a # b # r))"
| "join_markers (t # r) = t # join_markers r"
| "join_markers [] = []"

definition coalesce_pytest_marker_expr :: "string list \<Rightarrow> string list" where
  "coalesce_pytest_marker_expr argv = (if argv = [] then [] else
     (case pytest_start argv of None \<Rightarrow> argv | Some n \<Rightarrow> take n argv @ join_markers (drop n argv)))"

section \<open>The allow list\<close>

definition resolve_allowlist :: "string list \<Rightarrow> string list option \<Rightarrow> string list" where
  "resolve_allowlist extra base = (case base of None \<Rightarrow> DEFAULT_ALLOWLIST | Some b \<Rightarrow> b)
     @ filter (\<lambda>n. n \<noteq> []) (map (\<lambda>name. command_basename (strip name)) extra)"

definition basename_allowed :: "string \<Rightarrow> string list \<Rightarrow> bool" where
  "basename_allowed base allowed =
     (if base \<in> set allowed then True
      else if \<not> is_python_bin base then False
      else if base = ''python'' then ''python'' \<in> set allowed
      else if starts_with base ''python3'' then ''python3'' \<in> set allowed \<or> ''python'' \<in> set allowed
      else if starts_with base ''python2'' then ''python2'' \<in> set allowed \<or> ''python'' \<in> set allowed
      else False)"

section \<open>Interpreter options\<close>

fun cluster_reaches :: "char \<Rightarrow> string \<Rightarrow> bool" where
  "cluster_reaches f [] = False"
| "cluster_reaches f (c # cs) =
     (if c = f then True else if c \<in> set ''cemWXQ'' then False else cluster_reaches f cs)"

definition short_cluster_activates :: "string \<Rightarrow> char \<Rightarrow> bool" where
  "short_cluster_activates tok f \<longleftrightarrow>
     (starts_with tok ''-'' \<and> \<not> starts_with tok ''--'' \<and> 2 \<le> length tok) \<and> cluster_reaches f (tl tok)"

definition flag_matches :: "string \<Rightarrow> string \<Rightarrow> bool" where
  \<comment> \<open>one flag of \<open>_has_flag\<close> against one argument\<close>
  "flag_matches tok f \<longleftrightarrow> starts_with tok (f @ ''='') \<or>
     (length f = 2 \<and> starts_with f ''-'' \<and> \<not> starts_with f ''--'' \<and>
       (starts_with tok f \<and> (length tok = 2 \<or> take 1 (drop 2 tok) \<noteq> ''-'') \<or> short_cluster_activates tok (f ! 1)))"

definition has_flag :: "string list \<Rightarrow> string list \<Rightarrow> bool" where
  "has_flag argv flags \<longleftrightarrow> list_ex (\<lambda>tok. tok \<in> set flags \<or> list_ex (flag_matches tok) flags) (tl argv)"

definition SEPARATE_ARG_OPTIONS :: "string list" where
  "SEPARATE_ARG_OPTIONS = [''-W'', ''-X'', ''-Q'', ''-r'', ''--require'', ''--loader'', ''--experimental-loader'', ''--import'',
     ''--conditions'', ''-C'']"

definition ends_region :: "string \<Rightarrow> bool" where
  \<comment> \<open>an option that holds code: it is scanned, what follows is not\<close>
  "ends_region tok \<longleftrightarrow> tok \<in> set [''-c'', ''-e'', ''-p'', ''--eval'', ''--print'']
     \<or> starts_with tok ''--eval='' \<or> starts_with tok ''--print=''
     \<or> (\<not> starts_with tok ''--'' \<and> 2 \<le> length tok \<and>
         ((starts_with tok ''-c'' \<or> starts_with tok ''-e'' \<or> starts_with tok ''-p'') \<and> 2 < length tok
          \<or> short_cluster_activates tok CHR ''c'' \<or> short_cluster_activates tok CHR ''e''))"

fun option_region :: "string list \<Rightarrow> string list" where
  "option_region [] = []"
| "option_region (tok # r) =
     (if tok = ''--'' \<or> tok = ''-m'' then []
      else if \<not> starts_with tok ''-'' then (if ends_with tok ''.py'' then [] else option_region r)
      else tok # (if ends_region tok then []
                  else if tok \<in> set SEPARATE_ARG_OPTIONS \<and> r \<noteq> [] then option_region (tl r)
                  else option_region r))"

definition interpreter_flag_region :: "string list \<Rightarrow> string list" where
  "interpreter_flag_region argv = (case argv of [] \<Rightarrow> [] | a # r \<Rightarrow> a # option_region r)"

section \<open>The families\<close>

datatype policy_exc = CommandPolicyError

definition deny_if :: "bool \<Rightarrow> policy_exc + unit" where
  "deny_if b = check (\<not> b) CommandPolicyError"

type_synonym resolver = "string \<Rightarrow> string list option"
  \<comment> \<open>the components of \<open>(root / p).resolve()\<close>, for an absolute \<open>p\<close> of \<open>p.resolve()\<close>; \<open>''.''\<close> is the root itself\<close>

definition path_is_under_project :: "string \<Rightarrow> resolver option \<Rightarrow> bool" where
  "path_is_under_project path_str project_root = (case project_root of
     None \<Rightarrow> if starts_with path_str ''/'' then False
       else if ''..'' \<in> set (path_parts path_str) then False
       else ends_with path_str ''.py'' \<or> name_suffix (last_part (path_parts path_str)) = ''.py''
   | Some resolve \<Rightarrow> (case (resolve ''.'', resolve path_str) of
       (Some root, Some candidate) \<Rightarrow> take (length root) candidate = root \<and>
         (name_suffix (last_part candidate) = ''.py'' \<or> ends_with (concat (map (\<lambda>p. CHR ''/'' # p) candidate)) ''.py'')
     | _ \<Rightarrow> False))"

definition PYTHON_FLAGS :: "string list" where
  "PYTHON_FLAGS = [''-u'', ''-O'', ''-OO'', ''-B'', ''-S'', ''-s'', ''-I'', ''-E'', ''-P'', ''--'']"

fun python_scan :: "resolver option \<Rightarrow> string list \<Rightarrow> policy_exc + unit" where
  \<comment> \<open>the loop of \<open>_check_python_argv\<close>\<close>
  "python_scan root [] = Inl CommandPolicyError"
| "python_scan root (tok # r) =
     (if tok = ''-m'' then (case r of [] \<Rightarrow> Inl CommandPolicyError
        | m # r' \<Rightarrow> deny_if (module_head m \<notin> set PYTHON_M_ALLOWED \<and> m \<notin> set PYTHON_M_ALLOWED))
      else if tok \<in> set [''-c'', ''-e''] \<or> starts_with tok ''-c'' \<or> starts_with tok ''-e'' then Inl CommandPolicyError
      else if starts_with tok ''-'' then
        (if tok \<in> set PYTHON_FLAGS then python_scan root r
         else if starts_with tok ''-W'' \<or> starts_with tok ''-X'' \<or> starts_with tok ''-Q'' then python_scan root r
         else Inl CommandPolicyError)
      else if \<not> (ends_with tok ''.py'' \<or> name_suffix (last_part (path_parts tok)) = ''.py'') then Inl CommandPolicyError
      else deny_if (\<not> path_is_under_project tok root))"

definition check_python_argv :: "string list \<Rightarrow> resolver option \<Rightarrow> policy_exc + unit" where
  "check_python_argv cmd root =
     bindE (deny_if (length cmd < 2)) (\<lambda>_.
     bindE (deny_if (has_flag (interpreter_flag_region cmd) [''-c'', ''-e''])) (\<lambda>_.
     python_scan root (tl cmd)))"

definition check_node_argv :: "string list \<Rightarrow> policy_exc + unit" where
  "check_node_argv cmd = deny_if (has_flag (interpreter_flag_region cmd) [''-e'', ''--eval'', ''-p'', ''--print''])"

definition check_npm_argv :: "string list \<Rightarrow> policy_exc + unit" where
  "check_npm_argv cmd =
     bindE (deny_if (length cmd < 2)) (\<lambda>_.
     if cmd ! 1 = ''test'' then Inr ()
     else if cmd ! 1 = ''run'' then
       bindE (deny_if (length cmd < 3)) (\<lambda>_. deny_if (cmd ! 2 \<notin> set NPM_RUN_SCRIPTS))
     else Inl CommandPolicyError)"

definition git_has_positional :: "string list \<Rightarrow> nat \<Rightarrow> bool" where
  "git_has_positional cmd start \<longleftrightarrow> list_ex (\<lambda>x. \<not> starts_with x ''-'') (drop start cmd)"

definition denied_token :: "string list \<Rightarrow> string \<Rightarrow> bool" where
  "denied_token flags tok \<longleftrightarrow> tok \<in> set flags \<or> list_ex (\<lambda>f. starts_with tok (f @ ''='') \<or>
     (length f = 2 \<and> starts_with f ''-'' \<and> \<not> starts_with f ''--'' \<and>
      starts_with tok f \<and> 2 < length tok \<and> take 1 (drop 2 tok) \<noteq> ''-'')) flags"

definition flag_denied :: "string list \<Rightarrow> string list \<Rightarrow> nat \<Rightarrow> bool" where
  \<comment> \<open>whether \<open>_flag_denied\<close> returns a token\<close>
  "flag_denied cmd flags start \<longleftrightarrow> list_ex (denied_token flags) (drop start cmd)"

definition check_git_argv :: "string list \<Rightarrow> policy_exc + unit" where
  "check_git_argv cmd =
     bindE (deny_if (length cmd < 2)) (\<lambda>_. let sub = cmd ! 1; rest = set (drop 2 cmd) in
     bindE (deny_if (sub \<in> set GIT_DENY_SUB)) (\<lambda>_.
     bindE (deny_if (sub \<notin> set GIT_ALLOWED_SUB)) (\<lambda>_.
     bindE (if sub = ''branch'' then
         bindE (deny_if (list_ex (\<lambda>x. x \<in> rest) [''-D'', ''-d'', ''-m'', ''-M'', ''-c'', ''-C'', ''--delete'', ''--move'',
           ''--copy'', ''--create-reflog''])) (\<lambda>_. deny_if (git_has_positional cmd 2)) else Inr ()) (\<lambda>_.
     bindE (if sub = ''tag'' then
         bindE (deny_if (list_ex (\<lambda>x. x \<in> rest) [''-d'', ''-f'', ''-a'', ''-s'', ''-u'', ''-m''])) (\<lambda>_.
         deny_if (git_has_positional cmd 2)) else Inr ()) (\<lambda>_.
     bindE (if sub = ''stash'' then
         bindE (deny_if (length cmd < 3 \<or> starts_with (cmd ! 2) ''-'')) (\<lambda>_.
         deny_if (cmd ! 2 \<notin> set [''list'', ''show''])) else Inr ()) (\<lambda>_.
     deny_if (''-c'' \<in> set (tl cmd) \<or> flag_denied cmd [''-c''] 1)))))))"

definition check_make_argv :: "string list \<Rightarrow> policy_exc + unit" where
  "check_make_argv cmd =
     bindE (deny_if (length cmd < 2)) (\<lambda>_.
     bindE (deny_if (flag_denied cmd [''-f'', ''--file'', ''--makefile'', ''-C'', ''--directory'', ''-I'', ''--include-dir'', ''--eval''] 1)) (\<lambda>_.
     let targets = filter (\<lambda>t. \<not> starts_with t ''-'') (tl cmd) in
     bindE (deny_if (targets = [])) (\<lambda>_. deny_if (list_ex (\<lambda>t. t \<notin> set MAKE_ALLOWED_TARGETS) targets))))"

definition check_cargo_argv :: "string list \<Rightarrow> policy_exc + unit" where
  "check_cargo_argv cmd =
     bindE (deny_if (length cmd < 2)) (\<lambda>_.
     bindE (deny_if (cmd ! 1 \<in> set CARGO_DENY)) (\<lambda>_.
     bindE (deny_if (cmd ! 1 \<notin> set CARGO_ALLOWED)) (\<lambda>_.
     deny_if (flag_denied cmd [''--manifest-path'', ''--config'', ''--target-dir'', ''-C''] 2))))"

definition check_go_argv :: "string list \<Rightarrow> policy_exc + unit" where
  "check_go_argv cmd =
     bindE (deny_if (length cmd < 2)) (\<lambda>_.
     bindE (deny_if (cmd ! 1 \<in> set GO_DENY)) (\<lambda>_.
     bindE (deny_if (cmd ! 1 \<notin> set GO_ALLOWED)) (\<lambda>_.
     deny_if (flag_denied cmd [''-exec'', ''--exec'', ''-toolexec'', ''--toolexec''] 2))))"

definition check_dart_argv :: "string list \<Rightarrow> policy_exc + unit" where
  "check_dart_argv cmd =
     bindE (deny_if (length cmd < 2)) (\<lambda>_.
     bindE (deny_if (cmd ! 1 \<in> set DART_DENY)) (\<lambda>_. deny_if (cmd ! 1 \<notin> set DART_ALLOWED)))"

definition check_flutter_argv :: "string list \<Rightarrow> policy_exc + unit" where
  "check_flutter_argv cmd =
     bindE (deny_if (length cmd < 2)) (\<lambda>_. deny_if (cmd ! 1 \<notin> set FLUTTER_ALLOWED))"

section \<open>The policy\<close>

definition check_floors :: "string list \<Rightarrow> policy_exc + string" where
  \<comment> \<open>what no option lifts; the result is the base name\<close>
  "check_floors cmd =
     bindE (deny_if (cmd = [])) (\<lambda>_. let base = command_basename (hd cmd) in
     bindE (deny_if (base = [])) (\<lambda>_.
     bindE (deny_if (base \<in> set SHELL_BASENAMES)) (\<lambda>_.
     bindE (deny_if (base \<in> set ALWAYS_DENY_BASENAMES)) (\<lambda>_.
     bindE (deny_if (is_python_bin base \<and> has_flag (interpreter_flag_region cmd) [''-c'', ''-e''])) (\<lambda>_.
     bindE (deny_if ((is_node_bin base \<or> base = ''node'') \<and>
         has_flag (interpreter_flag_region cmd) [''-e'', ''--eval'', ''-p'', ''--print''])) (\<lambda>_.
     Inr base))))))"

definition check_family :: "string \<Rightarrow> string list \<Rightarrow> resolver option \<Rightarrow> policy_exc + unit" where
  "check_family base cmd root =
     (if is_python_bin base then check_python_argv cmd root
      else if is_node_bin base \<or> base = ''node'' then check_node_argv cmd
      else if base = ''npm'' then check_npm_argv cmd
      else if base = ''git'' then check_git_argv cmd
      else if base = ''make'' then check_make_argv cmd
      else if base = ''cargo'' then check_cargo_argv cmd
      else if base = ''go'' then check_go_argv cmd
      else if base = ''dart'' then check_dart_argv cmd
      else if base = ''flutter'' then check_flutter_argv cmd
      else Inr ())"

definition check_command_policy :: "string list option \<Rightarrow> bool \<Rightarrow> resolver option \<Rightarrow> string list \<Rightarrow> policy_exc + unit" where
  "check_command_policy allowlist no_allowlist root cmd =
     bindE (check_floors cmd) (\<lambda>base.
     if no_allowlist then Inr () else
     bindE (deny_if (\<not> basename_allowed base (case allowlist of None \<Rightarrow> DEFAULT_ALLOWLIST | Some a \<Rightarrow> a))) (\<lambda>_.
     check_family base cmd root))"

definition check_commands_policy :: "string list option \<Rightarrow> bool \<Rightarrow> resolver option \<Rightarrow> string list list \<Rightarrow> policy_exc + unit list" where
  "check_commands_policy allowlist no_allowlist root = mapE (check_command_policy allowlist no_allowlist root)"

section \<open>Goal-bound commands\<close>

definition MAKE_GOAL_BOUND_TARGETS :: "string list" where
  "MAKE_GOAL_BOUND_TARGETS = [''test'', ''unit'', ''units'', ''pytest'', ''ci'', ''verify'']"

definition FLUTTER_TEST_VALUE_OPTS :: "string list" where
  "FLUTTER_TEST_VALUE_OPTS = [''-r'', ''--reporter'', ''-n'', ''--name'', ''-t'', ''--plain-name'', ''-j'', ''--concurrency'', ''-d'',
     ''--device-id'', ''--timeout'', ''--coverage-path'', ''--dart-define'', ''--dart-define-from-file'', ''--flavor'',
     ''--test-randomization-seed'', ''--file-reporter'', ''--shard-index'', ''--total-shards'']"

fun path_operands :: "string list \<Rightarrow> string list" where
  \<comment> \<open>the loop of \<open>_flutter_test_path_operands\<close>\<close>
  "path_operands [] = []"
| "path_operands (tok # r) =
     (if tok \<in> set FLUTTER_TEST_VALUE_OPTS then path_operands (tl r)
      else if starts_with tok ''-'' then path_operands r
      else tok # path_operands r)"

fun runs_test_module :: "string list \<Rightarrow> bool" where
  "runs_test_module (a # b # r) =
     (a = ''-m'' \<and> module_head b \<in> set PYTHON_M_ALLOWED \<or> runs_test_module (b # r))"
| "runs_test_module _ = False"

definition is_goal_bound_command :: "string list \<Rightarrow> bool" where
  "is_goal_bound_command argv = (if argv = [] then False else let base = command_basename (hd argv) in
     if base = ''pytest'' then True
     else if is_python_bin base then runs_test_module (tl argv)
     else if base \<in> set [''cargo'', ''go'', ''dart''] \<and> 1 < length argv \<and> argv ! 1 = ''test'' then True
     else if base = ''flutter'' \<and> 1 < length argv \<and> argv ! 1 = ''test'' then
       (let paths = path_operands (drop 2 argv) in \<not> (length paths = 1 \<and> ends_with (hd paths) ''.dart''))
     else if base = ''npm'' then
       1 < length argv \<and> argv ! 1 = ''test'' \<or> 2 < length argv \<and> argv ! 1 = ''run'' \<and> argv ! 2 \<in> set NPM_RUN_SCRIPTS
     else if base = ''make'' then list_ex (\<lambda>t. \<not> starts_with t ''-'' \<and> t \<in> set MAKE_GOAL_BOUND_TARGETS) (tl argv)
     else False)"

definition is_analyze_only :: "string list list \<Rightarrow> bool" where
  "is_analyze_only commands \<longleftrightarrow> commands \<noteq> [] \<and> \<not> list_ex is_goal_bound_command commands"

end
