(* ===== verification/CommandPolicySafety.thy ===== *)
theory CommandPolicySafety
  imports CommandPolicy
begin

text \<open>
  What an accepted command runs.  The reference is the command line of CPython 3 as its documentation and
  \<open>Python/getopt.c\<close> give it: clusters of one-letter options, options with a value in the same or in the next
  argument, a few long options.  It says what the interpreter starts, and is independent of the policy.
\<close>

section \<open>The command line of CPython\<close>

datatype launch = RunCommand string | RunModule string | RunScript string | RunStdin | NoRun
  \<comment> \<open>\<open>NoRun\<close>: a usage error, or help or version only\<close>

definition PLAIN_OPTIONS :: string where
  "PLAIN_OPTIONS = ''bBdEhiIOPqRsStuvVx?''"

definition PYC_OPTION :: string where
  "PYC_OPTION = ''check-hash-based-pycs''"

definition PYC_MODES :: "string list" where
  "PYC_MODES = [''always'', ''never'', ''default'']"

definition HELP_OPTIONS :: "string list" where
  "HELP_OPTIONS = [''help-all'', ''help-env'', ''help-xoptions'']"

definition after_options :: "bool \<Rightarrow> string list \<Rightarrow> launch" where
  "after_options quits args = (if quits then NoRun else
     case args of [] \<Rightarrow> RunStdin | a # r \<Rightarrow> if a = ''-'' then RunStdin else RunScript a)"

function command_line :: "bool \<Rightarrow> string \<Rightarrow> string list \<Rightarrow> launch" where
  \<comment> \<open>whether an option already asked for help, the letters left of the current cluster, the arguments left\<close>
  "command_line quits [] args = (case args of
     [] \<Rightarrow> after_options quits []
   | a # r \<Rightarrow> if a = [] \<or> hd a \<noteq> CHR ''-'' \<or> a = ''-'' then after_options quits args
       else if a = ''--'' then after_options quits r
       else if a = ''--help'' \<or> a = ''--version'' then command_line True [] r
       else command_line quits (tl a) r)"
| "command_line quits (c # cs) args =
     (if c = CHR ''-'' then
        (if cs = [] then after_options quits args
         else if cs = PYC_OPTION then
           (if args = [] \<or> hd args \<notin> set PYC_MODES then NoRun else command_line quits [] (tl args))
         else if cs \<in> set HELP_OPTIONS then command_line True [] args
         else NoRun)
      else if c \<in> set PLAIN_OPTIONS then command_line (quits \<or> c \<in> {CHR ''h'', CHR ''?'', CHR ''V''}) cs args
      else if c = CHR ''c'' \<or> c = CHR ''m'' then
        (if cs = [] \<and> args = [] \<or> quits then NoRun
         else (let v = (if cs = [] then hd args else cs) in if c = CHR ''c'' then RunCommand v else RunModule v))
      else if c = CHR ''W'' \<or> c = CHR ''X'' then
        (if cs \<noteq> [] then command_line quits [] args
         else if args = [] then NoRun else command_line quits [] (tl args))
      else NoRun)"
  by pat_completeness auto
termination
proof (relation "measures [\<lambda>(q, cs, args). length args, \<lambda>(q, cs, args). length cs]")
qed auto

definition python_launch :: "string list \<Rightarrow> launch" where
  "python_launch args = command_line False [] args"

declare command_line.simps [simp del]

section \<open>The floor\<close>

fun awaits_value :: "string \<Rightarrow> bool" where
  \<comment> \<open>a cluster whose last option is \<open>W\<close> or \<open>X\<close> and takes the next argument\<close>
  "awaits_value [] = False"
| "awaits_value (c # cs) =
     (if c = CHR ''W'' \<or> c = CHR ''X'' then cs = [] else c \<in> set PLAIN_OPTIONS \<and> awaits_value cs)"

definition glued_option :: "string \<Rightarrow> bool" where
  \<comment> \<open>such a cluster with another option in front, as \<open>-bW\<close>\<close>
  "glued_option t \<longleftrightarrow> starts_with t ''-'' \<and> 2 < length t \<and> awaits_value (tl t)"

definition code_flag :: "string \<Rightarrow> bool" where
  "code_flag tok \<longleftrightarrow> tok \<in> {''-c'', ''-e''} \<or> list_ex (flag_matches tok) [''-c'', ''-e'']"

lemma has_code_flag:
  "has_flag (interpreter_flag_region cmd) [''-c'', ''-e''] \<longleftrightarrow> cmd \<noteq> [] \<and> list_ex code_flag (option_region (tl cmd))"
  by (cases cmd) (auto simp: has_flag_def interpreter_flag_region_def code_flag_def [abs_def])

lemma plain_option_chars:
  "list_all (\<lambda>c. c \<noteq> CHR ''-'' \<and> c \<noteq> CHR ''W'' \<and> c \<noteq> CHR ''X'' \<and> c \<notin> set ''cemWXQ'') PLAIN_OPTIONS"
  by code_simp

lemma plain_option:
  assumes "c \<in> set PLAIN_OPTIONS"
  shows "c \<noteq> CHR ''-''" "c \<noteq> CHR ''W''" "c \<noteq> CHR ''X''" "c \<notin> set ''cemWXQ''"
  using plain_option_chars assms unfolding list_all_iff by blast+

lemma not_plain_option [simp]:
  "CHR ''-'' \<notin> set PLAIN_OPTIONS" "CHR ''c'' \<notin> set PLAIN_OPTIONS" "CHR ''e'' \<notin> set PLAIN_OPTIONS"
  "CHR ''p'' \<notin> set PLAIN_OPTIONS" "CHR ''m'' \<notin> set PLAIN_OPTIONS" "CHR ''W'' \<notin> set PLAIN_OPTIONS"
  "CHR ''X'' \<notin> set PLAIN_OPTIONS" "CHR ''Q'' \<notin> set PLAIN_OPTIONS" "CHR ''r'' \<notin> set PLAIN_OPTIONS" "CHR ''C'' \<notin> set PLAIN_OPTIONS"
  by code_simp+

lemma not_command [simp]: "after_options q args \<noteq> RunCommand v"
  by (auto simp: after_options_def split: list.splits)

lemma cluster_reads_code:
  assumes "command_line q cs args = RunCommand code" "cs \<noteq> []"
  shows "hd cs \<noteq> CHR ''-'' \<and> cluster_reaches CHR ''c'' cs
    \<or> (\<exists>q'. command_line q' [] args = RunCommand code) \<and> \<not> awaits_value cs
    \<or> awaits_value cs \<and> args \<noteq> [] \<and> (\<exists>q'. command_line q' [] (tl args) = RunCommand code)
    \<or> (args \<noteq> [] \<and> hd args \<in> set PYC_MODES \<and> (\<exists>q'. command_line q' [] (tl args) = RunCommand code)
        \<and> \<not> awaits_value cs)"
  using assms
proof (induction cs arbitrary: q)
  case (Cons c cs)
  show ?case
  proof (cases "c \<in> set PLAIN_OPTIONS")
    case True
    note c = plain_option [OF True]
    then have step: "command_line (q \<or> c \<in> {CHR ''h'', CHR ''?'', CHR ''V''}) cs args = RunCommand code"
      using Cons.prems(1) True c by (simp add: command_line.simps(2) del: list.set)
    have reach: "cluster_reaches CHR ''c'' (c # cs) \<longleftrightarrow> cluster_reaches CHR ''c'' cs"
      and await: "awaits_value (c # cs) \<longleftrightarrow> awaits_value cs" and hd: "hd (c # cs) \<noteq> CHR ''-''"
      using c True by (simp_all del: list.set) (use c(4) in auto)
    show ?thesis
    proof (cases "cs = []")
      case True
      then show ?thesis using step await by auto
    next
      case False
      show ?thesis using Cons.IH [OF step False] hd unfolding reach await by blast
    qed
  next
    case False
    note run = Cons.prems(1) [unfolded command_line.simps(2)]
    consider "c = CHR ''-''" | "c = CHR ''c''" | "c = CHR ''m''" | "c = CHR ''W'' \<or> c = CHR ''X''"
      | "c \<notin> {CHR ''-'', CHR ''c'', CHR ''m'', CHR ''W'', CHR ''X''}" by blast
    then show ?thesis
    proof cases
      case 1
      then have "\<not> awaits_value (c # cs)" by simp
      moreover have "(\<exists>q'. command_line q' [] args = RunCommand code) \<or>
          args \<noteq> [] \<and> hd args \<in> set PYC_MODES \<and> (\<exists>q'. command_line q' [] (tl args) = RunCommand code)"
        using run unfolding 1 by (simp split: if_split_asm) blast+
      ultimately show ?thesis by blast
    next
      case 2
      then show ?thesis by simp
    next
      case 3
      then have False using run by (simp add: Let_def split: if_split_asm)
      then show ?thesis ..
    next
      case 4
      then have await: "awaits_value (c # cs) \<longleftrightarrow> cs = []" by auto
      have "if cs \<noteq> [] then command_line q [] args = RunCommand code
          else args \<noteq> [] \<and> command_line q [] (tl args) = RunCommand code"
        using run 4 False by (auto split: if_split_asm)
      then show ?thesis unfolding await by (metis (full_types))
    next
      case 5
      then have False using run False by simp
      then show ?thesis ..
    qed
  qed
qed simp

lemma command_line_args:
  "command_line q [] [] = after_options q []"
  "command_line q [] (a # r) = (if a = [] \<or> hd a \<noteq> CHR ''-'' \<or> a = ''-'' then after_options q (a # r)
     else if a = ''--'' then after_options q r
     else if a = ''--help'' \<or> a = ''--version'' then command_line True [] r
     else command_line q (tl a) r)"
  by (simp_all add: command_line.simps(1) del: list.sel)

lemma quits_runs_nothing: "command_line True cs args \<noteq> RunCommand code"
proof -
  have "q \<longrightarrow> command_line q cs args \<noteq> RunCommand code" for q
  proof (induction q cs args rule: command_line.induct)
    case (1 quits args)
    show ?case
    proof (cases args)
      case (Cons a r)
      then show ?thesis using 1 by (simp add: command_line_args)
    qed (simp add: command_line_args)
  next
    case (2 quits c cs args)
    then show ?case by (auto simp: command_line.simps(2))
  qed
  from this [of True] show ?thesis by simp
qed

lemma long_option_reads_code: "command_line q (CHR ''-'' # cs) args = RunCommand code \<Longrightarrow> cs = PYC_OPTION"
  using quits_runs_nothing [of "[]"] by (auto simp: command_line.simps(2) split: if_split_asm)

lemma first_option: "command_line q (c # cs) args = RunCommand code \<Longrightarrow>
    c \<in> set PLAIN_OPTIONS \<or> c = CHR ''-'' \<or> c = CHR ''c'' \<or> c = CHR ''W'' \<or> c = CHR ''X''"
  by (auto simp: command_line.simps(2) Let_def split: if_split_asm)

lemma long_not_sep:
  assumes "tok \<in> set SEPARATE_ARG_OPTIONS" "tok = CHR ''-'' # c # cs" "command_line q (c # cs) args = RunCommand code"
  shows "tok = ''-W'' \<or> tok = ''-X''"
proof (cases "c = CHR ''-''")
  case True
  then have "tok = ''--'' @ PYC_OPTION" using long_option_reads_code assms(2,3) by auto
  moreover have "''--'' @ PYC_OPTION \<notin> set SEPARATE_ARG_OPTIONS" by code_simp
  ultimately show ?thesis using assms(1) by simp
next
  case False
  have "c \<noteq> CHR ''Q''" "c \<noteq> CHR ''r''" "c \<noteq> CHR ''C''" using first_option [OF assms(3)] by auto
  then have "hd (tl tok) \<notin> {CHR ''-'', CHR ''Q'', CHR ''r'', CHR ''C''}" using False by (simp add: assms(2))
  moreover have "list_all (\<lambda>t. t = ''-W'' \<or> t = ''-X'' \<or> hd (tl t) \<in> {CHR ''-'', CHR ''Q'', CHR ''r'', CHR ''C''}) SEPARATE_ARG_OPTIONS"
    by code_simp
  ultimately show ?thesis using assms(1) unfolding list_all_iff by blast
qed

lemma ending_option_is_code:
  assumes "ends_region tok" "tok = CHR ''-'' # c # cs" "command_line q (c # cs) args = RunCommand code"
  shows "code_flag tok"
proof (cases "c = CHR ''-''")
  case True
  then have "cs = PYC_OPTION" using long_option_reads_code assms(3) by blast
  then have "tok = ''--'' @ PYC_OPTION" using True assms(2) by simp
  moreover have "\<not> ends_region (''--'' @ PYC_OPTION)" by code_simp
  ultimately show ?thesis using assms(1) by simp
next
  case False
  have "c \<noteq> CHR ''e''" "c \<noteq> CHR ''p''" using first_option [OF assms(3)] by auto
  then have "c = CHR ''c'' \<or> short_cluster_activates tok CHR ''c'' \<or> short_cluster_activates tok CHR ''e''"
    using assms(1) False unfolding assms(2) ends_region_def by simp blast
  moreover have "short_cluster_activates tok CHR ''c''" if "c = CHR ''c''"
    using that assms(2) by (simp add: short_cluster_activates_def)
  ultimately show ?thesis by (auto simp: code_flag_def flag_matches_def)
qed

lemma region_skips_mode:
  assumes "m \<in> set PYC_MODES"
  shows "option_region (m # r) = option_region r"
proof -
  have "list_all (\<lambda>m. m \<noteq> ''--'' \<and> m \<noteq> ''-m'' \<and> \<not> starts_with m ''-'' \<and> \<not> ends_with m ''.py'') PYC_MODES" by code_simp
  then show ?thesis using assms unfolding list_all_iff by simp
qed

lemma region_sees_code:
  "command_line q [] xs = RunCommand code \<Longrightarrow> \<forall>t \<in> set xs. \<not> glued_option t \<Longrightarrow> list_ex code_flag (option_region xs)"
proof (induction "length xs" arbitrary: xs q rule: less_induct)
  case less
  obtain t r where xs: "xs = t # r" using less.prems(1) by (cases xs) (auto simp: command_line_args)
  obtain c cs where t: "t = CHR ''-'' # c # cs" "t \<noteq> ''--''" and run: "command_line q (c # cs) r = RunCommand code"
    using less.prems(1) quits_runs_nothing [of "[]"] unfolding xs command_line_args
    by (cases t; cases "tl t") (auto split: if_split_asm)
  have m: "t \<noteq> ''-m''" using first_option [OF run] by (auto simp: t(1))
  have bare: "starts_with t ''-''" by (simp add: t(1))
  have IH: "list_ex code_flag (option_region ys)" if "length ys < length xs" "set ys \<subseteq> set xs" "command_line q' [] ys = RunCommand code" for ys q'
    using less.hyps [OF that(1) that(3)] that(2) less.prems(2) by blast
  show ?case
  proof (cases "ends_region t")
    case True
    then show ?thesis using ending_option_is_code [OF True t(1) run] m t(2) bare by (simp add: xs)
  next
    case False
    have code: ?thesis if "code_flag t" using that m t(2) bare by (simp add: xs)
    have rest: "option_region xs = t # (if t \<in> set SEPARATE_ARG_OPTIONS \<and> r \<noteq> [] then option_region (tl r) else option_region r)"
      using False m t(2) bare by (simp add: xs)
    have short: "t = ''-W'' \<or> t = ''-X''" if "awaits_value (c # cs)"
      using that less.prems(2) by (auto simp: xs t(1) glued_option_def split: if_split_asm)
    have not_sep: "t \<notin> set SEPARATE_ARG_OPTIONS" if "\<not> awaits_value (c # cs)"
      using long_not_sep [OF _ t(1) run] that by (auto simp: t(1))
    have sub: "set (tl r) \<subseteq> set xs" "length (tl r) < length xs" "set r \<subseteq> set xs" "length r < length xs"
      by (cases r; auto simp: xs)+
    from cluster_reads_code [OF run list.distinct(2)] show ?thesis
    proof (elim disjE exE conjE; (simp; fail)?)
      assume "hd (c # cs) \<noteq> CHR ''-''" "cluster_reaches CHR ''c'' (c # cs)"
      then show ?thesis by (intro code) (auto simp: t(1) code_flag_def flag_matches_def short_cluster_activates_def)
    next
      fix q' assume "\<not> awaits_value (c # cs)" "command_line q' [] r = RunCommand code"
      moreover have "t \<notin> set SEPARATE_ARG_OPTIONS" by (rule not_sep [OF calculation(1)])
      ultimately show ?thesis using IH [OF sub(4,3)] unfolding rest by simp
    next
      fix q' assume "awaits_value (c # cs)" "r \<noteq> []" "command_line q' [] (tl r) = RunCommand code"
      moreover have "t \<in> set SEPARATE_ARG_OPTIONS" using short [OF calculation(1)] by (auto simp: SEPARATE_ARG_OPTIONS_def)
      ultimately show ?thesis using IH [OF sub(2,1)] unfolding rest by simp
    next
      fix q' assume "\<not> awaits_value (c # cs)" "r \<noteq> []" "hd r \<in> set PYC_MODES" "command_line q' [] (tl r) = RunCommand code"
      moreover have "t \<notin> set SEPARATE_ARG_OPTIONS" by (rule not_sep [OF calculation(1)])
      moreover have "option_region r = option_region (tl r)"
        using region_skips_mode [OF calculation(3), of "tl r"] calculation(2) by simp
      ultimately show ?thesis using IH [OF sub(2,1)] unfolding rest by simp
    qed
  qed
qed

section \<open>Inversion of the policy\<close>

lemma deny_if_iff [simp]: "deny_if b = Inr () \<longleftrightarrow> \<not> b"
  by (simp add: deny_if_def check_def)

lemma deny_if_Inr [result_simps]: "deny_if b = Inr u \<longleftrightarrow> \<not> b"
  by (simp add: deny_if_def check_def)

lemma check_floors_Inr:
  "check_floors cmd = Inr base \<longleftrightarrow> cmd \<noteq> [] \<and> base = command_basename (hd cmd) \<and> base \<noteq> []
     \<and> base \<notin> set SHELL_BASENAMES \<and> base \<notin> set ALWAYS_DENY_BASENAMES
     \<and> \<not> (is_python_bin base \<and> has_flag (interpreter_flag_region cmd) [''-c'', ''-e''])
     \<and> \<not> ((is_node_bin base \<or> base = ''node'') \<and>
          has_flag (interpreter_flag_region cmd) [''-e'', ''--eval'', ''-p'', ''--print''])"
  by (auto simp: check_floors_def Let_def result_simps)

lemma accepted_floors: "check_command_policy allowlist glass root cmd = Inr () \<Longrightarrow> check_floors cmd = Inr (command_basename (hd cmd))"
  by (auto simp: check_command_policy_def result_simps check_floors_Inr)

lemma accepted_python_scan:
  assumes "check_command_policy allowlist False root cmd = Inr ()" "is_python_bin (command_basename (hd cmd))"
  shows "python_scan root (tl cmd) = Inr ()"
  using assms by (auto simp: check_command_policy_def result_simps check_family_def check_python_argv_def check_floors_Inr)

section \<open>What an accepted command runs\<close>

definition project_script :: "resolver option \<Rightarrow> string \<Rightarrow> bool" where
  "project_script root p \<longleftrightarrow> (ends_with p ''.py'' \<or> name_suffix (last_part (path_parts p)) = ''.py'') \<and> path_is_under_project p root"

definition test_launch :: "resolver option \<Rightarrow> launch \<Rightarrow> bool" where
  "test_launch root l = (case l of RunModule m \<Rightarrow> module_head m \<in> set PYTHON_M_ALLOWED
     | RunScript p \<Rightarrow> project_script root p | NoRun \<Rightarrow> True | _ \<Rightarrow> False)"

lemma scan_plain_flag:
  assumes "tok \<in> set PYTHON_FLAGS" "tok \<noteq> ''--''"
  shows "command_line False [] (tok # r) = command_line False [] r"
proof -
  let ?plain = "list_all (\<lambda>c. c \<in> set PLAIN_OPTIONS \<and> c \<notin> set ''h?V'')"
  have "\<forall>t \<in> set PYTHON_FLAGS. t \<noteq> ''--'' \<longrightarrow> ?plain (tl t) \<and> t \<noteq> [] \<and> tl t \<noteq> [] \<and> hd t = CHR ''-'' \<and>
      t \<noteq> ''--help'' \<and> t \<noteq> ''--version''"
    by code_simp
  from mp [OF bspec [OF this assms(1)] assms(2)]
  have t: "?plain (tl tok)" "tok \<noteq> []" "tl tok \<noteq> []" "hd tok = CHR ''-''" "tok \<noteq> ''--help''" "tok \<noteq> ''--version''"
    by (simp_all only: simp_thms)
  have "command_line False cs r = command_line False [] r" if "?plain cs" for cs
    using that
  proof (induction cs)
    case (Cons c cs)
    then show ?case using plain_option(1) [of c] by (simp add: command_line.simps(2))
  qed simp
  from this [OF t(1)] show ?thesis using t assms(2) by (auto simp: command_line_args)
qed

lemma bare_script: "\<not> starts_with tok ''-'' \<Longrightarrow> command_line False [] (tok # r) = RunScript tok"
  by (cases tok) (auto simp: command_line_args after_options_def)

lemma glued_value: "v \<noteq> [] \<Longrightarrow> command_line False [] ((''-W'' @ v) # r) = command_line False [] r"
    "v \<noteq> [] \<Longrightarrow> command_line False [] ((''-X'' @ v) # r) = command_line False [] r"
    "command_line False [] ((''-Q'' @ v) # r) = NoRun"
  by (simp_all add: command_line_args command_line.simps(2))

lemma module_launch: "command_line False [] (''-m'' # m # r) = RunModule m"
  by (simp add: command_line_args command_line.simps(2))

lemma allowed_module: "module_head m \<in> set PYTHON_M_ALLOWED \<or> m \<in> set PYTHON_M_ALLOWED \<Longrightarrow> module_head m \<in> set PYTHON_M_ALLOWED"
  by (auto simp: PYTHON_M_ALLOWED_def module_head_def)

lemma python_scan_cases:
  assumes "python_scan root (tok # r) = Inr ()"
  obtains (m) m r' where "tok = ''-m''" "r = m # r'" "module_head m \<in> set PYTHON_M_ALLOWED"
  | (flag) "tok \<in> set PYTHON_FLAGS" "python_scan root r = Inr ()"
  | (glued) v where "tok = ''-W'' @ v \<or> tok = ''-X'' @ v \<or> tok = ''-Q'' @ v" "python_scan root r = Inr ()"
  | (script) "\<not> starts_with tok ''-''" "project_script root tok"
proof -
  have "tok = ''-m'' \<and> (\<exists>m r'. r = m # r' \<and> module_head m \<in> set PYTHON_M_ALLOWED)
    \<or> tok \<in> set PYTHON_FLAGS \<and> python_scan root r = Inr ()
    \<or> (starts_with tok ''-W'' \<or> starts_with tok ''-X'' \<or> starts_with tok ''-Q'') \<and> python_scan root r = Inr ()
    \<or> \<not> starts_with tok ''-'' \<and> project_script root tok"
  proof (cases "tok = ''-m''")
    case True
    then show ?thesis using assms allowed_module by (cases r) auto
  next
    case False
    have code: "(tok \<in> set [''-c'', ''-e''] \<or> starts_with tok ''-c'' \<or> starts_with tok ''-e'') = False" (is "?code = False")
    proof (rule ccontr)
      assume "?code \<noteq> False"
      then have "?code = True" by (simp only: simp_thms)
      with assms show False unfolding python_scan.simps(2) False [THEN eq_False [THEN iffD2]]
        by (simp only: if_True if_False sum.distinct)
    qed
    show ?thesis using assms unfolding python_scan.simps(2) code project_script_def if_False if_not_P [OF False]
      by (simp only: deny_if_iff not_not sum.distinct split: if_split_asm) blast+
  qed
  then show ?thesis using that unfolding starts_with_append by (elim disjE conjE exE) blast+
qed

lemma scanned_launch:
  "python_scan root xs = Inr () \<Longrightarrow> ''-W'' \<notin> set xs \<Longrightarrow> ''-X'' \<notin> set xs \<Longrightarrow> ''--'' \<notin> set xs \<Longrightarrow>
    test_launch root (command_line False [] xs)"
proof (induction xs)
  case (Cons tok r)
  from Cons.prems(1) show ?case
  proof (cases rule: python_scan_cases)
    case (m m r')
    then show ?thesis by (simp add: module_launch test_launch_def)
  next
    case flag
    moreover have "tok \<noteq> ''--''" using Cons.prems(4) by auto
    ultimately show ?thesis using Cons scan_plain_flag by auto
  next
    case (glued v)
    have rest: "test_launch root (command_line False [] r)" using Cons glued(2) by auto
    from glued(1) show ?thesis
    proof (elim disjE)
      assume "tok = ''-W'' @ v"
      moreover have "v \<noteq> []" using calculation Cons.prems(2) by auto
      ultimately show ?thesis using rest by (simp only: glued_value simp_thms)
    next
      assume "tok = ''-X'' @ v"
      moreover have "v \<noteq> []" using calculation Cons.prems(3) by auto
      ultimately show ?thesis using rest by (simp only: glued_value simp_thms)
    next
      assume "tok = ''-Q'' @ v"
      then show ?thesis by (simp only: glued_value test_launch_def launch.case)
    qed
  next
    case script
    then show ?thesis by (simp add: bare_script test_launch_def)
  qed
qed simp

text \<open>C8: the floors hold in every mode, whatever the allow list and even under the break-glass that drops it: an
  accepted command starts no shell, no agent, no package runner and nothing else that is always denied; and when it
  starts Python, and no argument hides an option that takes the next argument behind other options, then the
  interpreter is not told to run code from its command line, however options, values, clusters and long options
  are mixed before the script.\<close>
theorem floors_hold:
  assumes "check_command_policy allowlist no_allowlist root cmd = Inr ()"
    and plain: "\<forall>t \<in> set (tl cmd). \<not> glued_option t"
  shows "cmd \<noteq> [] \<and> command_basename (hd cmd) \<notin> set (SHELL_BASENAMES @ ALWAYS_DENY_BASENAMES)
    \<and> (is_python_bin (command_basename (hd cmd)) \<longrightarrow> (\<forall>code. python_launch (tl cmd) \<noteq> RunCommand code))"
  using accepted_floors [OF assms(1)] region_sees_code [OF _ plain]
  unfolding check_floors_Inr has_code_flag python_launch_def by auto

lemma floors_hold_witness:
  "python_launch [''-W'', ''a.py'', ''-b'', ''--check-hash-based-pycs'', ''never'', ''t.py'', ''-c'', ''x''] \<noteq> RunCommand ''x''"
proof -
  let ?cmd = "[''/usr/bin/python3.11'', ''-W'', ''a.py'', ''-b'', ''--check-hash-based-pycs'', ''never'', ''t.py'', ''-c'', ''x'']"
  have "check_command_policy None True None ?cmd = Inr ()" by code_simp
  moreover have "list_all (\<lambda>t. \<not> glued_option t) (tl ?cmd)" by code_simp
  moreover have "is_python_bin (command_basename (hd ?cmd))" by code_simp
  ultimately show ?thesis using floors_hold [of None True None ?cmd] unfolding list_all_iff list.sel by blast
qed

text \<open>C21: in the normal mode an accepted Python command runs what it says: read by the interpreter's own
  grammar it starts \<open>pytest\<close>, \<open>unittest\<close> or a \<open>.py\<close> script of the project, or nothing at all, when none of its
  arguments is a bare \<open>-W\<close>, \<open>-X\<close> or \<open>--\<close>, which the policy reads differently from the interpreter.\<close>
theorem accepted_python_runs_tests:
  assumes "check_command_policy allowlist False root cmd = Inr ()" "is_python_bin (command_basename (hd cmd))"
    and "''-W'' \<notin> set cmd" "''-X'' \<notin> set cmd" "''--'' \<notin> set cmd"
  shows "test_launch root (python_launch (tl cmd))"
proof -
  have "set (tl cmd) \<subseteq> set cmd" by (cases cmd) auto
  then show ?thesis using scanned_launch [OF accepted_python_scan [OF assms(1,2)]] assms(3-5)
    unfolding python_launch_def by blast
qed

lemma accepted_python_runs_tests_witness:
  "test_launch None (python_launch [''-Wignore'', ''-u'', ''-m'', ''pytest'', ''-q'', ''-c'', ''x''])"
proof -
  let ?cmd = "[''python3'', ''-Wignore'', ''-u'', ''-m'', ''pytest'', ''-q'', ''-c'', ''x'']"
  have "check_command_policy None False None ?cmd = Inr ()" by code_simp
  moreover have "is_python_bin (command_basename (hd ?cmd))" by code_simp
  moreover have "''-W'' \<notin> set ?cmd" "''-X'' \<notin> set ?cmd" "''--'' \<notin> set ?cmd" by code_simp+
  ultimately show ?thesis using accepted_python_runs_tests [of None None ?cmd] unfolding list.sel by blast
qed



section \<open>Coalescing\<close>

lemma not_joined [simp]: "''not '' @ b \<noteq> ''not''" "''not '' @ b \<noteq> ''-m''"
  by (cases b) auto

lemma join_markers_other: "c \<noteq> ''-m'' \<Longrightarrow> join_markers (c # xs) = c # join_markers xs"
  by (cases xs; cases "tl xs") auto

lemma join_markers_hd: "\<exists>ys. join_markers (x # xs) = x # ys"
  by (cases xs; cases "tl xs") auto

lemma join_markers_skip:
  assumes "\<not> (a = ''not'' \<and> b \<noteq> [] \<and> \<not> starts_with b ''-'')"
  shows "join_markers (t # join_markers (a # b # r)) = t # join_markers (join_markers (a # b # r))"
proof (cases "a = ''not''")
  case True
  obtain ys where "join_markers (b # r) = b # ys" using join_markers_hd by blast
  then show ?thesis using assms True by (simp add: join_markers_other)
next
  case False
  obtain ys where ys: "join_markers (a # b # r) = a # ys" using join_markers_hd by blast
  show ?thesis unfolding ys using False by (cases ys) auto
qed

lemma join_markers_idem: "join_markers (join_markers xs) = join_markers xs"
proof (induction xs rule: join_markers.induct)
  case (1 t a b r)
  show ?case
  proof (cases "t = ''-m'' \<and> a = ''not'' \<and> b \<noteq> [] \<and> \<not> starts_with b ''-''")
    case True
    then show ?thesis using 1(1) by (cases "join_markers r") (auto simp: join_markers_other)
  next
    case False
    have eq: "join_markers (t # a # b # r) = t # join_markers (a # b # r)"
      unfolding join_markers.simps(1) [of t a b r] if_not_P [OF False] ..
    have "join_markers (t # join_markers (a # b # r)) = t # join_markers (join_markers (a # b # r))"
      using False join_markers_skip join_markers_other by (cases "t = ''-m''") blast+
    then show ?thesis by (simp only: eq 1(2) [OF False])
  qed
qed auto

lemma after_pytest_module_take:
  "after_pytest_module i xs = Some n \<Longrightarrow> i + 2 \<le> n \<and> n \<le> i + length xs \<and> after_pytest_module i (take (n - i) xs @ ys) = Some n"
proof (induction i xs rule: after_pytest_module.induct)
  case (1 i a b r)
  show ?case
  proof (cases "a = ''-m'' \<and> module_head b = ''pytest''")
    case True
    then have n: "n = i + 2" using 1(2) by simp
    show ?thesis unfolding n using True by simp
  next
    case False
    have "after_pytest_module (i + 1) (b # r) = Some n" using 1(2) unfolding after_pytest_module.simps(1) if_not_P [OF False] .
    from 1(1) [OF False this] obtain j where "n - i = Suc (Suc (Suc j))" "n - Suc i = Suc (Suc j)" "n \<le> i + length (a # b # r)"
        "after_pytest_module (i + 1) (take (n - Suc i) (b # r) @ ys) = Some n" "i + 2 \<le> n"
      by (auto simp: le_iff_add)
    then show ?thesis using False by auto
  qed
qed auto

lemma coalesce_idempotent: "coalesce_pytest_marker_expr (coalesce_pytest_marker_expr argv) = coalesce_pytest_marker_expr argv"
proof (cases argv)
  case (Cons a r)
  show ?thesis
  proof (cases "pytest_start argv")
    case (Some n)
    let ?out = "take n argv @ join_markers (drop n argv)"
    have "1 \<le> n \<and> n \<le> length argv \<and> pytest_start ?out = Some n"
    proof (cases "is_python_bin (command_basename a)")
      case True
      then have "after_pytest_module 1 r = Some n" using Some by (simp add: pytest_start_def Cons)
      from after_pytest_module_take [OF this, of "join_markers (drop n argv)"] obtain j where
        "n = Suc (Suc (Suc j))" "n \<le> length argv" "after_pytest_module 1 (take (n - 1) r @ join_markers (drop n argv)) = Some n"
        by (auto simp: le_iff_add Cons)
      then show ?thesis using True by (simp add: pytest_start_def Cons)
    next
      case False
      then show ?thesis using Some by (auto simp: pytest_start_def Cons Let_def split: if_split_asm)
    qed
    moreover from this have "take n ?out = take n argv" "drop n ?out = join_markers (drop n argv)" "?out \<noteq> []"
      by (auto simp: Cons)
    moreover have "coalesce_pytest_marker_expr argv = ?out" using Some by (simp add: coalesce_pytest_marker_expr_def Cons)
    ultimately show ?thesis by (simp add: coalesce_pytest_marker_expr_def join_markers_idem)
  qed (simp add: coalesce_pytest_marker_expr_def Cons)
qed (simp add: coalesce_pytest_marker_expr_def)

end
