(* ===== verification/Spec2Isabelle.thy ===== *)
theory Spec2Isabelle
  imports JobSafety JobRetrySafety JobDocument JobProtocol WorkflowSafety WorkflowRunSafety GoalTamper HashPatch
    HashDescriptorSafety HashPlanSafety HashApplySafety CommandPolicySafety
begin

text \<open>
  Verification of the durable core of oh-my-grok.  The program drives coding agents from the command line;
  what has to survive its crashes, restarts and rival processes are three kinds of documents below
  \<open>.omg/\<close>, jobs, workflows and goals, and the files of the user that it edits.  The development models the modules that keep them
  (\<open>src/omg_cli/jobs\<close>, \<open>src/omg_cli/contracts\<close>, \<open>src/omg_cli/workflows\<close>, \<open>src/omg_cli/goals.py\<close>,
  \<open>src/omg_cli/hash_edit\<close>) as functions on explicit state and proves what the rest of the program relies on.

  \<^bold>\<open>Conventions.\<close>  A Python object read from JSON is a value of \<open>json\<close> (\<open>Prelude\<close>), a dictionary
  an association list in insertion order.  Code that raises returns \<open>exception + value\<close>, sequenced by \<open>bindE\<close>;
  each component has its own exception type, and built-in exceptions that the code does not catch
  (\<open>TypeError\<close>, \<open>OverflowError\<close>, \<open>KeyError\<close>, ...) are values too, so that a theorem about errors says
  which ones leave a function.  Python's integers are \<open>int\<close>; times are microseconds.  \<open>PyValues\<close> holds
  \<open>int(v)\<close>, \<open>str(v)\<close>, truth and comparison.  Clocks, random tokens, file contents and digests of files are arguments.

  \<^bold>\<open>Jobs.\<close>
  \<^item> \<open>JobLease\<close> (\<open>jobs/lease.py\<close>): the lease as a record; \<open>validate_owner_lease\<close>, acquire, renew, release, fence.
  \<^item> \<open>JobModels\<close> (\<open>jobs/models.py\<close>): \<open>job_record\<close>, \<open>LEGAL_TRANSITIONS\<close>, \<open>apply_transition\<close>, the strict reader and the
    writer of \<open>job.json\<close>, the public view.
  \<^item> \<open>JobRetry\<close> (\<open>jobs/retry.py\<close>, \<open>jobs/scheduler.py\<close>, \<open>jobs/providers.py\<close>): classification of exits, back-off, admission.
  \<^item> \<open>JobStore\<close>, \<open>JobArchive\<close> (\<open>jobs/store.py\<close>): the directory of each job; every locked operation; the archive
    of an attempt and the retry transaction with its crash points; garbage collection.
  \<^item> \<open>JobStoreFacts\<close>: one locked update, once for all operations: the locales \<open>record_update\<close>, \<open>state_transition\<close> and
    \<open>owner_fenced\<close>, interpreted on every step.  \<open>JobProtocol\<close>: the store as a transition system of calls by any
    process (\<open>store_step\<close>), with \<open>protocol_step\<close> interpreted on every step.
  \<^item> \<open>JobSafety\<close>, \<open>JobRetrySafety\<close>, \<open>JobDocument\<close>: transitions are legal, terminal states absorb, a cancel
    request wins, a stale owner changes nothing, a crash of a retry at any point loses neither the archive nor
    the job, documents round trip, and the reader fails closed up to the exceptions it names.
    \<open>JobDemo\<close> has the concrete records of the witnesses.

  \<^bold>\<open>Workflows.\<close>
  \<^item> \<open>StateSchemas\<close> (\<open>contracts/state_schemas.py\<close>), \<open>CanonicalJson\<close> (\<open>contracts/writer_chain.py\<close>): the validators every
    contract uses; canonical JSON, its parser, UTF-8 and SHA-256.  The parser is given the length of the text as
    fuel, enough because each call consumes a character (\<open>CanonicalJsonFacts\<close> proves the round trip).
  \<^item> \<open>TopoOrder\<close>: Kahn's algorithm with a heap, against the locale \<open>ready_queue\<close>; \<open>WorkflowContract\<close>
    (\<open>contracts/workflow_contract.py\<close>): validation of stages and definitions, versions, the terminal decision.
  \<^item> \<open>WorkflowSchema\<close> (\<open>workflows/schema.py\<close>), \<open>WorkflowPlan\<close> (\<open>workflows/permissions.py\<close>, \<open>workflows/planner.py\<close>),
    \<open>WorkflowReplay\<close> (\<open>workflows/replay.py\<close>), \<open>WorkflowReview\<close> (\<open>workflows/review.py\<close>), \<open>WorkflowRunner\<close>
    (\<open>workflows/runner.py\<close>): compile, admit, expand into tasks and waves, run the waves, gate the results, assess a
    journal.  A wave is the step relation \<open>wave_step\<close>, because its tasks finish in any order; the file tree the review
    reads is a map from relative paths to regular files.
  \<^item> \<open>WorkflowFacts\<close>, \<open>WorkflowPlanFacts\<close>, \<open>WorkflowEvidence\<close>: inversions of the validators, the plan in closed form, and
    what the gate demands.  \<open>WorkflowSafety\<close>, \<open>WorkflowRunSafety\<close>: waves respect dependencies at plan time and at run
    time, each task runs once, success needs evidence bound to the run, nothing is shipped, validated definitions
    are confined and reviewed, and the error paths of the runner.  \<open>WorkflowDemo\<close>: the workflow of the witnesses.

  \<^bold>\<open>Goals.\<close>
  \<^item> \<open>GoalStories\<close>, \<open>GoalLedger\<close>, \<open>GoalOps\<close>, \<open>GoalRepair\<close> (\<open>goals.py\<close>, identifiers of \<open>evidence.py\<close>): the story graph,
    the hash-chained ledger and the snapshot, every operation, replay, status and repair.  An operation is a change of
    the snapshot with the body of one event; \<open>commit\<close> loads, changes, appends and writes.  Replay shares lists with
    the events it reads (\<open>share_evidence\<close>), which the repair writes back.
  \<^item> \<open>GoalGraph\<close>: the story graph is accepted exactly when it is closed and acyclic.  \<open>GoalFacts\<close>, \<open>GoalReplay\<close>,
    \<open>GoalInvariant\<close>, \<open>GoalHistory\<close>: the invariant, replay up to \<open>view\<close>, and the locale \<open>sound_change\<close> interpreted on
    every change.  \<open>GoalReachable\<close>: reachable stores (\<open>goal_reach\<close>).  \<open>GoalSafety\<close>, \<open>GoalTamper\<close>: the snapshot agrees
    with the replay of the ledger, stories run in order with evidence, crashes and their repair, the ledger fixes its own
    history up to a collision of SHA-256, and two ways in which the code fails.

  \<^bold>\<open>Hash edits.\<close>
  \<^item> \<open>HashText\<close>: text as code points, with all of UTF-8.  \<open>HashDescriptor\<close> (\<open>hash_edit/descriptor.py\<close>): the descriptor of an
    edit and its parsers; \<open>HashDescriptorFacts\<close>, \<open>HashDescriptorSafety\<close>: it is accepted in its canonical encoding only.
  \<^item> \<open>HashDiff\<close>, \<open>HashPlanner\<close> (\<open>hash_edit/planner.py\<close>): the matcher of Python's \<open>difflib\<close> and the unified diff, the search,
    the policies and the plan.  \<open>HashDiffFacts\<close>, \<open>HashPatch\<close>: the opcodes tile both texts, and an independent
    reader of the format turns the old text into the new one.  \<open>HashPlanFacts\<close>, \<open>HashPlanSpec\<close>,
    \<open>HashPlanSafety\<close>: the planner decides by the set of places of the needle, and a plan is exact.
  \<^item> \<open>HashApply\<close> (\<open>hash_edit/apply.py\<close>, parts of \<open>contracts/path_keys.py\<close>): the workspace as a tree, the walk that
    follows no link, the read, the replacement and the read-back; failures and other processes are arguments
    (\<open>environment\<close>).  \<open>HashApplyFacts\<close>, \<open>HashApplySafety\<close>: what a success means in any environment, atomicity, one
    application per plan, liveness of a fresh plan, the restore, and an error after the rename.  \<open>HashDemo\<close>: an edit.

  \<^bold>\<open>Acceptance commands.\<close>
  \<^item> \<open>CommandPolicy\<close> (\<open>command_policy.py\<close>): which argument vectors may be frozen and run.  \<open>CommandPolicySafety\<close>: an
    independent reading of CPython's command line, what the floors and the normal mode guarantee against it, and where
    the policy reads a command differently and can be passed.

  \<^bold>\<open>How the parts meet.\<close>  Digests of definitions, plans, receipts and events are SHA-256 of canonical JSON; no
  proof evaluates SHA-256 or assumes anything of it, and where a conclusion needs it to be injective the
  alternative is an explicit collision.  Workflows, goals and hash edits share the validators and the canonical JSON; jobs share only the prelude.

  \<^bold>\<open>Not modelled.\<close>  Processes, signals, sockets, locks and the waiting for them, the byte-level atomic
  replacement of the documents below \<open>.omg/\<close> (that of user files is modelled), Windows, terminal multiplexing, the providers' command lines, installers and release tooling,
  presentation of status.  Strings are lists of 8-bit characters (code points up to 255), so behaviour that depends on wider
  Unicode is outside, but for the text of edited files; regular expressions are written as the predicates they denote.  Floats occur only as
  opaque values with their text.  The teams, notifications, the remaining contracts and the modes (pipeline, autopilot,
  ralplan) are not modelled yet.
\<close>

end
